(* ===== verification/Libpod_Prelude.thy ===== *)
theory Libpod_Prelude
  imports Main "HOL-Library.List_Lexorder" "HOL-Library.Char_ord" "HOL-Library.Sublist"
begin

text \<open>
  The prelude of the development: the collections of simplification rules the component
  theories add to, and the generic operations through which the models thread errors.

  Go code of the repository returns a pair of a value and an error and tests the error after
  every call. The models use \<open>'e + 'a\<close> (\<open>Inl\<close> is the error) and the three
  combinators below: \<open>bindE\<close> is the pattern \<^verbatim>\<open>x, err := f(); if err != nil { return err }\<close>,
  \<open>requireE\<close> is the pattern \<^verbatim>\<open>if x == nil { return err }\<close> and \<open>guardE\<close> is a condition
  that returns an error when it fails. \<open>foldE\<close> is a loop whose body may return an error.
\<close>

named_theorems err_simps \<open>inversion of the error combinators at a successful result\<close>
named_theorems bolt_simps \<open>lookup laws of the buckets\<close>
named_theorems db_defs \<open>definitions of the operations on the database\<close>

section \<open>Results with errors\<close>

definition bindE :: "'e + 'a \<Rightarrow> ('a \<Rightarrow> 'e + 'b) \<Rightarrow> 'e + 'b" where
  "bindE m f = (case m of Inl e \<Rightarrow> Inl e | Inr x \<Rightarrow> f x)"

definition requireE :: "'a option \<Rightarrow> 'e \<Rightarrow> 'e + 'a" where
  "requireE x e = (case x of None \<Rightarrow> Inl e | Some y \<Rightarrow> Inr y)"

definition guardE :: "bool \<Rightarrow> 'e \<Rightarrow> 'e + unit" where
  "guardE b e = (if b then Inr () else Inl e)"

fun foldE :: "('a \<Rightarrow> 's \<Rightarrow> 'e + 's) \<Rightarrow> 'a list \<Rightarrow> 's \<Rightarrow> 'e + 's" where
  "foldE f [] s = Inr s"
| "foldE f (x # xs) s = bindE (f x s) (foldE f xs)"

lemma bindE_Inl [simp]: "bindE (Inl e) f = Inl e"
  by (simp add: bindE_def)

lemma bindE_Inr [simp]: "bindE (Inr x) f = f x"
  by (simp add: bindE_def)

lemma bindE_eq_Inr [err_simps]: "bindE m f = Inr y \<longleftrightarrow> (\<exists>x. m = Inr x \<and> f x = Inr y)"
  by (cases m) auto

lemma bindE_eq_Inl: "bindE m f = Inl e \<longleftrightarrow> m = Inl e \<or> (\<exists>x. m = Inr x \<and> f x = Inl e)"
  by (cases m) auto

lemma requireE_None [simp]: "requireE None e = Inl e"
  by (simp add: requireE_def)

lemma requireE_Some [simp]: "requireE (Some x) e = Inr x"
  by (simp add: requireE_def)

lemma requireE_eq_Inr [err_simps]: "requireE x e = Inr y \<longleftrightarrow> x = Some y"
  by (cases x) auto

lemma case_option_eq_Inr [err_simps]:
  "(case x of None \<Rightarrow> Inl e | Some y \<Rightarrow> f y) = Inr z \<longleftrightarrow> (\<exists>y. x = Some y \<and> f y = Inr z)"
  by (cases x) auto

lemma guardE_True [simp]: "guardE True e = Inr ()"
  by (simp add: guardE_def)

lemma guardE_False [simp]: "guardE False e = Inl e"
  by (simp add: guardE_def)

lemma guardE_eq_Inr [err_simps]: "guardE b e = Inr u \<longleftrightarrow> b"
  by (cases b) auto

text \<open>
  The loop rule: an invariant that every successful iteration keeps holds after the loop.
\<close>

lemma foldE_invariant:
  assumes "foldE f xs s = Inr s'" and "I s"
    and "\<And>x s s'. x \<in> set xs \<Longrightarrow> I s \<Longrightarrow> f x s = Inr s' \<Longrightarrow> I s'"
  shows "I s'"
  using assms
proof (induction xs arbitrary: s)
  case Nil
  then show ?case by simp
next
  case (Cons x xs)
  from Cons.prems(1) obtain t where t: "f x s = Inr t" "foldE f xs t = Inr s'"
    by (auto simp: bindE_eq_Inr)
  from Cons.prems(2) Cons.prems(3)[of x s t] t(1) have "I t" by simp
  show ?case
    by (rule Cons.IH[OF t(2) \<open>I t\<close>]) (use Cons.prems(3) in auto)
qed

lemma foldE_append:
  "foldE f (xs @ ys) s = bindE (foldE f xs s) (foldE f ys)"
proof (induction xs arbitrary: s)
  case (Cons x xs)
  then show ?case by (cases "f x s") auto
qed simp

lemma foldE_total:
  assumes "\<And>x s. x \<in> set xs \<Longrightarrow> f x s = Inr (g x s)"
  shows "foldE f xs s = Inr (fold g xs s)"
  using assms by (induction xs arbitrary: s) auto

text \<open>An error of a loop comes from one of its iterations.\<close>

lemma foldE_error:
  assumes "foldE f xs s = Inl e"
  shows "\<exists>x \<in> set xs. \<exists>s'. f x s' = Inl e"
  using assms by (induction xs arbitrary: s) (auto simp: bindE_eq_Inl)

section \<open>Lists and maps\<close>

lemma map_upd_None_id: "m k = None \<Longrightarrow> m(k := None) = m"
  by (simp add: fun_upd_idem)

lemma dom_fun_upd_None [simp]: "dom (m(k := None)) = dom m - {k}"
  by auto

lemma fold_insert_set: "fold (\<lambda>x A. insert x A) xs A = set xs \<union> A"
  by (induction xs arbitrary: A) auto

end
