(* ===== verification/Bolt.thy ===== *)
theory Bolt
  imports Libpod_Prelude
begin

text \<open>
  The buckets of a Bolt database, from \<^verbatim>\<open>src/vendor/go.etcd.io/bbolt/bucket.go\<close>. A bucket maps
  non-empty byte strings to values or to nested buckets and its cursor walks the keys in
  byte order. The model is an association list kept sorted by key; the type of the entries is
  a parameter, since every bucket libpod creates either holds only values or only nested
  buckets. The conditions under which Bolt refuses a key are kept
  (\<open>ErrKeyRequired\<close>, \<open>ErrKeyTooLarge\<close>, \<open>ErrBucketNameRequired\<close>, \<open>ErrBucketExists\<close>,
  \<open>ErrBucketNotFound\<close>); a key of the other kind (\<open>ErrIncompatibleValue\<close>) is excluded by the types, and
  running out of disk or of value size is not modelled.

  The locale \<open>kv_store\<close> is the interface the state database relies on: what a lookup returns
  after an insertion or a deletion, and that the keys walked are the keys stored. The locale
  \<open>id_name_registry\<close> extends two such stores to the pair of inverse registries (identifier to
  name, name to identifier) that libpod keeps for containers and pods.
\<close>

section \<open>Buckets\<close>

type_synonym 'v bucket = "(string \<times> 'v) list"

datatype bolt_error =
    ErrKeyRequired
  | ErrKeyTooLarge
  | ErrBucketNameRequired
  | ErrBucketExists
  | ErrBucketNotFound

definition MaxKeySize :: nat where
  "MaxKeySize = 32768"

fun bget :: "'v bucket \<Rightarrow> string \<Rightarrow> 'v option" where
  "bget [] k = None"
| "bget ((a, v) # b) k = (if a = k then Some v else bget b k)"

fun bins :: "string \<Rightarrow> 'v \<Rightarrow> 'v bucket \<Rightarrow> 'v bucket" where
  "bins k v [] = [(k, v)]"
| "bins k v ((a, w) # b) =
     (if k = a then (k, v) # b
      else if k < a then (k, v) # (a, w) # b
      else (a, w) # bins k v b)"

definition bdel :: "string \<Rightarrow> 'v bucket \<Rightarrow> 'v bucket" where
  "bdel k b = filter (\<lambda>e. fst e \<noteq> k) b"

definition bkeys :: "'v bucket \<Rightarrow> string list" where
  "bkeys b = map fst b"

definition Put :: "'v bucket \<Rightarrow> string \<Rightarrow> 'v \<Rightarrow> bolt_error + 'v bucket" where
  "Put b k v =
     (if k = [] then Inl ErrKeyRequired
      else if length k > MaxKeySize then Inl ErrKeyTooLarge
      else Inr (bins k v b))"

definition CreateBucket :: "'v bucket \<Rightarrow> string \<Rightarrow> 'v \<Rightarrow> bolt_error + 'v bucket" where
  "CreateBucket b k v =
     (if k = [] then Inl ErrBucketNameRequired
      else if bget b k \<noteq> None then Inl ErrBucketExists
      else Inr (bins k v b))"

definition DeleteBucket :: "'v bucket \<Rightarrow> string \<Rightarrow> bolt_error + 'v bucket" where
  "DeleteBucket b k = (if bget b k = None then Inl ErrBucketNotFound else Inr (bdel k b))"

fun ForEach :: "(string \<Rightarrow> 'v \<Rightarrow> 's \<Rightarrow> 'e + 's) \<Rightarrow> 'v bucket \<Rightarrow> 's \<Rightarrow> 'e + 's" where
  "ForEach f [] s = Inr s"
| "ForEach f ((k, v) # b) s = bindE (f k v s) (ForEach f b)"

text \<open>The order in which the cursor meets the keys, the representation invariant of a bucket.\<close>

definition bucket_ok :: "'v bucket \<Rightarrow> bool" where
  "bucket_ok b \<longleftrightarrow> sorted_wrt (<) (bkeys b)"

section \<open>Laws of the buckets\<close>

lemma bget_Nil [simp]: "bget [] = Map.empty"
  by (simp add: fun_eq_iff)

lemma bget_bins [bolt_simps]: "bget (bins k v b) = (bget b)(k \<mapsto> v)"
  by (induction b) (auto simp: fun_eq_iff)

lemma bget_bdel [bolt_simps]: "bget (bdel k b) = (bget b)(k := None)"
  by (induction b) (auto simp: bdel_def fun_eq_iff)

lemma set_bkeys [bolt_simps]: "set (bkeys b) = dom (bget b)"
  by (induction b) (auto simp: bkeys_def split: if_splits)

lemma bget_empty_iff: "bget b = Map.empty \<longleftrightarrow> b = []"
proof
  assume "bget b = Map.empty"
  then have "set (bkeys b) = {}" by (simp add: set_bkeys)
  then show "b = []" by (simp add: bkeys_def)
qed (simp add: fun_eq_iff)

lemma bkeys_bins: "set (bkeys (bins k v b)) = insert k (set (bkeys b))"
  by (simp add: set_bkeys bget_bins)

lemma bucket_ok_Nil [simp]: "bucket_ok []"
  by (simp add: bucket_ok_def bkeys_def)

lemma bucket_ok_bins: "bucket_ok b \<Longrightarrow> bucket_ok (bins k v b)"
proof (induction b)
  case Nil
  then show ?case by (simp add: bucket_ok_def bkeys_def)
next
  case (Cons e b)
  obtain a w where e: "e = (a, w)" by (cases e)
  from Cons.prems e have hd: "\<forall>x \<in> set (bkeys b). a < x" and ok: "bucket_ok b"
    by (auto simp: bucket_ok_def bkeys_def)
  show ?case
  proof (cases "k \<le> a")
    case True
    with hd ok e show ?thesis
      by (auto simp: bucket_ok_def bkeys_def)
  next
    case False
    then have "a < k" by simp
    with hd have "\<forall>x \<in> set (bkeys (bins k v b)). a < x"
      by (auto simp: bkeys_bins)
    with False e Cons.IH[OF ok] show ?thesis
      by (auto simp: bucket_ok_def bkeys_def)
  qed
qed

lemma bucket_ok_bdel: "bucket_ok b \<Longrightarrow> bucket_ok (bdel k b)"
  by (induction b) (auto simp: bucket_ok_def bkeys_def bdel_def)

lemma bucket_ok_distinct: "bucket_ok b \<Longrightarrow> distinct (bkeys b)"
  using strict_sorted_iff unfolding bucket_ok_def by blast

lemma Put_eq_Inr [err_simps]:
  "Put b k v = Inr b' \<longleftrightarrow> k \<noteq> [] \<and> length k \<le> MaxKeySize \<and> b' = bins k v b"
  by (auto simp: Put_def)

lemma CreateBucket_eq_Inr [err_simps]:
  "CreateBucket b k v = Inr b' \<longleftrightarrow> k \<noteq> [] \<and> bget b k = None \<and> b' = bins k v b"
  by (auto simp: CreateBucket_def)

lemma DeleteBucket_eq_Inr [err_simps]:
  "DeleteBucket b k = Inr b' \<longleftrightarrow> bget b k \<noteq> None \<and> b' = bdel k b"
  by (auto simp: DeleteBucket_def)

lemma bdel_notin: "bget b k = None \<Longrightarrow> bdel k b = b"
  by (induction b) (auto simp: bdel_def split: if_splits)

lemma bdel_bins_new:
  assumes "bucket_ok b" and "bget b k = None"
  shows "bdel k (bins k v b) = b"
  using assms
proof (induction b)
  case Nil
  then show ?case by (simp add: bdel_def)
next
  case (Cons e b)
  obtain a w where e: "e = (a, w)" by (cases e)
  from Cons.prems e have "bget b k = None" "bucket_ok b" "a \<noteq> k"
    by (auto simp: bucket_ok_def bkeys_def split: if_splits)
  then have "bdel k b = b" "bdel k (bins k v b) = b"
    using Cons.IH bdel_notin by auto
  with e \<open>a \<noteq> k\<close> show ?case by (auto simp: bdel_def)
qed

text \<open>A walk that collects every key returns the keys in byte order.\<close>

lemma ForEach_total:
  assumes "\<And>k v s. f k v s = Inr (g k v s)"
  shows "ForEach f b s = Inr (fold (\<lambda>(k, v). g k v) b s)"
  using assms by (induction b arbitrary: s) auto

lemma ForEach_collect:
  "ForEach (\<lambda>k v acc. Inr (acc @ [k])) b acc = Inr (acc @ bkeys b)"
  by (induction b arbitrary: acc) (auto simp: bkeys_def)

lemma ForEach_filter:
  "ForEach (\<lambda>k v acc. Inr (if P k v then acc @ [k] else acc)) b acc =
     Inr (acc @ map fst (filter (\<lambda>(k, v). P k v) b))"
  by (induction b arbitrary: acc) auto

section \<open>The interface of a key-value store\<close>

locale kv_store =
  fixes empty :: "'b"
    and get :: "'b \<Rightarrow> string \<Rightarrow> 'v option"
    and ins :: "string \<Rightarrow> 'v \<Rightarrow> 'b \<Rightarrow> 'b"
    and del :: "string \<Rightarrow> 'b \<Rightarrow> 'b"
    and keys :: "'b \<Rightarrow> string list"
  assumes get_empty: "get empty = Map.empty"
    and get_ins: "get (ins k v b) = (get b)(k \<mapsto> v)"
    and get_del: "get (del k b) = (get b)(k := None)"
    and keys_get: "set (keys b) = dom (get b)"
begin

lemma get_ins_same: "get (ins k v b) k = Some v"
  by (simp add: get_ins)

lemma get_ins_other: "j \<noteq> k \<Longrightarrow> get (ins k v b) j = get b j"
  by (simp add: get_ins)

lemma get_del_same: "get (del k b) k = None"
  by (simp add: get_del)

lemma keys_ins: "set (keys (ins k v b)) = insert k (set (keys b))"
  by (simp add: keys_get get_ins)

lemma keys_del: "set (keys (del k b)) = set (keys b) - {k}"
  by (simp add: keys_get get_del)

lemma del_ins_new: "get b k = None \<Longrightarrow> get (del k (ins k v b)) = get b"
  by (simp add: get_ins get_del fun_eq_iff)

lemma empty_keys: "keys b = [] \<longleftrightarrow> get b = Map.empty"
  by (metis dom_eq_empty_conv keys_get set_empty)

end

interpretation bkt: kv_store "[]" bget bins bdel bkeys
  by unfold_locales (auto simp: bolt_simps)

section \<open>Inverse registries\<close>

text \<open>
  The registries of identifiers and names: each is the inverse of the other, so identifiers and
  names are globally unique.
\<close>

locale id_name_registry = kv_store empty get ins del keys
  for empty :: "'b" and get :: "'b \<Rightarrow> string \<Rightarrow> string option"
    and ins :: "string \<Rightarrow> string \<Rightarrow> 'b \<Rightarrow> 'b" and del :: "string \<Rightarrow> 'b \<Rightarrow> 'b"
    and keys :: "'b \<Rightarrow> string list" +
  fixes inverse :: "'b \<Rightarrow> 'b \<Rightarrow> bool"
  assumes inverse_iff: "inverse ids names \<longleftrightarrow> (\<forall>i n. get ids i = Some n \<longleftrightarrow> get names n = Some i)"
begin

lemma inverse_empty: "inverse empty empty"
  by (simp add: inverse_iff get_empty)

lemma inverse_ins:
  "inverse ids names \<Longrightarrow> get ids i = None \<Longrightarrow> get names n = None
    \<Longrightarrow> inverse (ins i n ids) (ins n i names)"
  unfolding inverse_iff get_ins fun_upd_apply by (metis option.distinct(1) option.inject)

lemma inverse_del:
  "inverse ids names \<Longrightarrow> get ids i = Some n \<Longrightarrow> inverse (del i ids) (del n names)"
  unfolding inverse_iff get_del fun_upd_apply by (metis option.distinct(1) option.inject)

lemma inverse_rename:
  assumes "inverse ids names" "get ids i = Some old" "get names new = None"
  shows "inverse (ins i new ids) (ins new i (del old names))"
  using assms unfolding inverse_iff get_ins get_del fun_upd_apply
  by (metis option.distinct(1) option.inject)

lemma inverse_inj:
  "inverse ids names \<Longrightarrow> get ids i = Some n \<Longrightarrow> get ids j = Some n \<Longrightarrow> i = j"
  unfolding inverse_iff by (metis option.inject)

end

definition registries_inverse :: "string bucket \<Rightarrow> string bucket \<Rightarrow> bool" where
  "registries_inverse ids names \<longleftrightarrow>
     (\<forall>i n. bget ids i = Some n \<longleftrightarrow> bget names n = Some i)"

interpretation reg: id_name_registry "[]" bget bins bdel bkeys registries_inverse
  by unfold_locales (simp add: registries_inverse_def)

end
