(* ===== verification/Define.thy ===== *)
theory Define
  imports Bolt "HOL-Library.Word"
begin

text \<open>
  The vocabulary of libpod: the sentinel errors of \<^verbatim>\<open>src/libpod/define/errors.go\<close> and the container
  and exec session states of \<^verbatim>\<open>src/libpod/define/containerstate.go\<close>. Errors are compared in the code
  with \<^verbatim>\<open>errors.Is\<close>, so a wrapped error is modelled by the sentinel it wraps and the
  message text is dropped. The constructors after the sentinels stand for the other ways a
  call fails: an error of the bucket layer, JSON that does not decode, the operating system,
  a Go run-time panic.
\<close>

section \<open>Errors\<close>

datatype error =
    ErrNoSuchCtr | ErrNoSuchPod | ErrNoSuchVolume | ErrNoSuchNetwork
  | ErrNoSuchExecSession | ErrNoSuchExitCode | ErrDepExists | ErrNoAliases | ErrMissingPlugin
  | ErrCtrExists | ErrPodExists | ErrImageExists | ErrVolumeExists | ErrExecSessionExists
  | ErrNetworkExists | ErrCtrStateInvalid | ErrExecSessionStateInvalid | ErrVolumeBeingUsed
  | ErrRuntimeFinalized | ErrCtrFinalized | ErrPodFinalized | ErrVolumeFinalized
  | ErrInvalidArg | ErrEmptyID | ErrInternal | ErrPodPartialFail | ErrWillDeadlock
  | ErrRuntimeStopped | ErrCtrStopped | ErrCtrRemoved | ErrPodRemoved | ErrVolumeRemoved
  | ErrExecSessionRemoved | ErrDBClosed | ErrDBBadConfig | ErrNSMismatch
  | ErrNetworkConnected | ErrNetworkInUse
  | ErrBolt bolt_error | ErrJSON | ErrSyntax | ErrRange | ErrPlain | ErrOS nat | Panic

text \<open>An error of the bucket layer, wrapped by the code that called it.\<close>

definition liftB :: "bolt_error + 'a \<Rightarrow> error + 'a" where
  "liftB m = (case m of Inl e \<Rightarrow> Inl (ErrBolt e) | Inr x \<Rightarrow> Inr x)"

lemma liftB_eq_Inr [err_simps]: "liftB m = Inr x \<longleftrightarrow> m = Inr x"
  by (cases m) (auto simp: liftB_def)

lemma liftB_simps [simp]: "liftB (Inr x) = Inr x" "liftB (Inl e) = Inl (ErrBolt e)"
  by (simp_all add: liftB_def)

section \<open>Container states\<close>

datatype ContainerStatus =
    ContainerStateUnknown
  | ContainerStateConfigured
  | ContainerStateCreated
  | ContainerStateRunning
  | ContainerStateStopped
  | ContainerStatePaused
  | ContainerStateExited
  | ContainerStateRemoving
  | ContainerStateStopping

fun ContainerStatus_String :: "ContainerStatus \<Rightarrow> string" where
  "ContainerStatus_String ContainerStateUnknown = ''unknown''"
| "ContainerStatus_String ContainerStateConfigured = ''created''"
| "ContainerStatus_String ContainerStateCreated = ''initialized''"
| "ContainerStatus_String ContainerStateRunning = ''running''"
| "ContainerStatus_String ContainerStateStopped = ''stopped''"
| "ContainerStatus_String ContainerStatePaused = ''paused''"
| "ContainerStatus_String ContainerStateExited = ''exited''"
| "ContainerStatus_String ContainerStateRemoving = ''removing''"
| "ContainerStatus_String ContainerStateStopping = ''stopping''"

definition StringToContainerStatus :: "string \<Rightarrow> error + ContainerStatus" where
  "StringToContainerStatus status =
     (if status = ContainerStatus_String ContainerStateUnknown then Inr ContainerStateUnknown
      else if status = ContainerStatus_String ContainerStateConfigured then Inr ContainerStateConfigured
      else if status = ContainerStatus_String ContainerStateCreated then Inr ContainerStateCreated
      else if status = ContainerStatus_String ContainerStateRunning then Inr ContainerStateRunning
      else if status = ContainerStatus_String ContainerStateStopped then Inr ContainerStateStopped
      else if status = ContainerStatus_String ContainerStatePaused then Inr ContainerStatePaused
      else if status = ContainerStatus_String ContainerStateExited then Inr ContainerStateExited
      else if status = ContainerStatus_String ContainerStateRemoving then Inr ContainerStateRemoving
      else Inl ErrInvalidArg)"

datatype ContainerExecStatus =
    ExecStateUnknown | ExecStateCreated | ExecStateRunning | ExecStateStopped

fun ContainerExecStatus_String :: "ContainerExecStatus \<Rightarrow> string" where
  "ContainerExecStatus_String ExecStateUnknown = ''unknown''"
| "ContainerExecStatus_String ExecStateCreated = ''created''"
| "ContainerExecStatus_String ExecStateRunning = ''running''"
| "ContainerExecStatus_String ExecStateStopped = ''stopped''"

lemma ContainerStatus_String_inj: "inj ContainerStatus_String"
proof (rule injI)
  fix a b
  show "ContainerStatus_String a = ContainerStatus_String b \<Longrightarrow> a = b"
    by (cases a; cases b) simp_all
qed

lemma StringToContainerStatus_sound:
  "StringToContainerStatus s = Inr st \<Longrightarrow> ContainerStatus_String st = s"
  by (auto simp: StringToContainerStatus_def split: if_splits)

end
