(* ===== verification/Types.thy ===== *)
theory Types
  imports Define
begin

text \<open>
  The structs that libpod stores in its state database: container configuration and state
  (\<^verbatim>\<open>src/libpod/container.go\<close>, \<^verbatim>\<open>src/libpod/container_config.go\<close>), exec sessions
  (\<^verbatim>\<open>src/libpod/container_exec.go\<close>), pods (\<^verbatim>\<open>src/libpod/pod.go\<close>) and volumes (\<^verbatim>\<open>src/libpod/volume.go\<close>), and the
  functions that reset a state after a reboot. A record keeps the fields that the modelled code reads or writes;
  the remaining fields of the Go structs are carried through the database unread.
  Go maps are association lists in an iteration order, times are integers with 0 for the zero
  time, and ports and lock identifiers keep their machine width.

  A JSON value in the database is \<open>Enc x\<close> for the encoding of \<open>x\<close> or \<open>Malformed\<close> for bytes that
  do not decode.
\<close>

section \<open>Encoded values\<close>

datatype 'a json = Enc 'a | Malformed

definition Marshal :: "'a \<Rightarrow> 'a json" where
  "Marshal x = Enc x"

fun Unmarshal :: "'a json \<Rightarrow> error + 'a" where
  "Unmarshal (Enc x) = Inr x"
| "Unmarshal Malformed = Inl ErrJSON"

lemma Unmarshal_Marshal [simp]: "Unmarshal (Marshal x) = Inr x"
  by (simp add: Marshal_def)

lemma Unmarshal_eq_Inr [err_simps]: "Unmarshal j = Inr x \<longleftrightarrow> j = Enc x"
  by (cases j) auto

section \<open>Networks and ports\<close>

record PerNetworkOptions =
  StaticIPs :: "string list"
  Aliases :: "string list"
  StaticMAC :: string
  InterfaceName :: string

record PortMapping =
  HostIP :: string
  ContainerPort :: "16 word"
  HostPort :: "16 word"
  Range :: "16 word"
  Protocol :: string

record OCICNIPortMapping =
  oHostPort :: "32 word"
  oContainerPort :: "32 word"
  oProtocol :: string
  oHostIP :: string

section \<open>Exec sessions\<close>

record ExecSession =
  es_Id :: string
  es_ContainerId :: string
  es_State :: ContainerExecStatus
  es_PID :: int
  es_ExitCode :: int

section \<open>Containers\<close>

record ContainerNamedVolume =
  nv_Name :: string
  nv_Dest :: string
  nv_Options :: "string list"

record ContainerConfig =
  cfg_ID :: string
  cfg_Name :: string
  cfg_Pod :: string
  cfg_LockID :: "32 word"
  cfg_Dependencies :: "string list"
  cfg_rewrite :: bool
  cfg_NamedVolumes :: "ContainerNamedVolume list"
  cfg_IPCNsCtr :: string
  cfg_MountNsCtr :: string
  cfg_NetNsCtr :: string
  cfg_PIDNsCtr :: string
  cfg_UserNsCtr :: string
  cfg_UTSNsCtr :: string
  cfg_CgroupNsCtr :: string
  cfg_StaticIP :: "string option"
  cfg_StaticMAC :: string
  cfg_PortMappings :: "PortMapping list"
  cfg_OldPortMappings :: "OCICNIPortMapping list"
  cfg_Networks :: "(string \<times> PerNetworkOptions) list"
  cfg_NetworksDeprecated :: "string list"
  cfg_NetMode :: string
  cfg_OCIRuntime :: string

record ContainerState =
  cs_State :: ContainerStatus
  cs_ConfigPath :: string
  cs_RunDir :: string
  cs_Mounted :: bool
  cs_Mountpoint :: string
  cs_StartedTime :: int
  cs_FinishedTime :: int
  cs_ExitCode :: "32 word"
  cs_Exited :: bool
  cs_OOMKilled :: bool
  cs_Checkpointed :: bool
  cs_PID :: int
  cs_ConmonPID :: int
  cs_ExecSessions :: "(string \<times> ExecSession) list"
  cs_LegacyExecSessions :: "string list"
  cs_NetNS :: string
  cs_NetworkStatus :: "string list"
  cs_NetworkStatusOld :: "string list"
  cs_BindMounts :: "(string \<times> string) list"
  cs_StoppedByUser :: bool
  cs_RestartPolicyMatch :: bool
  cs_RestartCount :: "64 word"
  cs_StartupHCPassed :: bool
  cs_StartupHCSuccessCount :: int
  cs_StartupHCFailureCount :: int
  cs_NetInterfaceDescriptions :: "(string \<times> int) list option"
  cs_CheckpointedTime :: int
  cs_RestoredTime :: int
  cs_CheckpointLog :: string
  cs_CheckpointPath :: string
  cs_RestoreLog :: string
  cs_Restored :: bool

datatype OCIRuntime =
    DefaultRuntime
  | RegisteredRuntime string
  | ConmonRuntime string
  | MissingRuntime string

record Container =
  ctr_config :: ContainerConfig
  ctr_state :: ContainerState
  ctr_valid :: bool
  ctr_lock :: "32 word option"
  ctr_ociRuntime :: "OCIRuntime option"

abbreviation ctr_ID :: "Container \<Rightarrow> string" where
  "ctr_ID c \<equiv> cfg_ID (ctr_config c)"

abbreviation ctr_Name :: "Container \<Rightarrow> string" where
  "ctr_Name c \<equiv> cfg_Name (ctr_config c)"

text \<open>
  \<open>Dependencies\<close> collects the namespace containers and the generic dependencies in a Go map and
  returns its keys; the model lists them without repetition.
\<close>

definition cfg_depends :: "ContainerConfig \<Rightarrow> string list" where
  "cfg_depends cfg = remdups
     (filter (\<lambda>d. d \<noteq> [])
        [cfg_IPCNsCtr cfg, cfg_MountNsCtr cfg, cfg_NetNsCtr cfg, cfg_PIDNsCtr cfg,
         cfg_UserNsCtr cfg, cfg_UTSNsCtr cfg, cfg_CgroupNsCtr cfg]
      @ cfg_Dependencies cfg)"

definition Dependencies :: "Container \<Rightarrow> string list" where
  "Dependencies c = cfg_depends (ctr_config c)"

lemma distinct_Dependencies: "distinct (Dependencies c)"
  by (simp add: Dependencies_def cfg_depends_def)

lemma cfg_depends_Networks [simp]:
  "cfg_depends (cfg\<lparr>cfg_Networks := n\<rparr>) = cfg_depends cfg"
  by (simp add: cfg_depends_def)

definition resetContainerState :: "ContainerState \<Rightarrow> ContainerState" where
  "resetContainerState st =
     st\<lparr>cs_PID := 0, cs_ConmonPID := 0, cs_Mountpoint := [], cs_Mounted := False,
        cs_State := (if cs_State st \<noteq> ContainerStateExited then ContainerStateConfigured
                     else cs_State st),
        cs_ExecSessions := [], cs_LegacyExecSessions := [], cs_BindMounts := [],
        cs_StoppedByUser := False, cs_RestartPolicyMatch := False, cs_RestartCount := 0,
        cs_Checkpointed := False, cs_Restored := False, cs_CheckpointedTime := 0,
        cs_RestoredTime := 0, cs_CheckpointPath := [], cs_CheckpointLog := [],
        cs_RestoreLog := [], cs_StartupHCPassed := False, cs_StartupHCSuccessCount := 0,
        cs_StartupHCFailureCount := 0, cs_NetNS := [], cs_NetworkStatus := [],
        cs_NetworkStatusOld := []\<rparr>"

lemma resetContainerState_idem [simp]:
  "resetContainerState (resetContainerState st) = resetContainerState st"
  by (simp add: resetContainerState_def)

section \<open>Pods\<close>

record PodConfig =
  pc_ID :: string
  pc_Name :: string
  pc_HasInfra :: bool
  pc_LockID :: "32 word"

record podState =
  ps_CgroupPath :: string
  ps_InfraContainerID :: string

record Pod =
  pod_config :: PodConfig
  pod_state :: podState
  pod_valid :: bool
  pod_lock :: "32 word option"

abbreviation pod_ID :: "Pod \<Rightarrow> string" where
  "pod_ID p \<equiv> pc_ID (pod_config p)"

abbreviation pod_Name :: "Pod \<Rightarrow> string" where
  "pod_Name p \<equiv> pc_Name (pod_config p)"

definition resetPodState :: "podState \<Rightarrow> podState" where
  "resetPodState st = st\<lparr>ps_CgroupPath := []\<rparr>"

lemma resetPodState_idem [simp]: "resetPodState (resetPodState st) = resetPodState st"
  by (simp add: resetPodState_def)

section \<open>Volumes\<close>

record VolumeConfig =
  vc_Name :: string
  vc_LockID :: "32 word"
  vc_Driver :: string
  vc_StorageID :: string

record VolumeState =
  vs_MountPoint :: string
  vs_MountCount :: "64 word"
  vs_NeedsCopyUp :: bool
  vs_NeedsChown :: bool
  vs_UIDChowned :: int
  vs_GIDChowned :: int

record Volume =
  vol_config :: VolumeConfig
  vol_state :: "VolumeState option"
  vol_valid :: bool
  vol_lock :: "32 word option"
  vol_plugin :: "string option"

abbreviation vol_Name :: "Volume \<Rightarrow> string" where
  "vol_Name v \<equiv> vc_Name (vol_config v)"

definition resetVolumeState :: "VolumeState \<Rightarrow> VolumeState" where
  "resetVolumeState st = st\<lparr>vs_MountCount := 0, vs_MountPoint := []\<rparr>"

lemma resetVolumeState_idem [simp]: "resetVolumeState (resetVolumeState st) = resetVolumeState st"
  by (simp add: resetVolumeState_def)

section \<open>The zero values of Go\<close>

definition zero_ContainerConfig :: ContainerConfig where
  "zero_ContainerConfig =
     \<lparr>cfg_ID = [], cfg_Name = [], cfg_Pod = [], cfg_LockID = 0, cfg_Dependencies = [],
      cfg_rewrite = False, cfg_NamedVolumes = [], cfg_IPCNsCtr = [], cfg_MountNsCtr = [],
      cfg_NetNsCtr = [], cfg_PIDNsCtr = [], cfg_UserNsCtr = [], cfg_UTSNsCtr = [],
      cfg_CgroupNsCtr = [], cfg_StaticIP = None, cfg_StaticMAC = [], cfg_PortMappings = [],
      cfg_OldPortMappings = [], cfg_Networks = [], cfg_NetworksDeprecated = [],
      cfg_NetMode = [], cfg_OCIRuntime = []\<rparr>"

definition zero_ContainerState :: ContainerState where
  "zero_ContainerState =
     \<lparr>cs_State = ContainerStateUnknown, cs_ConfigPath = [], cs_RunDir = [], cs_Mounted = False,
      cs_Mountpoint = [], cs_StartedTime = 0, cs_FinishedTime = 0, cs_ExitCode = 0,
      cs_Exited = False, cs_OOMKilled = False, cs_Checkpointed = False, cs_PID = 0,
      cs_ConmonPID = 0, cs_ExecSessions = [], cs_LegacyExecSessions = [], cs_NetNS = [],
      cs_NetworkStatus = [], cs_NetworkStatusOld = [], cs_BindMounts = [],
      cs_StoppedByUser = False, cs_RestartPolicyMatch = False, cs_RestartCount = 0,
      cs_StartupHCPassed = False, cs_StartupHCSuccessCount = 0, cs_StartupHCFailureCount = 0,
      cs_NetInterfaceDescriptions = None, cs_CheckpointedTime = 0, cs_RestoredTime = 0,
      cs_CheckpointLog = [], cs_CheckpointPath = [], cs_RestoreLog = [], cs_Restored = False\<rparr>"

definition zero_podState :: podState where
  "zero_podState = \<lparr>ps_CgroupPath = [], ps_InfraContainerID = []\<rparr>"

definition zero_VolumeState :: VolumeState where
  "zero_VolumeState =
     \<lparr>vs_MountPoint = [], vs_MountCount = 0, vs_NeedsCopyUp = False, vs_NeedsChown = False,
      vs_UIDChowned = 0, vs_GIDChowned = 0\<rparr>"

section \<open>What the state takes from the runtime\<close>

text \<open>
  The parts of the libpod runtime that the state database calls: the lock manager, the table
  of OCI runtimes and whether a runtime can be made from a path, the volume plugins and
  the configured default network.
\<close>

record Runtime =
  rt_RetrieveLock :: "32 word \<Rightarrow> error + 32 word"
  rt_ociRuntimes :: "string list"
  rt_newConmonOCIRuntime :: "string \<Rightarrow> bool"
  rt_getVolumePlugin :: "VolumeConfig \<Rightarrow> error + string"
  rt_VolumePlugins :: "string list"
  rt_DefaultNetwork :: string

end
