(* ===== verification/BoltSchema.thy ===== *)
theory BoltSchema
  imports Types
begin

text \<open>
  The schema of the state database (\<^verbatim>\<open>src/libpod/boltdb_state.go\<close>, \<^verbatim>\<open>src/libpod/boltdb_state_internal.go\<close>),
  its connection and its transactions.

  The top-level buckets are the fields of \<open>boltdb\<close>, \<open>None\<close> when the bucket does not exist. The
  sub-bucket of a container, a pod or a volume has a fixed set of keys and is a record with an
  optional field per key.

  The connection is guarded by an in-memory mutex: \<open>getDBCon\<close> takes it before it opens the
  file and \<open>closeDBCon\<close> releases it. An operation that blocks on the mutex is \<open>None\<close>. A transaction
  that returns an error is rolled back. In several places the code clears the \<open>valid\<close> flag of
  the object it was given just before it returns an error; the error of a transaction carries
  which flag that is.
\<close>

section \<open>Buckets\<close>

datatype netval = NetOpts "PerNetworkOptions json" | NetRaw string

record ctr_bkt =
  cb_config :: "ContainerConfig json option"
  cb_state :: "ContainerState json option"
  cb_netNS :: "string option"
  cb_podID :: "string option"
  cb_deps :: "string bucket option"
  cb_exec :: "string bucket option"
  cb_networks :: "netval bucket option"
  cb_aliases :: "string bucket bucket option"

record pod_bkt =
  pb_config :: "PodConfig json option"
  pb_state :: "podState json option"
  pb_containers :: "string bucket option"

record vol_bkt =
  vb_config :: "VolumeConfig json option"
  vb_state :: "VolumeState json option"
  vb_deps :: "string bucket option"

record boltdb =
  db_ids :: "string bucket option"
  db_names :: "string bucket option"
  db_ctrs :: "ctr_bkt bucket option"
  db_allCtrs :: "string bucket option"
  db_pods :: "pod_bkt bucket option"
  db_allPods :: "string bucket option"
  db_vols :: "vol_bkt bucket option"
  db_allVols :: "string bucket option"
  db_exec :: "string bucket option"
  db_runtimeConfig :: "string bucket option"
  db_exitCode :: "string bucket option"
  db_exitTime :: "int json bucket option"
  db_volCtrs :: "string bucket option"

definition empty_ctr_bkt :: ctr_bkt where
  "empty_ctr_bkt =
     \<lparr>cb_config = None, cb_state = None, cb_netNS = None, cb_podID = None, cb_deps = None,
      cb_exec = None, cb_networks = None, cb_aliases = None\<rparr>"

definition empty_pod_bkt :: pod_bkt where
  "empty_pod_bkt = \<lparr>pb_config = None, pb_state = None, pb_containers = None\<rparr>"

definition empty_vol_bkt :: vol_bkt where
  "empty_vol_bkt = \<lparr>vb_config = None, vb_state = None, vb_deps = None\<rparr>"

section \<open>Access to the top-level buckets\<close>

definition getIDBucket :: "boltdb \<Rightarrow> error + string bucket" where
  "getIDBucket tx = requireE (db_ids tx) ErrDBBadConfig"

definition getNamesBucket :: "boltdb \<Rightarrow> error + string bucket" where
  "getNamesBucket tx = requireE (db_names tx) ErrDBBadConfig"

definition getCtrBucket :: "boltdb \<Rightarrow> error + ctr_bkt bucket" where
  "getCtrBucket tx = requireE (db_ctrs tx) ErrDBBadConfig"

definition getAllCtrsBucket :: "boltdb \<Rightarrow> error + string bucket" where
  "getAllCtrsBucket tx = requireE (db_allCtrs tx) ErrDBBadConfig"

definition getPodBucket :: "boltdb \<Rightarrow> error + pod_bkt bucket" where
  "getPodBucket tx = requireE (db_pods tx) ErrDBBadConfig"

definition getAllPodsBucket :: "boltdb \<Rightarrow> error + string bucket" where
  "getAllPodsBucket tx = requireE (db_allPods tx) ErrDBBadConfig"

definition getVolBucket :: "boltdb \<Rightarrow> error + vol_bkt bucket" where
  "getVolBucket tx = requireE (db_vols tx) ErrDBBadConfig"

definition getAllVolsBucket :: "boltdb \<Rightarrow> error + string bucket" where
  "getAllVolsBucket tx = requireE (db_allVols tx) ErrDBBadConfig"

definition getExecBucket :: "boltdb \<Rightarrow> error + string bucket" where
  "getExecBucket tx = requireE (db_exec tx) ErrDBBadConfig"

definition getRuntimeConfigBucket :: "boltdb \<Rightarrow> error + string bucket" where
  "getRuntimeConfigBucket tx = requireE (db_runtimeConfig tx) ErrDBBadConfig"

definition getExitCodeBucket :: "boltdb \<Rightarrow> error + string bucket" where
  "getExitCodeBucket tx = requireE (db_exitCode tx) ErrDBBadConfig"

definition getExitCodeTimeStampBucket :: "boltdb \<Rightarrow> error + int json bucket" where
  "getExitCodeTimeStampBucket tx = requireE (db_exitTime tx) ErrDBBadConfig"

definition getVolumeContainersBucket :: "boltdb \<Rightarrow> error + string bucket" where
  "getVolumeContainersBucket tx = requireE (db_volCtrs tx) ErrDBBadConfig"

lemmas getBucket_defs [db_defs] =
  getIDBucket_def getNamesBucket_def getCtrBucket_def getAllCtrsBucket_def getPodBucket_def
  getAllPodsBucket_def getVolBucket_def getAllVolsBucket_def getExecBucket_def
  getRuntimeConfigBucket_def getExitCodeBucket_def getExitCodeTimeStampBucket_def
  getVolumeContainersBucket_def

section \<open>The connection\<close>

record BoltState =
  bs_valid :: bool
  bs_dbLock :: bool
  bs_openErr :: "error option"
  bs_db :: boltdb

text \<open>
  \<open>bs_openErr\<close> is what the next \<^verbatim>\<open>bolt.Open\<close> answers. Opening can fail after the mutex was
  taken; the error path returns without releasing it.
\<close>

definition getDBCon :: "BoltState \<Rightarrow> (BoltState \<times> (error + boltdb)) option" where
  "getDBCon s =
     (if bs_dbLock s then None
      else let s1 = s\<lparr>bs_dbLock := True\<rparr>
           in Some (case bs_openErr s of
                      Some e \<Rightarrow> (s1, Inl e)
                    | None \<Rightarrow> (s1, Inr (bs_db s))))"

definition closeDBCon :: "BoltState \<Rightarrow> BoltState" where
  "closeDBCon s = s\<lparr>bs_dbLock := False\<rparr>"

datatype inval = KeepValid | CtrInvalid | PodInvalid | VolInvalid

type_synonym txerr = "inval \<times> error"

definition lift :: "error + 'a \<Rightarrow> txerr + 'a" where
  "lift m = (case m of Inl e \<Rightarrow> Inl (KeepValid, e) | Inr x \<Rightarrow> Inr x)"

lemma lift_simps [simp]: "lift (Inr x) = Inr x" "lift (Inl e) = Inl (KeepValid, e)"
  by (simp_all add: lift_def)

lemma lift_eq_Inr [err_simps]: "lift m = Inr x \<longleftrightarrow> m = Inr x"
  by (cases m) (auto simp: lift_def)

text \<open>\<^verbatim>\<open>db.View\<close> and \<^verbatim>\<open>db.Update\<close>.\<close>

definition View :: "(boltdb \<Rightarrow> txerr + 'a) \<Rightarrow> boltdb \<Rightarrow> boltdb \<times> (txerr + 'a)" where
  "View f d = (d, f d)"

definition Update :: "(boltdb \<Rightarrow> txerr + boltdb \<times> 'a) \<Rightarrow> boltdb \<Rightarrow> boltdb \<times> (txerr + 'a)" where
  "Update f d = (case f d of Inl e \<Rightarrow> (d, Inl e) | Inr (d', a) \<Rightarrow> (d', Inr a))"

text \<open>An update whose transaction returns nothing but an error.\<close>

definition UpdateU :: "(boltdb \<Rightarrow> txerr + boltdb) \<Rightarrow> boltdb \<Rightarrow> boltdb \<times> (txerr + unit)" where
  "UpdateU f = Update (\<lambda>d. bindE (f d) (\<lambda>d'. Inr (d', ())))"

text \<open>The bracket every operation is in: open, run the transactions, close.\<close>

definition withDBCon ::
  "BoltState \<Rightarrow> (boltdb \<Rightarrow> boltdb \<times> (txerr + 'a)) \<Rightarrow> (BoltState \<times> (txerr + 'a)) option" where
  "withDBCon s g =
     (case getDBCon s of
        None \<Rightarrow> None
      | Some (s1, Inl e) \<Rightarrow> Some (s1, Inl (KeepValid, e))
      | Some (s1, Inr d) \<Rightarrow>
          (case g d of (d', r) \<Rightarrow> Some (closeDBCon (s1\<lparr>bs_db := d'\<rparr>), r)))"

definition ready :: "BoltState \<Rightarrow> bool" where
  "ready s \<longleftrightarrow> bs_valid s \<and> \<not> bs_dbLock s \<and> bs_openErr s = None"

lemma withDBCon_ready:
  assumes "ready s"
  shows "withDBCon s g = Some (s\<lparr>bs_db := fst (g (bs_db s))\<rparr>, snd (g (bs_db s)))"
  using assms
  by (cases s; cases "g (bs_db s)") (simp add: ready_def withDBCon_def getDBCon_def closeDBCon_def)

lemma ready_update [simp]: "ready (s\<lparr>bs_db := d\<rparr>) = ready s"
  by (simp add: ready_def)

lemma withDBCon_unlocked:
  assumes "withDBCon s g = Some (s', r)" and "bs_openErr s = None"
  shows "\<not> bs_dbLock s \<and> \<not> bs_dbLock s' \<and> bs_valid s' = bs_valid s \<and> bs_openErr s' = None"
  using assms
  by (auto simp: withDBCon_def getDBCon_def closeDBCon_def Let_def split: if_splits prod.splits)

lemma Update_error: "snd (Update f d) = Inl e \<Longrightarrow> fst (Update f d) = d"
  by (auto simp: Update_def split: sum.splits)

lemma Update_fst: "fst (UpdateU f d) = (case f d of Inl e \<Rightarrow> d | Inr d' \<Rightarrow> d')"
  by (auto simp: UpdateU_def Update_def bindE_def split: sum.splits)

lemma Update_snd: "snd (UpdateU f d) = (case f d of Inl e \<Rightarrow> Inl e | Inr d' \<Rightarrow> Inr ())"
  by (auto simp: UpdateU_def Update_def bindE_def split: sum.splits)

lemma View_simps [simp]: "fst (View f d) = d" "snd (View f d) = f d"
  by (simp_all add: View_def)

section \<open>What the caller gets back\<close>

text \<open>
  An operation returns the state of the database, the object it was given (whose \<open>valid\<close> flag
  it may have cleared) and the result or the error.
\<close>

type_synonym ('o, 'a) op_result = "(BoltState \<times> 'o \<times> (error + 'a)) option"

definition dropinv :: "txerr + 'a \<Rightarrow> error + 'a" where
  "dropinv r = (case r of Inl (i, e) \<Rightarrow> Inl e | Inr x \<Rightarrow> Inr x)"

lemma dropinv_simps [simp]: "dropinv (Inr x) = Inr x" "dropinv (Inl (i, e)) = Inl e"
  by (simp_all add: dropinv_def)

lemma dropinv_eq_Inr [err_simps]: "dropinv r = Inr x \<longleftrightarrow> r = Inr x"
  by (cases r) (auto simp: dropinv_def)

definition invalid_ctr :: "txerr + 'a \<Rightarrow> Container \<Rightarrow> Container" where
  "invalid_ctr r c = (case r of Inl (CtrInvalid, e) \<Rightarrow> c\<lparr>ctr_valid := False\<rparr> | _ \<Rightarrow> c)"

definition invalid_pod :: "txerr + 'a \<Rightarrow> Pod \<Rightarrow> Pod" where
  "invalid_pod r p = (case r of Inl (PodInvalid, e) \<Rightarrow> p\<lparr>pod_valid := False\<rparr> | _ \<Rightarrow> p)"

definition invalid_vol :: "txerr + 'a \<Rightarrow> Volume \<Rightarrow> Volume" where
  "invalid_vol r v = (case r of Inl (VolInvalid, e) \<Rightarrow> v\<lparr>vol_valid := False\<rparr> | _ \<Rightarrow> v)"

lemma invalid_Inr [simp]:
  "invalid_ctr (Inr x) c = c" "invalid_pod (Inr x) p = p" "invalid_vol (Inr x) v = v"
  by (simp_all add: invalid_ctr_def invalid_pod_def invalid_vol_def)

definition pureOp :: "BoltState \<Rightarrow> (boltdb \<Rightarrow> boltdb \<times> (txerr + 'a)) \<Rightarrow> (BoltState \<times> (error + 'a)) option" where
  "pureOp s g = map_option (\<lambda>(s', r). (s', dropinv r)) (withDBCon s g)"

definition ctrOp ::
  "BoltState \<Rightarrow> Container \<Rightarrow> (boltdb \<Rightarrow> boltdb \<times> (txerr + 'a)) \<Rightarrow> (Container, 'a) op_result" where
  "ctrOp s c g = map_option (\<lambda>(s', r). (s', invalid_ctr r c, dropinv r)) (withDBCon s g)"

definition podOp ::
  "BoltState \<Rightarrow> Pod \<Rightarrow> (boltdb \<Rightarrow> boltdb \<times> (txerr + 'a)) \<Rightarrow> (Pod, 'a) op_result" where
  "podOp s p g = map_option (\<lambda>(s', r). (s', invalid_pod r p, dropinv r)) (withDBCon s g)"

definition volOp ::
  "BoltState \<Rightarrow> Volume \<Rightarrow> (boltdb \<Rightarrow> boltdb \<times> (txerr + 'a)) \<Rightarrow> (Volume, 'a) op_result" where
  "volOp s v g = map_option (\<lambda>(s', r). (s', invalid_vol r v, dropinv r)) (withDBCon s g)"

lemmas op_defs [db_defs] = pureOp_def ctrOp_def podOp_def volOp_def

section \<open>Search by prefix\<close>

text \<open>
  The walk over the keys of a bucket that finds the one key with a given prefix and fails at the
  second; containers, pods and volumes are looked up with it.
\<close>

definition findPrefix :: "error \<Rightarrow> string \<Rightarrow> 'v bucket \<Rightarrow> error + string option" where
  "findPrefix manyErr p b =
     ForEach (\<lambda>k _ found.
        if prefix p k
        then (case found of Some _ \<Rightarrow> Inl manyErr | None \<Rightarrow> Inr (Some k))
        else Inr found) b None"

lemma findPrefix_scan:
  "ForEach (\<lambda>k _ found.
        if prefix p k
        then (case found of Some _ \<Rightarrow> Inl e | None \<Rightarrow> Inr (Some k))
        else Inr found) b found =
     (case found of
        None \<Rightarrow> (case filter (prefix p) (bkeys b) of
                   [] \<Rightarrow> Inr None | [k] \<Rightarrow> Inr (Some k) | _ \<Rightarrow> Inl e)
      | Some j \<Rightarrow> if filter (prefix p) (bkeys b) = [] then Inr (Some j) else Inl e)"
proof (induction b arbitrary: found)
  case Nil
  then show ?case by (simp add: bkeys_def split: option.split)
next
  case (Cons kv b)
  obtain k v where kv: "kv = (k, v)" by (cases kv)
  have "bkeys (kv # b) = k # bkeys b" by (simp add: kv bkeys_def)
  then show ?case
    using Cons.IH[of found] Cons.IH[of "Some k"]
    by (cases found) (auto simp: kv split: list.splits)
qed

lemma findPrefix_eq:
  "findPrefix e p b =
     (case filter (prefix p) (bkeys b) of
        [] \<Rightarrow> Inr None | [k] \<Rightarrow> Inr (Some k) | _ \<Rightarrow> Inl e)"
  by (simp add: findPrefix_def findPrefix_scan)

section \<open>Opening the state\<close>

definition needsUpdate :: "boltdb \<Rightarrow> bool" where
  "needsUpdate d \<longleftrightarrow>
     db_ids d = None \<or> db_names d = None \<or> db_ctrs d = None \<or> db_allCtrs d = None \<or>
     db_pods d = None \<or> db_allPods d = None \<or> db_vols d = None \<or> db_allVols d = None \<or>
     db_exec d = None \<or> db_runtimeConfig d = None \<or> db_exitCode d = None \<or>
     db_exitTime d = None \<or> db_volCtrs d = None"

definition CreateBucketIfNotExists :: "'v bucket option \<Rightarrow> 'v bucket option" where
  "CreateBucketIfNotExists b = (case b of None \<Rightarrow> Some [] | Some b \<Rightarrow> Some b)"

definition createBuckets :: "boltdb \<Rightarrow> boltdb" where
  "createBuckets d =
     d\<lparr>db_ids := CreateBucketIfNotExists (db_ids d),
       db_names := CreateBucketIfNotExists (db_names d),
       db_ctrs := CreateBucketIfNotExists (db_ctrs d),
       db_allCtrs := CreateBucketIfNotExists (db_allCtrs d),
       db_pods := CreateBucketIfNotExists (db_pods d),
       db_allPods := CreateBucketIfNotExists (db_allPods d),
       db_vols := CreateBucketIfNotExists (db_vols d),
       db_allVols := CreateBucketIfNotExists (db_allVols d),
       db_exec := CreateBucketIfNotExists (db_exec d),
       db_runtimeConfig := CreateBucketIfNotExists (db_runtimeConfig d),
       db_exitCode := CreateBucketIfNotExists (db_exitCode d),
       db_exitTime := CreateBucketIfNotExists (db_exitTime d),
       db_volCtrs := CreateBucketIfNotExists (db_volCtrs d)\<rparr>"

definition NewBoltState :: "error option \<Rightarrow> boltdb \<Rightarrow> error + BoltState" where
  "NewBoltState openErr d =
     (case openErr of
        Some e \<Rightarrow> Inl e
      | None \<Rightarrow>
          Inr \<lparr>bs_valid = True, bs_dbLock = False, bs_openErr = None,
               bs_db = (if needsUpdate d then createBuckets d else d)\<rparr>)"

definition Close :: "BoltState \<Rightarrow> BoltState" where
  "Close s = s\<lparr>bs_valid := False\<rparr>"

text \<open>The database of a new file, before and after \<open>NewBoltState\<close>.\<close>

definition blank_db :: boltdb where
  "blank_db =
     \<lparr>db_ids = None, db_names = None, db_ctrs = None, db_allCtrs = None, db_pods = None,
      db_allPods = None, db_vols = None, db_allVols = None, db_exec = None,
      db_runtimeConfig = None, db_exitCode = None, db_exitTime = None, db_volCtrs = None\<rparr>"

abbreviation fresh_db :: boltdb where
  "fresh_db \<equiv> createBuckets blank_db"

lemma CreateBucketIfNotExists_ne [simp]: "CreateBucketIfNotExists b \<noteq> None"
  by (cases b) (auto simp: CreateBucketIfNotExists_def)

lemma needsUpdate_createBuckets [simp]: "\<not> needsUpdate (createBuckets d)"
  by (simp add: needsUpdate_def createBuckets_def)

lemma createBuckets_id: "\<not> needsUpdate d \<Longrightarrow> createBuckets d = d"
  by (cases d) (auto simp: needsUpdate_def createBuckets_def CreateBucketIfNotExists_def)

end
