(* ===== verification/Ports.thy ===== *)
theory Ports
  imports Types "HOL-Library.Multiset"
begin

text \<open>
  The conversion of port mappings from the format of older releases
  (\<^verbatim>\<open>src/libpod/networking_common.go\<close>, \<open>ocicniPortsToNetTypesPorts\<close>): the single ports are
  sorted and runs of consecutive ports are merged into ranges. Host and container ports are
  32-bit in the old format and 16-bit in the new one, and the range counter is 16-bit, so the
  arithmetic is on machine words.
\<close>

section \<open>Sorting\<close>

definition compareOCICNIPorts :: "OCICNIPortMapping \<Rightarrow> OCICNIPortMapping \<Rightarrow> bool" where
  "compareOCICNIPorts i j =
     (if oHostIP i \<noteq> oHostIP j then oHostIP i < oHostIP j
      else if oProtocol i \<noteq> oProtocol j then oProtocol i < oProtocol j
      else if oHostPort i \<noteq> oHostPort j then sint (oHostPort i) < sint (oHostPort j)
      else sint (oContainerPort i) < sint (oContainerPort j))"

fun insertPort :: "OCICNIPortMapping \<Rightarrow> OCICNIPortMapping list \<Rightarrow> OCICNIPortMapping list" where
  "insertPort p [] = [p]"
| "insertPort p (q # qs) =
     (if compareOCICNIPorts q p then q # insertPort p qs else p # q # qs)"

definition sortPorts :: "OCICNIPortMapping list \<Rightarrow> OCICNIPortMapping list" where
  "sortPorts ps = foldr insertPort ps []"

section \<open>Merging\<close>

definition newPort :: "OCICNIPortMapping \<Rightarrow> PortMapping" where
  "newPort p =
     \<lparr>HostIP = oHostIP p, ContainerPort = ucast (oContainerPort p),
      HostPort = ucast (oHostPort p), Range = 1, Protocol = oProtocol p\<rparr>"

fun mergePorts :: "PortMapping \<Rightarrow> OCICNIPortMapping list \<Rightarrow> PortMapping list" where
  "mergePorts cur [] = [cur]"
| "mergePorts cur (p # ps) =
     (if oHostIP p = HostIP cur \<and> oProtocol p = Protocol cur \<and>
         oHostPort p - ucast (Range cur) = ucast (HostPort cur) \<and>
         oContainerPort p - ucast (Range cur) = ucast (ContainerPort cur)
      then mergePorts (cur\<lparr>Range := Range cur + 1\<rparr>) ps
      else cur # mergePorts (newPort p) ps)"

definition ocicniPortsToNetTypesPorts :: "OCICNIPortMapping list \<Rightarrow> PortMapping list" where
  "ocicniPortsToNetTypesPorts ports =
     (case sortPorts ports of
        [] \<Rightarrow> []
      | p # ps \<Rightarrow> mergePorts (newPort p) ps)"

section \<open>Correctness\<close>

text \<open>
  A mapping of either format denotes single forwarded ports: address, protocol, host port,
  container port.
\<close>

definition expandPort :: "PortMapping \<Rightarrow> (string \<times> string \<times> nat \<times> nat) list" where
  "expandPort m =
     map (\<lambda>i. (HostIP m, Protocol m, unat (HostPort m) + i, unat (ContainerPort m) + i))
       [0..<unat (Range m)]"

definition oldPort :: "OCICNIPortMapping \<Rightarrow> string \<times> string \<times> nat \<times> nat" where
  "oldPort p = (oHostIP p, oProtocol p, unat (oHostPort p), unat (oContainerPort p))"

definition validPort :: "OCICNIPortMapping \<Rightarrow> bool" where
  "validPort p \<longleftrightarrow>
     1 \<le> unat (oHostPort p) \<and> unat (oHostPort p) \<le> 65535 \<and> unat (oContainerPort p) \<le> 65535"

lemma mset_insertPort [simp]: "mset (insertPort p qs) = add_mset p (mset qs)"
  by (induction qs) auto

lemma mset_sortPorts [simp]: "mset (sortPorts ps) = mset ps"
  by (induction ps) (auto simp: sortPorts_def)

lemma set_sortPorts [simp]: "set (sortPorts ps) = set ps"
  by (metis mset_sortPorts set_mset_mset)

text \<open>The comparison is a strict linear order, so every sorting algorithm returns the same list.\<close>

lemma compareOCICNIPorts_total:
  "compareOCICNIPorts i j \<or> compareOCICNIPorts j i \<or> i = j"
  by (cases i; cases j)
    (auto simp: compareOCICNIPorts_def not_less order_le_less dest: signed_word_eqI)

lemma compareOCICNIPorts_trans:
  "compareOCICNIPorts i j \<Longrightarrow> compareOCICNIPorts j k \<Longrightarrow> compareOCICNIPorts i k"
  unfolding compareOCICNIPorts_def by (auto split: if_splits)

lemma compareOCICNIPorts_irrefl: "\<not> compareOCICNIPorts i i"
  by (simp add: compareOCICNIPorts_def)

lemma sorted_insertPort:
  assumes "sorted_wrt (\<lambda>x y. \<not> compareOCICNIPorts y x) qs"
  shows "sorted_wrt (\<lambda>x y. \<not> compareOCICNIPorts y x) (insertPort p qs)"
  using assms
proof (induction qs)
  case (Cons q qs)
  have set_ins: "set (insertPort p qs) = insert p (set qs)"
    by (metis mset_insertPort set_mset_add_mset_insert set_mset_mset)
  show ?case
  proof (cases "compareOCICNIPorts q p")
    case True
    then have "\<not> compareOCICNIPorts p q"
      using compareOCICNIPorts_trans compareOCICNIPorts_irrefl by blast
    with True Cons set_ins show ?thesis by auto
  next
    case False
    have "\<not> compareOCICNIPorts r p" if "r \<in> set qs" for r
      using Cons.prems that False compareOCICNIPorts_trans compareOCICNIPorts_total
      by (metis sorted_wrt.simps(2))
    with False Cons.prems show ?thesis by auto
  qed
qed simp

lemma sorted_sortPorts: "sorted_wrt (\<lambda>x y. \<not> compareOCICNIPorts y x) (sortPorts ps)"
  by (induction ps) (auto simp: sortPorts_def sorted_insertPort)

lemma unat_ucast_16 [simp]: "unat (ucast (x :: 16 word) :: 32 word) = unat x"
proof -
  have "unat x < 2 ^ 16" using unsigned_less[of x, where 'a = nat] by simp
  then show ?thesis by (simp add: unsigned_ucast_eq take_bit_nat_eq_self)
qed

lemma unat_ucast_32_small: "unat (x :: 32 word) \<le> 65535 \<Longrightarrow> unat (ucast x :: 16 word) = unat x"
  by (simp add: unsigned_ucast_eq take_bit_nat_eq_self)

lemma diff_eq_unat:
  fixes p :: "32 word" and r b :: "16 word"
  assumes "p - ucast r = ucast b"
  shows "unat p = unat b + unat r"
proof -
  from assms have "p = ucast b + ucast r" by (simp add: diff_eq_eq)
  moreover have "unat (ucast b :: 32 word) + unat (ucast r :: 32 word) < 2 ^ 32"
    using unsigned_less[of b, where 'a = nat] unsigned_less[of r, where 'a = nat] by simp
  ultimately have "unat p = unat (ucast b :: 32 word) + unat (ucast r :: 32 word)"
    by (simp add: unat_add_lem[THEN iffD1])
  then show ?thesis by simp
qed

lemma expandPort_newPort:
  "validPort p \<Longrightarrow> expandPort (newPort p) = [oldPort p]"
  by (simp add: expandPort_def newPort_def oldPort_def validPort_def unat_ucast_32_small)

lemma expandPort_extend:
  assumes "unat (Range m) < 65535"
  shows "expandPort (m\<lparr>Range := Range m + 1\<rparr>) =
    expandPort m @ [(HostIP m, Protocol m, unat (HostPort m) + unat (Range m),
                     unat (ContainerPort m) + unat (Range m))]"
proof -
  have "unat (Range m + 1) = Suc (unat (Range m))"
    using assms by (simp add: unat_word_ariths)
  then show ?thesis by (simp add: expandPort_def)
qed

lemma mergePorts_expand:
  assumes "\<forall>p \<in> set ps. validPort p" and "1 \<le> unat (HostPort cur)"
    and "unat (HostPort cur) + unat (Range cur) \<le> 65536"
  shows "concat (map expandPort (mergePorts cur ps)) = expandPort cur @ map oldPort ps"
  using assms
proof (induction cur ps rule: mergePorts.induct)
  case (1 cur)
  then show ?case by simp
next
  case (2 cur p ps)
  let ?c = "oHostIP p = HostIP cur \<and> oProtocol p = Protocol cur \<and>
         oHostPort p - ucast (Range cur) = ucast (HostPort cur) \<and>
         oContainerPort p - ucast (Range cur) = ucast (ContainerPort cur)"
  from "2.prems" have p: "validPort p" and ps: "\<forall>q \<in> set ps. validPort q" by auto
  show ?case
  proof (cases ?c)
    case True
    then have hp: "unat (oHostPort p) = unat (HostPort cur) + unat (Range cur)"
      and cp: "unat (oContainerPort p) = unat (ContainerPort cur) + unat (Range cur)"
      using diff_eq_unat by blast+
    from hp p "2.prems"(2) have r: "unat (Range cur) < 65535"
      by (simp add: validPort_def)
    then have r1: "unat (Range cur + 1) = Suc (unat (Range cur))"
      by (simp add: unat_word_ariths)
    from hp p have "unat (HostPort cur) + unat (Range cur + 1) \<le> 65536"
      by (simp add: r1 validPort_def)
    with "2.IH"(1)[OF True ps] "2.prems"(2) True r show ?thesis
      by (simp add: expandPort_extend oldPort_def hp cp)
  next
    case False
    from p have "1 \<le> unat (HostPort (newPort p))"
      "unat (HostPort (newPort p)) + unat (Range (newPort p)) \<le> 65536"
      by (auto simp: newPort_def validPort_def unat_ucast_32_small)
    with "2.IH"(2)[OF False ps] p
    have "concat (map expandPort (mergePorts (newPort p) ps)) = oldPort p # map oldPort ps"
      by (simp add: expandPort_newPort)
    moreover have "mergePorts cur (p # ps) = cur # mergePorts (newPort p) ps"
      using False by (simp only: mergePorts.simps if_False)
    ultimately show ?thesis by simp
  qed
qed

lemma ocicni_expand:
  assumes "\<forall>p \<in> set ports. validPort p"
  shows "concat (map expandPort (ocicniPortsToNetTypesPorts ports)) = map oldPort (sortPorts ports)"
proof (cases "sortPorts ports")
  case Nil
  then show ?thesis by (simp add: ocicniPortsToNetTypesPorts_def)
next
  case (Cons p ps)
  with assms have p: "validPort p" and ps: "\<forall>q \<in> set ps. validPort q"
    by (metis list.set_intros set_sortPorts)+
  from p have "1 \<le> unat (HostPort (newPort p))"
    "unat (HostPort (newPort p)) + unat (Range (newPort p)) \<le> 65536"
    by (auto simp: newPort_def validPort_def unat_ucast_32_small)
  from mergePorts_expand[OF ps this] Cons p show ?thesis
    by (simp add: ocicniPortsToNetTypesPorts_def expandPort_newPort)
qed

end
