(* ===== verification/BoltContainers.thy ===== *)
theory BoltContainers
  imports BoltSchema Ports
begin

text \<open>
  The container operations of the state database: retrieval and lookup, adding a container (to
  a pod or not) with its dependency, pod membership and volume edges, removing it, saving and
  refreshing its state, rewriting its configuration. From \<^verbatim>\<open>src/libpod/boltdb_state.go\<close> and
  \<^verbatim>\<open>src/libpod/boltdb_state_internal.go\<close>; each definition keeps the order of the checks in the
  code. The transaction of an operation is a function on \<open>boltdb\<close> that returns the new database
  or an error.
\<close>

section \<open>Reading a container\<close>

text \<open>The field \<open>rewrite\<close> is not part of the encoding (\<^verbatim>\<open>json:"-"\<close>).\<close>

definition MarshalConfig :: "ContainerConfig \<Rightarrow> ContainerConfig json" where
  "MarshalConfig cfg = Marshal (cfg\<lparr>cfg_rewrite := False\<rparr>)"

definition getContainerConfigFromDB :: "string \<Rightarrow> ctr_bkt bucket \<Rightarrow> error + ContainerConfig" where
  "getContainerConfigFromDB cid ctrsBkt =
     bindE (requireE (bget ctrsBkt cid) ErrNoSuchCtr) (\<lambda>ctrBkt.
     bindE (requireE (cb_config ctrBkt) ErrInternal) (\<lambda>configBytes.
     bindE (Unmarshal configBytes) (\<lambda>config.
       Inr (if cfg_OldPortMappings config \<noteq> [] \<and> cfg_PortMappings config = []
            then config\<lparr>cfg_PortMappings := ocicniPortsToNetTypesPorts (cfg_OldPortMappings config),
                        cfg_OldPortMappings := sortPorts (cfg_OldPortMappings config),
                        cfg_rewrite := True\<rparr>
            else config))))"

definition getContainerStateDB ::
  "string \<Rightarrow> Container \<Rightarrow> ctr_bkt bucket \<Rightarrow> txerr + Container" where
  "getContainerStateDB cid ctr ctrsBkt =
     (case bget ctrsBkt cid of
        None \<Rightarrow> Inl (CtrInvalid, ErrNoSuchCtr)
      | Some b \<Rightarrow>
          bindE (lift (requireE (cb_state b) ErrInternal)) (\<lambda>newStateBytes.
          bindE (lift (Unmarshal newStateBytes)) (\<lambda>newState.
            let newState' =
              (case cb_netNS b of
                 Some ns \<Rightarrow> if cs_NetNS newState = [] then newState\<lparr>cs_NetNS := ns\<rparr> else newState
               | None \<Rightarrow> newState)
            in Inr (ctr\<lparr>ctr_state := newState'\<rparr>))))"

definition resolveOCIRuntime :: "Runtime \<Rightarrow> string \<Rightarrow> OCIRuntime" where
  "resolveOCIRuntime rt name =
     (if name = [] then DefaultRuntime
      else if name \<in> set (rt_ociRuntimes rt) then RegisteredRuntime name
      else if prefix ''/'' name \<and> rt_newConmonOCIRuntime rt name then ConmonRuntime name
      else MissingRuntime name)"

definition new_Container :: Container where
  "new_Container =
     \<lparr>ctr_config = zero_ContainerConfig, ctr_state = zero_ContainerState, ctr_valid = False,
      ctr_lock = None, ctr_ociRuntime = None\<rparr>"

definition getContainerFromDB ::
  "Runtime \<Rightarrow> string \<Rightarrow> ctr_bkt bucket \<Rightarrow> bool \<Rightarrow> txerr + Container" where
  "getContainerFromDB rt cid ctrsBkt loadState =
     bindE (lift (getContainerConfigFromDB cid ctrsBkt)) (\<lambda>config.
     let ctr = new_Container\<lparr>ctr_config := config\<rparr> in
     bindE (if loadState then getContainerStateDB cid ctr ctrsBkt else Inr ctr) (\<lambda>ctr.
     bindE (lift (rt_RetrieveLock rt (cfg_LockID config))) (\<lambda>lock.
       Inr (ctr\<lparr>ctr_lock := Some lock,
                ctr_ociRuntime := Some (resolveOCIRuntime rt (cfg_OCIRuntime config)),
                ctr_valid := True\<rparr>))))"

section \<open>Looking a container up\<close>

definition lookupContainerID ::
  "string \<Rightarrow> ctr_bkt bucket \<Rightarrow> string bucket \<Rightarrow> error + string" where
  "lookupContainerID idOrName ctrBucket namesBucket =
     (if bget ctrBucket idOrName \<noteq> None then Inr idOrName
      else
        (case Option.bind (bget namesBucket idOrName)
                (\<lambda>fullID. if bget ctrBucket fullID \<noteq> None then Some fullID else None) of
           Some fullID \<Rightarrow> Inr fullID
         | None \<Rightarrow>
             bindE (findPrefix ErrCtrExists idOrName ctrBucket)
               (\<lambda>found. requireE found ErrNoSuchCtr)))"

definition GetContainerName :: "BoltState \<Rightarrow> string \<Rightarrow> (BoltState \<times> (error + string)) option" where
  "GetContainerName s cid =
     (if cid = [] then Some (s, Inl ErrEmptyID)
      else if \<not> bs_valid s then Some (s, Inl ErrDBClosed)
      else pureOp s (View (\<lambda>tx. lift (
        bindE (getIDBucket tx) (\<lambda>idBkt.
        bindE (getCtrBucket tx) (\<lambda>ctrsBkt.
        bindE (requireE (bget idBkt cid) ErrNoSuchCtr) (\<lambda>name.
        bindE (requireE (bget ctrsBkt cid) ErrNoSuchCtr) (\<lambda>_.
          Inr name))))))))"

definition ContainerByID :: "Runtime \<Rightarrow> BoltState \<Rightarrow> string \<Rightarrow> (BoltState \<times> (error + Container)) option" where
  "ContainerByID rt s cid =
     (if cid = [] then Some (s, Inl ErrEmptyID)
      else if \<not> bs_valid s then Some (s, Inl ErrDBClosed)
      else pureOp s (View (\<lambda>tx.
        bindE (lift (getCtrBucket tx)) (\<lambda>ctrBucket.
          getContainerFromDB rt cid ctrBucket False))))"

definition LookupContainerID :: "BoltState \<Rightarrow> string \<Rightarrow> (BoltState \<times> (error + string)) option" where
  "LookupContainerID s idOrName =
     (if idOrName = [] then Some (s, Inl ErrEmptyID)
      else if \<not> bs_valid s then Some (s, Inl ErrDBClosed)
      else pureOp s (View (\<lambda>tx. lift (
        bindE (getCtrBucket tx) (\<lambda>ctrBucket.
        bindE (getNamesBucket tx) (\<lambda>namesBucket.
          lookupContainerID idOrName ctrBucket namesBucket))))))"

definition LookupContainer ::
  "Runtime \<Rightarrow> BoltState \<Rightarrow> string \<Rightarrow> (BoltState \<times> (error + Container)) option" where
  "LookupContainer rt s idOrName =
     (if idOrName = [] then Some (s, Inl ErrEmptyID)
      else if \<not> bs_valid s then Some (s, Inl ErrDBClosed)
      else pureOp s (View (\<lambda>tx.
        bindE (lift (getCtrBucket tx)) (\<lambda>ctrBucket.
        bindE (lift (getNamesBucket tx)) (\<lambda>namesBucket.
        bindE (lift (lookupContainerID idOrName ctrBucket namesBucket)) (\<lambda>cid.
          getContainerFromDB rt cid ctrBucket False))))))"

definition HasContainer :: "BoltState \<Rightarrow> string \<Rightarrow> (BoltState \<times> (error + bool)) option" where
  "HasContainer s cid =
     (if cid = [] then Some (s, Inl ErrEmptyID)
      else if \<not> bs_valid s then Some (s, Inl ErrDBClosed)
      else pureOp s (View (\<lambda>tx. lift (
        bindE (getCtrBucket tx) (\<lambda>ctrBucket. Inr (bget ctrBucket cid \<noteq> None))))))"

section \<open>Adding a container\<close>

fun marshalNetworks ::
  "string \<Rightarrow> (string \<times> PerNetworkOptions) list \<Rightarrow> error + (string \<times> netval) list" where
  "marshalNetworks cid [] = Inr []"
| "marshalNetworks cid ((net, opts) # rest) =
     (if net = [] then Inl ErrInvalidArg
      else if InterfaceName opts = [] then Inl ErrInvalidArg
      else if length cid < 12 then Inl Panic
      else bindE (marshalNetworks cid rest) (\<lambda>networks.
        Inr ((net, NetOpts (Marshal (opts\<lparr>Aliases := Aliases opts @ [take 12 cid]\<rparr>))) # networks)))"

definition addDependency ::
  "string \<Rightarrow> string \<Rightarrow> string option \<Rightarrow> string \<Rightarrow> ctr_bkt bucket \<Rightarrow> error + ctr_bkt bucket" where
  "addDependency ctrID ctrName podID dependsCtr ctrBucket =
     bindE (requireE (bget ctrBucket dependsCtr) ErrNoSuchCtr) (\<lambda>depCtrBkt.
     bindE (case podID of
              Some p \<Rightarrow> bindE (requireE (cb_podID depCtrBkt) ErrInvalidArg)
                          (\<lambda>depCtrPod. guardE (depCtrPod = p) ErrInvalidArg)
            | None \<Rightarrow> guardE (cb_podID depCtrBkt = None) ErrInvalidArg) (\<lambda>_.
     bindE (requireE (cb_deps depCtrBkt) ErrInternal) (\<lambda>depCtrDependsBkt.
     bindE (liftB (Put depCtrDependsBkt ctrID ctrName)) (\<lambda>depCtrDependsBkt'.
       Inr (bins dependsCtr (depCtrBkt\<lparr>cb_deps := Some depCtrDependsBkt'\<rparr>) ctrBucket)))))"

definition addVolumeDependency ::
  "string \<Rightarrow> ContainerNamedVolume \<Rightarrow> vol_bkt bucket \<Rightarrow> error + vol_bkt bucket" where
  "addVolumeDependency ctrID vol volBkt =
     bindE (requireE (bget volBkt (nv_Name vol)) ErrNoSuchVolume) (\<lambda>volDB.
     let ctrDepsBkt = (case vb_deps volDB of None \<Rightarrow> [] | Some b \<Rightarrow> b) in
     bindE (if bget ctrDepsBkt ctrID = None then liftB (Put ctrDepsBkt ctrID ctrID)
            else Inr ctrDepsBkt) (\<lambda>ctrDepsBkt'.
       Inr (bins (nv_Name vol) (volDB\<lparr>vb_deps := Some ctrDepsBkt'\<rparr>) volBkt)))"

text \<open>The bucket of a new container: configuration, state, pod, networks, no dependents.\<close>

definition newCtrBucket ::
  "Container \<Rightarrow> string option \<Rightarrow> (string \<times> netval) list \<Rightarrow> error + ctr_bkt" where
  "newCtrBucket ctr podID networks =
     bindE (if networks = [] then Inr None
            else bindE (foldE (\<lambda>(net, opts) b. liftB (Put b net opts)) networks [])
                   (\<lambda>b. Inr (Some b))) (\<lambda>nets.
       Inr (empty_ctr_bkt\<lparr>cb_config := Some (MarshalConfig (ctr_config ctr)),
                          cb_state := Some (Marshal (ctr_state ctr)),
                          cb_podID := podID,
                          cb_networks := nets,
                          cb_deps := Some []\<rparr>))"

definition checkFree ::
  "string \<Rightarrow> string \<Rightarrow> string bucket \<Rightarrow> string bucket \<Rightarrow> string bucket \<Rightarrow> error \<Rightarrow> error
     \<Rightarrow> error + unit" where
  "checkFree cid name idsBucket namesBucket allBucket sameKind otherKind =
     (case bget idsBucket cid of
        Some idExist \<Rightarrow> Inl (if bget allBucket idExist = None then otherKind else sameKind)
      | None \<Rightarrow>
          (case bget namesBucket name of
             Some nameExist \<Rightarrow> Inl (if bget allBucket nameExist = None then otherKind else sameKind)
           | None \<Rightarrow> Inr ()))"

definition getPodCtrs ::
  "Pod option \<Rightarrow> boltdb \<Rightarrow> txerr + (pod_bkt bucket \<times> pod_bkt \<times> string bucket) option" where
  "getPodCtrs pod tx =
     (case pod of
        None \<Rightarrow> Inr None
      | Some p \<Rightarrow>
          bindE (lift (getPodBucket tx)) (\<lambda>podBucket.
          case bget podBucket (pod_ID p) of
            None \<Rightarrow> Inl (PodInvalid, ErrNoSuchPod)
          | Some podDB \<Rightarrow>
              bindE (lift (requireE (pb_containers podDB) ErrInternal)) (\<lambda>podCtrs.
                Inr (Some (podBucket, podDB, podCtrs)))))"

definition addContainer_tx ::
  "Container \<Rightarrow> Pod option \<Rightarrow> (string \<times> netval) list \<Rightarrow> boltdb \<Rightarrow> txerr + boltdb" where
  "addContainer_tx ctr pod networks tx =
     (let ctrID = ctr_ID ctr; ctrName = ctr_Name ctr; podID = map_option pod_ID pod in
      bindE (lift (getIDBucket tx)) (\<lambda>idsBucket.
      bindE (lift (getNamesBucket tx)) (\<lambda>namesBucket.
      bindE (lift (getCtrBucket tx)) (\<lambda>ctrBucket.
      bindE (lift (getAllCtrsBucket tx)) (\<lambda>allCtrsBucket.
      bindE (lift (getVolBucket tx)) (\<lambda>volBkt.
      bindE (getPodCtrs pod tx) (\<lambda>podCtrs.
      bindE (lift (checkFree ctrID ctrName idsBucket namesBucket allCtrsBucket
                     ErrCtrExists ErrPodExists)) (\<lambda>_.
      bindE (lift (liftB (Put idsBucket ctrID ctrName))) (\<lambda>idsBucket'.
      bindE (lift (liftB (Put namesBucket ctrName ctrID))) (\<lambda>namesBucket'.
      bindE (lift (liftB (Put allCtrsBucket ctrID ctrName))) (\<lambda>allCtrsBucket'.
      bindE (lift (liftB (CreateBucket ctrBucket ctrID empty_ctr_bkt))) (\<lambda>ctrBucket0.
      bindE (lift (newCtrBucket ctr podID networks)) (\<lambda>newCtrBkt.
      let ctrBucket1 = bins ctrID newCtrBkt ctrBucket0 in
      bindE (lift (foldE (addDependency ctrID ctrName podID) (Dependencies ctr) ctrBucket1))
        (\<lambda>ctrBucket'.
      bindE (case podCtrs of
               None \<Rightarrow> Inr (db_pods tx)
             | Some (podBucket, podDB, cs) \<Rightarrow>
                 bindE (lift (liftB (Put cs ctrID ctrName))) (\<lambda>cs'.
                   Inr (Some (bins (the podID) (podDB\<lparr>pb_containers := Some cs'\<rparr>) podBucket))))
        (\<lambda>pods'.
      bindE (lift (foldE (addVolumeDependency ctrID) (cfg_NamedVolumes (ctr_config ctr)) volBkt))
        (\<lambda>volBkt'.
        Inr (tx\<lparr>db_ids := Some idsBucket', db_names := Some namesBucket',
                db_ctrs := Some ctrBucket', db_allCtrs := Some allCtrsBucket',
                db_pods := pods', db_vols := Some volBkt'\<rparr>)))))))))))))))))"

definition addContainer ::
  "BoltState \<Rightarrow> Container \<Rightarrow> Pod option \<Rightarrow>
     (BoltState \<times> Container \<times> Pod option \<times> (error + unit)) option" where
  "addContainer s ctr pod =
     (let configNetworks = cfg_Networks (ctr_config ctr);
          ctr' = ctr\<lparr>ctr_config := (ctr_config ctr)\<lparr>cfg_Networks := []\<rparr>\<rparr>
      in case marshalNetworks (ctr_ID ctr') configNetworks of
           Inl e \<Rightarrow> Some (s, ctr', pod, Inl e)
         | Inr networks \<Rightarrow>
             map_option (\<lambda>(s', r). (s', invalid_ctr r ctr', map_option (invalid_pod r) pod, dropinv r))
               (withDBCon s (UpdateU (addContainer_tx ctr' pod networks))))"

definition AddContainer :: "BoltState \<Rightarrow> Container \<Rightarrow> (Container, unit) op_result" where
  "AddContainer s ctr =
     (if \<not> bs_valid s then Some (s, ctr, Inl ErrDBClosed)
      else if \<not> ctr_valid ctr then Some (s, ctr, Inl ErrCtrRemoved)
      else if cfg_Pod (ctr_config ctr) \<noteq> [] then Some (s, ctr, Inl ErrInvalidArg)
      else map_option (\<lambda>(s', ctr', _, r). (s', ctr', r)) (addContainer s ctr None))"

section \<open>Removing a container\<close>

definition removeDependency :: "string \<Rightarrow> string \<Rightarrow> ctr_bkt bucket \<Rightarrow> ctr_bkt bucket" where
  "removeDependency ctrID depCtr ctrBucket =
     (case bget ctrBucket depCtr of
        None \<Rightarrow> ctrBucket
      | Some depCtrBkt \<Rightarrow>
          (case cb_deps depCtrBkt of
             None \<Rightarrow> ctrBucket
           | Some deps \<Rightarrow> bins depCtr (depCtrBkt\<lparr>cb_deps := Some (bdel ctrID deps)\<rparr>) ctrBucket))"

text \<open>
  The code deletes the container from the dependencies of a volume when it is \<^emph>\<open>not\<close> among
  them (\<^verbatim>\<open>depExists == nil\<close>).
\<close>

definition removeVolumeDependency ::
  "string \<Rightarrow> ContainerNamedVolume \<Rightarrow> vol_bkt bucket \<Rightarrow> error + vol_bkt bucket" where
  "removeVolumeDependency ctrID vol volBkt =
     (case bget volBkt (nv_Name vol) of
        None \<Rightarrow> Inr volBkt
      | Some volDB \<Rightarrow>
          bindE (requireE (vb_deps volDB) ErrInternal) (\<lambda>ctrDepsBkt.
            if bget ctrDepsBkt ctrID = None
            then Inr (bins (nv_Name vol) (volDB\<lparr>vb_deps := Some (bdel ctrID ctrDepsBkt)\<rparr>) volBkt)
            else Inr volBkt))"

definition getPodDB :: "Pod option \<Rightarrow> boltdb \<Rightarrow> txerr + (pod_bkt bucket \<times> pod_bkt) option" where
  "getPodDB pod tx =
     (case pod of
        None \<Rightarrow> Inr None
      | Some p \<Rightarrow>
          bindE (lift (getPodBucket tx)) (\<lambda>podBucket.
          case bget podBucket (pod_ID p) of
            None \<Rightarrow> Inl (PodInvalid, ErrNoSuchPod)
          | Some podDB \<Rightarrow> Inr (Some (podBucket, podDB))))"

definition removeContainer ::
  "Container \<Rightarrow> Pod option \<Rightarrow> boltdb \<Rightarrow> txerr + boltdb" where
  "removeContainer ctr pod tx =
     (let ctrID = ctr_ID ctr; ctrName = ctr_Name ctr in
      bindE (lift (getIDBucket tx)) (\<lambda>idsBucket.
      bindE (lift (getNamesBucket tx)) (\<lambda>namesBucket.
      bindE (lift (getCtrBucket tx)) (\<lambda>ctrBucket.
      bindE (lift (getAllCtrsBucket tx)) (\<lambda>allCtrsBucket.
      bindE (lift (getVolBucket tx)) (\<lambda>volBkt.
      bindE (getPodDB pod tx) (\<lambda>podDB.
      case bget ctrBucket ctrID of
        None \<Rightarrow> Inl (CtrInvalid, ErrNoSuchCtr)
      | Some ctrExists \<Rightarrow>
          bindE (case podDB of
                   None \<Rightarrow> Inr (db_pods tx)
                 | Some (podBucket, pdb) \<Rightarrow>
                     (case pb_containers pdb of
                        None \<Rightarrow> Inr (db_pods tx)
                      | Some podCtrs \<Rightarrow>
                          bindE (lift (requireE (bget podCtrs ctrID) ErrNoSuchCtr)) (\<lambda>_.
                            Inr (Some (bins (pod_ID (the pod))
                              (pdb\<lparr>pb_containers := Some (bdel ctrID podCtrs)\<rparr>) podBucket)))))
            (\<lambda>pods'.
          bindE (case cb_exec ctrExists of
                   None \<Rightarrow> Inr ()
                 | Some sessions \<Rightarrow> lift (guardE (bkeys sessions = []) ErrExecSessionExists)) (\<lambda>_.
          bindE (lift (requireE (cb_deps ctrExists) ErrInternal)) (\<lambda>ctrDepsBkt.
          bindE (lift (guardE (bkeys ctrDepsBkt = []) ErrDepExists)) (\<lambda>_.
          bindE (case DeleteBucket ctrBucket ctrID of
                   Inl _ \<Rightarrow> Inl (KeepValid, ErrInternal) | Inr b \<Rightarrow> Inr b) (\<lambda>ctrBucket1.
          let ctrBucket' = fold (removeDependency ctrID) (Dependencies ctr) ctrBucket1 in
          bindE (lift (foldE (removeVolumeDependency ctrID)
                         (cfg_NamedVolumes (ctr_config ctr)) volBkt)) (\<lambda>volBkt'.
            Inr (tx\<lparr>db_ids := Some (bdel ctrID idsBucket),
                    db_names := Some (bdel ctrName namesBucket),
                    db_ctrs := Some ctrBucket',
                    db_allCtrs := Some (bdel ctrID allCtrsBucket),
                    db_pods := pods',
                    db_vols := Some volBkt'\<rparr>))))))))))))))"

definition RemoveContainer :: "BoltState \<Rightarrow> Container \<Rightarrow> (Container, unit) op_result" where
  "RemoveContainer s ctr =
     (if \<not> bs_valid s then Some (s, ctr, Inl ErrDBClosed)
      else if cfg_Pod (ctr_config ctr) \<noteq> [] then Some (s, ctr, Inl ErrPodExists)
      else ctrOp s ctr (UpdateU (removeContainer ctr None)))"

section \<open>State and configuration\<close>

definition UpdateContainer :: "BoltState \<Rightarrow> Container \<Rightarrow> (Container, unit) op_result" where
  "UpdateContainer s ctr =
     (if \<not> bs_valid s then Some (s, ctr, Inl ErrDBClosed)
      else if \<not> ctr_valid ctr then Some (s, ctr, Inl ErrCtrRemoved)
      else map_option (\<lambda>(s', r). (s', case r of Inr c \<Rightarrow> c | Inl e \<Rightarrow> invalid_ctr r ctr,
                                  bindE (dropinv r) (\<lambda>_. Inr ())))
             (withDBCon s (View (\<lambda>tx.
               bindE (lift (getCtrBucket tx)) (\<lambda>ctrBucket.
                 getContainerStateDB (ctr_ID ctr) ctr ctrBucket)))))"

definition SaveContainer_tx :: "Container \<Rightarrow> boltdb \<Rightarrow> txerr + boltdb" where
  "SaveContainer_tx ctr tx =
     bindE (lift (getCtrBucket tx)) (\<lambda>ctrBucket.
     case bget ctrBucket (ctr_ID ctr) of
       None \<Rightarrow> Inl (CtrInvalid, ErrNoSuchCtr)
     | Some ctrToSave \<Rightarrow>
         let saved = ctrToSave\<lparr>cb_state := Some (Marshal (ctr_state ctr))\<rparr>;
             saved' = (if cs_NetNS (ctr_state ctr) = [] then saved\<lparr>cb_netNS := None\<rparr> else saved)
         in Inr (tx\<lparr>db_ctrs := Some (bins (ctr_ID ctr) saved' ctrBucket)\<rparr>))"

definition SaveContainer :: "BoltState \<Rightarrow> Container \<Rightarrow> (Container, unit) op_result" where
  "SaveContainer s ctr =
     (if \<not> bs_valid s then Some (s, ctr, Inl ErrDBClosed)
      else if \<not> ctr_valid ctr then Some (s, ctr, Inl ErrCtrRemoved)
      else ctrOp s ctr (UpdateU (SaveContainer_tx ctr)))"

definition ContainerInUse :: "BoltState \<Rightarrow> Container \<Rightarrow> (Container, string list) op_result" where
  "ContainerInUse s ctr =
     (if \<not> bs_valid s then Some (s, ctr, Inl ErrDBClosed)
      else if \<not> ctr_valid ctr then Some (s, ctr, Inl ErrCtrRemoved)
      else ctrOp s ctr (View (\<lambda>tx.
        bindE (lift (getCtrBucket tx)) (\<lambda>ctrBucket.
        case bget ctrBucket (ctr_ID ctr) of
          None \<Rightarrow> Inl (CtrInvalid, ErrNoSuchCtr)
        | Some ctrDB \<Rightarrow>
            bindE (lift (requireE (cb_deps ctrDB) ErrInternal)) (\<lambda>dependsBkt.
              ForEach (\<lambda>cid _ depCtrs. Inr (depCtrs @ [cid])) dependsBkt [])))))"

definition AllContainers ::
  "Runtime \<Rightarrow> BoltState \<Rightarrow> bool \<Rightarrow> (BoltState \<times> (error + Container list)) option" where
  "AllContainers rt s loadState =
     (if \<not> bs_valid s then Some (s, Inl ErrDBClosed)
      else pureOp s (View (\<lambda>tx.
        bindE (lift (getAllCtrsBucket tx)) (\<lambda>allCtrsBucket.
        bindE (lift (getCtrBucket tx)) (\<lambda>ctrBucket.
          ForEach (\<lambda>cid _ ctrs.
            if bget ctrBucket cid = None then Inl (KeepValid, ErrInternal)
            else (case getContainerFromDB rt cid ctrBucket loadState of
                    Inl _ \<Rightarrow> Inr ctrs
                  | Inr ctr \<Rightarrow> Inr (ctrs @ [ctr]))) allCtrsBucket [])))))"

definition GetContainerConfig ::
  "BoltState \<Rightarrow> string \<Rightarrow> (BoltState \<times> (error + ContainerConfig)) option" where
  "GetContainerConfig s cid =
     (if cid = [] then Some (s, Inl ErrEmptyID)
      else if \<not> bs_valid s then Some (s, Inl ErrDBClosed)
      else pureOp s (View (\<lambda>tx. lift (
        bindE (getCtrBucket tx) (\<lambda>ctrBucket. getContainerConfigFromDB cid ctrBucket)))))"

definition rewriteConfig_tx :: "Container \<Rightarrow> ContainerConfig \<Rightarrow> boltdb \<Rightarrow> txerr + boltdb" where
  "rewriteConfig_tx ctr newCfg tx =
     bindE (lift (getCtrBucket tx)) (\<lambda>ctrBkt.
     case bget ctrBkt (ctr_ID ctr) of
       None \<Rightarrow> Inl (CtrInvalid, ErrNoSuchCtr)
     | Some ctrDB \<Rightarrow>
         Inr (tx\<lparr>db_ctrs :=
           Some (bins (ctr_ID ctr) (ctrDB\<lparr>cb_config := Some (MarshalConfig newCfg)\<rparr>) ctrBkt)\<rparr>))"

definition RewriteContainerConfig ::
  "BoltState \<Rightarrow> Container \<Rightarrow> ContainerConfig \<Rightarrow> (Container, unit) op_result" where
  "RewriteContainerConfig s ctr newCfg =
     (if \<not> bs_valid s then Some (s, ctr, Inl ErrDBClosed)
      else if \<not> ctr_valid ctr then Some (s, ctr, Inl ErrCtrRemoved)
      else ctrOp s ctr (UpdateU (rewriteConfig_tx ctr newCfg)))"

text \<open>
  The registries of a rename: the old name is deleted, the identifier, the new name, the list of
  containers and, for a container in a pod, the member list of the pod are written.
\<close>

definition rename_tx :: "Container \<Rightarrow> string \<Rightarrow> string \<Rightarrow> boltdb \<Rightarrow> error + boltdb" where
  "rename_tx ctr oldName newName tx =
     (let ctrID = ctr_ID ctr; pod = cfg_Pod (ctr_config ctr) in
      bindE (getIDBucket tx) (\<lambda>idBkt.
      bindE (getNamesBucket tx) (\<lambda>namesBkt.
      bindE (getAllCtrsBucket tx) (\<lambda>allCtrsBkt.
      case bget namesBkt newName of
        Some exists \<Rightarrow> if exists = ctrID then Inr tx else Inl ErrCtrExists
      | None \<Rightarrow>
          bindE (liftB (Put idBkt ctrID newName)) (\<lambda>idBkt'.
          bindE (liftB (Put (bdel oldName namesBkt) newName ctrID)) (\<lambda>namesBkt'.
          bindE (liftB (Put allCtrsBkt ctrID newName)) (\<lambda>allCtrsBkt'.
          let tx' = tx\<lparr>db_ids := Some idBkt', db_names := Some namesBkt',
                       db_allCtrs := Some allCtrsBkt'\<rparr> in
          if pod = [] then Inr tx'
          else
            bindE (getPodBucket tx) (\<lambda>podsBkt.
            bindE (requireE (bget podsBkt pod) ErrInternal) (\<lambda>podBkt.
            bindE (requireE (pb_containers podBkt) ErrInternal) (\<lambda>podCtrBkt.
            bindE (liftB (Put podCtrBkt ctrID newName)) (\<lambda>podCtrBkt'.
              Inr (tx'\<lparr>db_pods :=
                Some (bins pod (podBkt\<lparr>pb_containers := Some podCtrBkt'\<rparr>) podsBkt)\<rparr>))))))))))))"

definition SafeRewrite_tx ::
  "Container \<Rightarrow> string \<Rightarrow> string \<Rightarrow> ContainerConfig \<Rightarrow> boltdb \<Rightarrow> txerr + boltdb" where
  "SafeRewrite_tx ctr oldName newName newCfg tx =
     bindE (if newName \<noteq> [] then lift (rename_tx ctr oldName newName tx) else Inr tx)
       (rewriteConfig_tx ctr newCfg)"

definition SafeRewriteContainerConfig ::
  "BoltState \<Rightarrow> Container \<Rightarrow> string \<Rightarrow> string \<Rightarrow> ContainerConfig \<Rightarrow> (Container, unit) op_result" where
  "SafeRewriteContainerConfig s ctr oldName newName newCfg =
     (if \<not> bs_valid s then Some (s, ctr, Inl ErrDBClosed)
      else if \<not> ctr_valid ctr then Some (s, ctr, Inl ErrCtrRemoved)
      else if newName \<noteq> [] \<and> cfg_Name newCfg \<noteq> newName then Some (s, ctr, Inl ErrInvalidArg)
      else if newName \<noteq> [] \<and> oldName = [] then Some (s, ctr, Inl ErrInvalidArg)
      else ctrOp s ctr (UpdateU (SafeRewrite_tx ctr oldName newName newCfg)))"

end
