(* ===== verification/BoltPods.thy ===== *)
theory BoltPods
  imports BoltContainers
begin

text \<open>
  The pod operations of the state database (\<^verbatim>\<open>src/libpod/boltdb_state.go\<close>): retrieval and lookup,
  membership, adding and removing pods, adding a container to a pod, removing one container or
  all containers of a pod, and the state and configuration of a pod.
\<close>

section \<open>Reading a pod\<close>

definition new_Pod :: Pod where
  "new_Pod =
     \<lparr>pod_config = \<lparr>pc_ID = [], pc_Name = [], pc_HasInfra = False, pc_LockID = 0\<rparr>,
      pod_state = zero_podState, pod_valid = False, pod_lock = None\<rparr>"

definition getPodFromDB :: "Runtime \<Rightarrow> string \<Rightarrow> pod_bkt bucket \<Rightarrow> error + Pod" where
  "getPodFromDB rt pid podBkt =
     bindE (requireE (bget podBkt pid) ErrNoSuchPod) (\<lambda>podDB.
     bindE (requireE (pb_config podDB) ErrInternal) (\<lambda>podConfigBytes.
     bindE (Unmarshal podConfigBytes) (\<lambda>config.
     bindE (rt_RetrieveLock rt (pc_LockID config)) (\<lambda>lock.
       Inr (new_Pod\<lparr>pod_config := config, pod_lock := Some lock, pod_valid := True\<rparr>)))))"

definition GetPodName :: "BoltState \<Rightarrow> string \<Rightarrow> (BoltState \<times> (error + string)) option" where
  "GetPodName s pid =
     (if pid = [] then Some (s, Inl ErrEmptyID)
      else if \<not> bs_valid s then Some (s, Inl ErrDBClosed)
      else pureOp s (View (\<lambda>tx. lift (
        bindE (getIDBucket tx) (\<lambda>idBkt.
        bindE (getPodBucket tx) (\<lambda>podBkt.
        bindE (requireE (bget idBkt pid) ErrNoSuchPod) (\<lambda>name.
        bindE (requireE (bget podBkt pid) ErrNoSuchPod) (\<lambda>_.
          Inr name))))))))"

definition PodByID :: "Runtime \<Rightarrow> BoltState \<Rightarrow> string \<Rightarrow> (BoltState \<times> (error + Pod)) option" where
  "PodByID rt s pid =
     (if pid = [] then Some (s, Inl ErrEmptyID)
      else if \<not> bs_valid s then Some (s, Inl ErrDBClosed)
      else pureOp s (View (\<lambda>tx. lift (
        bindE (getPodBucket tx) (\<lambda>podBkt. getPodFromDB rt pid podBkt)))))"

definition lookupPodID :: "string \<Rightarrow> pod_bkt bucket \<Rightarrow> string bucket \<Rightarrow> error + string" where
  "lookupPodID idOrName podBkt namesBkt =
     (if bget podBkt idOrName \<noteq> None then Inr idOrName
      else
        (case Option.bind (bget namesBkt idOrName)
                (\<lambda>fullID. if bget podBkt fullID \<noteq> None then Some fullID else None) of
           Some fullID \<Rightarrow> Inr fullID
         | None \<Rightarrow>
             bindE (findPrefix ErrPodExists idOrName podBkt)
               (\<lambda>found. requireE found ErrNoSuchPod)))"

definition LookupPod :: "Runtime \<Rightarrow> BoltState \<Rightarrow> string \<Rightarrow> (BoltState \<times> (error + Pod)) option" where
  "LookupPod rt s idOrName =
     (if idOrName = [] then Some (s, Inl ErrEmptyID)
      else if \<not> bs_valid s then Some (s, Inl ErrDBClosed)
      else pureOp s (View (\<lambda>tx. lift (
        bindE (getPodBucket tx) (\<lambda>podBkt.
        bindE (getNamesBucket tx) (\<lambda>namesBkt.
        bindE (lookupPodID idOrName podBkt namesBkt) (\<lambda>pid.
          getPodFromDB rt pid podBkt)))))))"

definition HasPod :: "BoltState \<Rightarrow> string \<Rightarrow> (BoltState \<times> (error + bool)) option" where
  "HasPod s pid =
     (if pid = [] then Some (s, Inl ErrEmptyID)
      else if \<not> bs_valid s then Some (s, Inl ErrDBClosed)
      else pureOp s (View (\<lambda>tx. lift (
        bindE (getPodBucket tx) (\<lambda>podBkt. Inr (bget podBkt pid \<noteq> None))))))"

definition AllPods :: "Runtime \<Rightarrow> BoltState \<Rightarrow> (BoltState \<times> (error + Pod list)) option" where
  "AllPods rt s =
     (if \<not> bs_valid s then Some (s, Inl ErrDBClosed)
      else pureOp s (View (\<lambda>tx.
        bindE (lift (getAllPodsBucket tx)) (\<lambda>allPodsBucket.
        bindE (lift (getPodBucket tx)) (\<lambda>podBucket.
          ForEach (\<lambda>pid _ pods.
            if bget podBucket pid = None then Inl (KeepValid, ErrInternal)
            else (case getPodFromDB rt pid podBucket of
                    Inl _ \<Rightarrow> Inr pods
                  | Inr pod \<Rightarrow> Inr (pods @ [pod]))) allPodsBucket [])))))"

section \<open>The members of a pod\<close>

definition getMembers :: "Pod \<Rightarrow> boltdb \<Rightarrow> txerr + string bucket" where
  "getMembers pod tx =
     bindE (lift (getPodBucket tx)) (\<lambda>podBkt.
     case bget podBkt (pod_ID pod) of
       None \<Rightarrow> Inl (PodInvalid, ErrNoSuchPod)
     | Some podDB \<Rightarrow> lift (requireE (pb_containers podDB) ErrInternal))"

definition PodHasContainer :: "BoltState \<Rightarrow> Pod \<Rightarrow> string \<Rightarrow> (Pod, bool) op_result" where
  "PodHasContainer s pod cid =
     (if cid = [] then Some (s, pod, Inl ErrEmptyID)
      else if \<not> bs_valid s then Some (s, pod, Inl ErrDBClosed)
      else if \<not> pod_valid pod then Some (s, pod, Inl ErrPodRemoved)
      else podOp s pod (View (\<lambda>tx.
        bindE (getMembers pod tx) (\<lambda>podCtrs. Inr (bget podCtrs cid \<noteq> None)))))"

definition PodContainersByID :: "BoltState \<Rightarrow> Pod \<Rightarrow> (Pod, string list) op_result" where
  "PodContainersByID s pod =
     (if \<not> bs_valid s then Some (s, pod, Inl ErrDBClosed)
      else if \<not> pod_valid pod then Some (s, pod, Inl ErrPodRemoved)
      else podOp s pod (View (\<lambda>tx.
        bindE (getMembers pod tx) (\<lambda>podCtrs.
          ForEach (\<lambda>cid _ ctrs. Inr (ctrs @ [cid])) podCtrs []))))"

definition PodContainers :: "Runtime \<Rightarrow> BoltState \<Rightarrow> Pod \<Rightarrow> (Pod, Container list) op_result" where
  "PodContainers rt s pod =
     (if \<not> bs_valid s then Some (s, pod, Inl ErrDBClosed)
      else if \<not> pod_valid pod then Some (s, pod, Inl ErrPodRemoved)
      else podOp s pod (View (\<lambda>tx.
        bindE (lift (getPodBucket tx)) (\<lambda>_.
        bindE (lift (getCtrBucket tx)) (\<lambda>ctrBkt.
        bindE (getMembers pod tx) (\<lambda>podCtrs.
          ForEach (\<lambda>cid _ ctrs.
            bindE (getContainerFromDB rt cid ctrBkt False) (\<lambda>ctr. Inr (ctrs @ [ctr])))
            podCtrs []))))))"

section \<open>Adding and removing pods\<close>

definition AddPod_tx :: "Pod \<Rightarrow> boltdb \<Rightarrow> error + boltdb" where
  "AddPod_tx pod tx =
     (let podID = pod_ID pod; podName = pod_Name pod in
      bindE (getPodBucket tx) (\<lambda>podBkt.
      bindE (getAllPodsBucket tx) (\<lambda>allPodsBkt.
      bindE (getIDBucket tx) (\<lambda>idsBkt.
      bindE (getNamesBucket tx) (\<lambda>namesBkt.
      bindE (checkFree podID podName idsBkt namesBkt allPodsBkt ErrPodExists ErrCtrExists) (\<lambda>_.
      bindE (liftB (CreateBucket podBkt podID
               (empty_pod_bkt\<lparr>pb_containers := Some [],
                              pb_config := Some (Marshal (pod_config pod)),
                              pb_state := Some (Marshal (pod_state pod))\<rparr>))) (\<lambda>podBkt'.
      bindE (liftB (Put idsBkt podID podName)) (\<lambda>idsBkt'.
      bindE (liftB (Put namesBkt podName podID)) (\<lambda>namesBkt'.
      bindE (liftB (Put allPodsBkt podID podName)) (\<lambda>allPodsBkt'.
        Inr (tx\<lparr>db_pods := Some podBkt', db_ids := Some idsBkt', db_names := Some namesBkt',
                db_allPods := Some allPodsBkt'\<rparr>)))))))))))"

definition AddPod :: "BoltState \<Rightarrow> Pod \<Rightarrow> (Pod, unit) op_result" where
  "AddPod s pod =
     (if \<not> bs_valid s then Some (s, pod, Inl ErrDBClosed)
      else if \<not> pod_valid pod then Some (s, pod, Inl ErrPodRemoved)
      else podOp s pod (UpdateU (\<lambda>tx. lift (AddPod_tx pod tx))))"

definition RemovePod_tx :: "Pod \<Rightarrow> boltdb \<Rightarrow> txerr + boltdb" where
  "RemovePod_tx pod tx =
     (let podID = pod_ID pod; podName = pod_Name pod in
      bindE (lift (getPodBucket tx)) (\<lambda>podBkt.
      bindE (lift (getAllPodsBucket tx)) (\<lambda>allPodsBkt.
      bindE (lift (getIDBucket tx)) (\<lambda>idsBkt.
      bindE (lift (getNamesBucket tx)) (\<lambda>namesBkt.
      case bget podBkt podID of
        None \<Rightarrow> Inl (PodInvalid, ErrNoSuchPod)
      | Some podDB \<Rightarrow>
          bindE (case pb_containers podDB of
                   None \<Rightarrow> Inr ()
                 | Some podCtrsBkt \<Rightarrow> lift (guardE (podCtrsBkt = []) ErrCtrExists)) (\<lambda>_.
          bindE (lift (liftB (DeleteBucket podBkt podID))) (\<lambda>podBkt'.
            Inr (tx\<lparr>db_ids := Some (bdel podID idsBkt),
                    db_names := Some (bdel podName namesBkt),
                    db_allPods := Some (bdel podID allPodsBkt),
                    db_pods := Some podBkt'\<rparr>))))))))"

definition RemovePod :: "BoltState \<Rightarrow> Pod \<Rightarrow> (Pod, unit) op_result" where
  "RemovePod s pod =
     (if \<not> bs_valid s then Some (s, pod, Inl ErrDBClosed)
      else if \<not> pod_valid pod then Some (s, pod, Inl ErrPodRemoved)
      else podOp s pod (UpdateU (RemovePod_tx pod)))"

text \<open>
  The loop of \<open>RemovePodContainers\<close> over the members of the pod: the registries and the
  container buckets are changed, the member list is not.
\<close>

record podCtrsLoop =
  lp_ctrs :: "ctr_bkt bucket"
  lp_ids :: "string bucket"
  lp_names :: "string bucket"
  lp_allCtrs :: "string bucket"

definition removePodContainer ::
  "string bucket \<Rightarrow> string \<Rightarrow> string \<Rightarrow> podCtrsLoop \<Rightarrow> error + podCtrsLoop" where
  "removePodContainer podCtrsBkt cid name l =
     bindE (requireE (bget (lp_ctrs l) cid) ErrNoSuchCtr) (\<lambda>ctr.
     bindE (case cb_deps ctr of
              None \<Rightarrow> Inr ()
            | Some ctrDeps \<Rightarrow>
                ForEach (\<lambda>depID _ _.
                  bindE (requireE (bget podCtrsBkt depID) ErrCtrExists) (\<lambda>_. Inr ())) ctrDeps ()) (\<lambda>_.
     bindE (case DeleteBucket (lp_ctrs l) cid of Inl _ \<Rightarrow> Inl ErrInternal | Inr b \<Rightarrow> Inr b) (\<lambda>ctrs'.
       Inr (l\<lparr>lp_ctrs := ctrs', lp_ids := bdel cid (lp_ids l), lp_names := bdel name (lp_names l),
              lp_allCtrs := bdel cid (lp_allCtrs l)\<rparr>))))"

definition RemovePodContainers_tx :: "Pod \<Rightarrow> boltdb \<Rightarrow> txerr + boltdb" where
  "RemovePodContainers_tx pod tx =
     (let podID = pod_ID pod in
      bindE (lift (getPodBucket tx)) (\<lambda>podBkt.
      bindE (lift (getCtrBucket tx)) (\<lambda>ctrBkt.
      bindE (lift (getAllCtrsBucket tx)) (\<lambda>allCtrsBkt.
      bindE (lift (getIDBucket tx)) (\<lambda>idsBkt.
      bindE (lift (getNamesBucket tx)) (\<lambda>namesBkt.
      case bget podBkt podID of
        None \<Rightarrow> Inl (PodInvalid, ErrNoSuchPod)
      | Some podDB \<Rightarrow>
          bindE (lift (requireE (pb_containers podDB) ErrInternal)) (\<lambda>podCtrsBkt.
          bindE (lift (ForEach (removePodContainer podCtrsBkt) podCtrsBkt
                   \<lparr>lp_ctrs = ctrBkt, lp_ids = idsBkt, lp_names = namesBkt,
                    lp_allCtrs = allCtrsBkt\<rparr>)) (\<lambda>l.
            Inr (tx\<lparr>db_ctrs := Some (lp_ctrs l), db_ids := Some (lp_ids l),
                    db_names := Some (lp_names l), db_allCtrs := Some (lp_allCtrs l),
                    db_pods := Some (bins podID (podDB\<lparr>pb_containers := Some []\<rparr>) podBkt)\<rparr>)))))))))"

definition RemovePodContainers :: "BoltState \<Rightarrow> Pod \<Rightarrow> (Pod, unit) op_result" where
  "RemovePodContainers s pod =
     (if \<not> bs_valid s then Some (s, pod, Inl ErrDBClosed)
      else if \<not> pod_valid pod then Some (s, pod, Inl ErrPodRemoved)
      else podOp s pod (UpdateU (RemovePodContainers_tx pod)))"

section \<open>Containers of a pod\<close>

definition AddContainerToPod ::
  "BoltState \<Rightarrow> Pod \<Rightarrow> Container \<Rightarrow> (BoltState \<times> Pod \<times> Container \<times> (error + unit)) option" where
  "AddContainerToPod s pod ctr =
     (if \<not> bs_valid s then Some (s, pod, ctr, Inl ErrDBClosed)
      else if \<not> pod_valid pod then Some (s, pod, ctr, Inl ErrPodRemoved)
      else if \<not> ctr_valid ctr then Some (s, pod, ctr, Inl ErrCtrRemoved)
      else if cfg_Pod (ctr_config ctr) \<noteq> pod_ID pod then Some (s, pod, ctr, Inl ErrNoSuchCtr)
      else map_option (\<lambda>(s', ctr', p, r). (s', (case p of Some p' \<Rightarrow> p' | None \<Rightarrow> pod), ctr', r))
             (addContainer s ctr (Some pod)))"

definition RemoveContainerFromPod ::
  "BoltState \<Rightarrow> Pod \<Rightarrow> Container \<Rightarrow> (BoltState \<times> Pod \<times> Container \<times> (error + unit)) option" where
  "RemoveContainerFromPod s pod ctr =
     (if \<not> bs_valid s then Some (s, pod, ctr, Inl ErrDBClosed)
      else if \<not> pod_valid pod then Some (s, pod, ctr, Inl ErrPodRemoved)
      else if cfg_Pod (ctr_config ctr) = [] then Some (s, pod, ctr, Inl ErrNoSuchPod)
      else if cfg_Pod (ctr_config ctr) \<noteq> pod_ID pod then Some (s, pod, ctr, Inl ErrInvalidArg)
      else map_option (\<lambda>(s', r). (s', invalid_pod r pod, invalid_ctr r ctr, dropinv r))
             (withDBCon s (UpdateU (removeContainer ctr (Some pod)))))"

section \<open>State and configuration\<close>

definition UpdatePod :: "BoltState \<Rightarrow> Pod \<Rightarrow> (Pod, unit) op_result" where
  "UpdatePod s pod =
     (if \<not> bs_valid s then Some (s, pod, Inl ErrDBClosed)
      else if \<not> pod_valid pod then Some (s, pod, Inl ErrPodRemoved)
      else map_option (\<lambda>(s', r). (s', case r of Inr st \<Rightarrow> pod\<lparr>pod_state := st\<rparr> | Inl e \<Rightarrow> invalid_pod r pod,
                                  bindE (dropinv r) (\<lambda>_. Inr ())))
             (withDBCon s (View (\<lambda>tx.
               bindE (lift (getPodBucket tx)) (\<lambda>podBkt.
               case bget podBkt (pod_ID pod) of
                 None \<Rightarrow> Inl (PodInvalid, ErrNoSuchPod)
               | Some podDB \<Rightarrow>
                   bindE (lift (requireE (pb_state podDB) ErrInternal)) (\<lambda>podStateBytes.
                     lift (Unmarshal podStateBytes)))))))"

definition SavePod_tx :: "Pod \<Rightarrow> boltdb \<Rightarrow> txerr + boltdb" where
  "SavePod_tx pod tx =
     bindE (lift (getPodBucket tx)) (\<lambda>podBkt.
     case bget podBkt (pod_ID pod) of
       None \<Rightarrow> Inl (PodInvalid, ErrNoSuchPod)
     | Some podDB \<Rightarrow>
         Inr (tx\<lparr>db_pods :=
           Some (bins (pod_ID pod) (podDB\<lparr>pb_state := Some (Marshal (pod_state pod))\<rparr>) podBkt)\<rparr>))"

definition SavePod :: "BoltState \<Rightarrow> Pod \<Rightarrow> (Pod, unit) op_result" where
  "SavePod s pod =
     (if \<not> bs_valid s then Some (s, pod, Inl ErrDBClosed)
      else if \<not> pod_valid pod then Some (s, pod, Inl ErrPodRemoved)
      else podOp s pod (UpdateU (SavePod_tx pod)))"

definition RewritePodConfig_tx :: "Pod \<Rightarrow> PodConfig \<Rightarrow> boltdb \<Rightarrow> txerr + boltdb" where
  "RewritePodConfig_tx pod newCfg tx =
     bindE (lift (getPodBucket tx)) (\<lambda>podBkt.
     case bget podBkt (pod_ID pod) of
       None \<Rightarrow> Inl (PodInvalid, ErrNoSuchPod)
     | Some podDB \<Rightarrow>
         Inr (tx\<lparr>db_pods :=
           Some (bins (pod_ID pod) (podDB\<lparr>pb_config := Some (Marshal newCfg)\<rparr>) podBkt)\<rparr>))"

definition RewritePodConfig :: "BoltState \<Rightarrow> Pod \<Rightarrow> PodConfig \<Rightarrow> (Pod, unit) op_result" where
  "RewritePodConfig s pod newCfg =
     (if \<not> bs_valid s then Some (s, pod, Inl ErrDBClosed)
      else if \<not> pod_valid pod then Some (s, pod, Inl ErrPodRemoved)
      else podOp s pod (UpdateU (RewritePodConfig_tx pod newCfg)))"

end
