(* ===== verification/BoltVolumes.thy ===== *)
theory BoltVolumes
  imports BoltSchema
begin

text \<open>
  The volume operations of the state database (\<^verbatim>\<open>src/libpod/boltdb_state.go\<close>).
\<close>

section \<open>Reading a volume\<close>

definition new_Volume :: Volume where
  "new_Volume =
     \<lparr>vol_config = \<lparr>vc_Name = [], vc_LockID = 0, vc_Driver = [], vc_StorageID = []\<rparr>,
      vol_state = Some zero_VolumeState, vol_valid = False, vol_lock = None, vol_plugin = None\<rparr>"

definition UsesVolumeDriver :: "Runtime \<Rightarrow> VolumeConfig \<Rightarrow> bool" where
  "UsesVolumeDriver rt cfg =
     (if vc_Driver cfg = ''image'' then vc_Driver cfg \<in> set (rt_VolumePlugins rt)
      else \<not> (vc_Driver cfg = ''local'' \<or> vc_Driver cfg = []))"

definition getVolumeFromDB :: "Runtime \<Rightarrow> string \<Rightarrow> vol_bkt bucket \<Rightarrow> error + Volume" where
  "getVolumeFromDB rt name volBkt =
     bindE (requireE (bget volBkt name) ErrNoSuchVolume) (\<lambda>volDB.
     bindE (requireE (vb_config volDB) ErrInternal) (\<lambda>volConfigBytes.
     bindE (Unmarshal volConfigBytes) (\<lambda>config.
     bindE (case vb_state volDB of
              None \<Rightarrow> Inr (vol_state new_Volume)
            | Some volStateBytes \<Rightarrow> bindE (Unmarshal volStateBytes) (\<lambda>st. Inr (Some st))) (\<lambda>state.
     let plugin = (if UsesVolumeDriver rt config
                   then (case rt_getVolumePlugin rt config of Inl _ \<Rightarrow> None | Inr p \<Rightarrow> Some p)
                   else None) in
     bindE (rt_RetrieveLock rt (vc_LockID config)) (\<lambda>lock.
       Inr (new_Volume\<lparr>vol_config := config, vol_state := state, vol_plugin := plugin,
                       vol_lock := Some lock, vol_valid := True\<rparr>))))))"

definition VolumeByName :: "Runtime \<Rightarrow> BoltState \<Rightarrow> string \<Rightarrow> (BoltState \<times> (error + Volume)) option" where
  "VolumeByName rt s name =
     (if name = [] then Some (s, Inl ErrEmptyID)
      else if \<not> bs_valid s then Some (s, Inl ErrDBClosed)
      else pureOp s (View (\<lambda>tx. lift (
        bindE (getVolBucket tx) (\<lambda>volBkt. getVolumeFromDB rt name volBkt)))))"

definition lookupVolumeName :: "string \<Rightarrow> vol_bkt bucket \<Rightarrow> string bucket \<Rightarrow> error + string" where
  "lookupVolumeName name volBkt allVolsBkt =
     (if bget volBkt name \<noteq> None then Inr name
      else bindE (findPrefix ErrVolumeExists name allVolsBkt)
             (\<lambda>found. requireE found ErrNoSuchVolume))"

definition LookupVolume :: "Runtime \<Rightarrow> BoltState \<Rightarrow> string \<Rightarrow> (BoltState \<times> (error + Volume)) option" where
  "LookupVolume rt s name =
     (if name = [] then Some (s, Inl ErrEmptyID)
      else if \<not> bs_valid s then Some (s, Inl ErrDBClosed)
      else pureOp s (View (\<lambda>tx. lift (
        bindE (getVolBucket tx) (\<lambda>volBkt.
        bindE (getAllVolsBucket tx) (\<lambda>allVolsBkt.
        bindE (lookupVolumeName name volBkt allVolsBkt) (\<lambda>volName.
          getVolumeFromDB rt volName volBkt)))))))"

definition HasVolume :: "BoltState \<Rightarrow> string \<Rightarrow> (BoltState \<times> (error + bool)) option" where
  "HasVolume s name =
     (if name = [] then Some (s, Inl ErrEmptyID)
      else if \<not> bs_valid s then Some (s, Inl ErrDBClosed)
      else pureOp s (View (\<lambda>tx. lift (
        bindE (getVolBucket tx) (\<lambda>volBkt. Inr (bget volBkt name \<noteq> None))))))"

definition AllVolumes :: "Runtime \<Rightarrow> BoltState \<Rightarrow> (BoltState \<times> (error + Volume list)) option" where
  "AllVolumes rt s =
     (if \<not> bs_valid s then Some (s, Inl ErrDBClosed)
      else pureOp s (View (\<lambda>tx.
        bindE (lift (getAllVolsBucket tx)) (\<lambda>allVolsBucket.
        bindE (lift (getVolBucket tx)) (\<lambda>volBucket.
          ForEach (\<lambda>name _ volumes.
            if bget volBucket name = None then Inl (KeepValid, ErrInternal)
            else (case getVolumeFromDB rt name volBucket of
                    Inl _ \<Rightarrow> Inr volumes
                  | Inr volume \<Rightarrow> Inr (volumes @ [volume]))) allVolsBucket [])))))"

definition ContainerIDIsVolume :: "BoltState \<Rightarrow> string \<Rightarrow> (BoltState \<times> (error + bool)) option" where
  "ContainerIDIsVolume s cid =
     (if \<not> bs_valid s then Some (s, Inl ErrDBClosed)
      else pureOp s (View (\<lambda>tx. lift (
        bindE (getVolumeContainersBucket tx) (\<lambda>volCtrsBkt. Inr (bget volCtrsBkt cid \<noteq> None))))))"

section \<open>Adding and removing volumes\<close>

definition AddVolume_tx :: "Volume \<Rightarrow> boltdb \<Rightarrow> error + boltdb" where
  "AddVolume_tx volume tx =
     (let volName = vol_Name volume; storageID = vc_StorageID (vol_config volume) in
      bindE (getVolBucket tx) (\<lambda>volBkt.
      bindE (getAllVolsBucket tx) (\<lambda>allVolsBkt.
      bindE (getVolumeContainersBucket tx) (\<lambda>volCtrsBkt.
      bindE (guardE (bget allVolsBkt volName = None) ErrVolumeExists) (\<lambda>_.
      bindE (liftB (CreateBucket volBkt volName
               (empty_vol_bkt\<lparr>vb_deps := Some [],
                              vb_config := Some (Marshal (vol_config volume)),
                              vb_state := map_option Marshal (vol_state volume)\<rparr>))) (\<lambda>volBkt'.
      bindE (if storageID \<noteq> [] then liftB (Put volCtrsBkt storageID volName)
             else Inr volCtrsBkt) (\<lambda>volCtrsBkt'.
      bindE (liftB (Put allVolsBkt volName volName)) (\<lambda>allVolsBkt'.
        Inr (tx\<lparr>db_vols := Some volBkt', db_volCtrs := Some volCtrsBkt',
                db_allVols := Some allVolsBkt'\<rparr>)))))))))"

definition AddVolume :: "BoltState \<Rightarrow> Volume \<Rightarrow> (Volume, unit) op_result" where
  "AddVolume s volume =
     (if \<not> bs_valid s then Some (s, volume, Inl ErrDBClosed)
      else if \<not> vol_valid volume then Some (s, volume, Inl ErrVolumeRemoved)
      else volOp s volume (UpdateU (\<lambda>tx. lift (AddVolume_tx volume tx))))"

text \<open>
  The containers that use a volume: the entries of its dependency bucket whose container still
  exists.
\<close>

definition volumeUsers :: "ctr_bkt bucket \<Rightarrow> string bucket \<Rightarrow> error + string list" where
  "volumeUsers ctrBkt deps =
     ForEach (\<lambda>cid _ acc. Inr (if bget ctrBkt cid \<noteq> None then acc @ [cid] else acc)) deps []"

definition RemoveVolume_tx :: "Volume \<Rightarrow> boltdb \<Rightarrow> txerr + boltdb" where
  "RemoveVolume_tx volume tx =
     (let volName = vol_Name volume; storageID = vc_StorageID (vol_config volume) in
      bindE (lift (getVolBucket tx)) (\<lambda>volBkt.
      bindE (lift (getAllVolsBucket tx)) (\<lambda>allVolsBkt.
      bindE (lift (getCtrBucket tx)) (\<lambda>ctrBkt.
      bindE (lift (getVolumeContainersBucket tx)) (\<lambda>volCtrIDBkt.
      case bget volBkt volName of
        None \<Rightarrow> Inl (VolInvalid, ErrNoSuchVolume)
      | Some volDB \<Rightarrow>
          bindE (case vb_deps volDB of
                   None \<Rightarrow> Inr ()
                 | Some volCtrsBkt \<Rightarrow>
                     bindE (lift (volumeUsers ctrBkt volCtrsBkt)) (\<lambda>deps.
                       lift (guardE (deps = []) ErrVolumeBeingUsed))) (\<lambda>_.
          bindE (lift (liftB (DeleteBucket volBkt volName))) (\<lambda>volBkt'.
            Inr (tx\<lparr>db_allVols := Some (bdel volName allVolsBkt),
                    db_vols := Some volBkt',
                    db_volCtrs := Some (if storageID \<noteq> [] then bdel storageID volCtrIDBkt
                                        else volCtrIDBkt)\<rparr>))))))))"

definition RemoveVolume :: "BoltState \<Rightarrow> Volume \<Rightarrow> (Volume, unit) op_result" where
  "RemoveVolume s volume =
     (if \<not> bs_valid s then Some (s, volume, Inl ErrDBClosed)
      else volOp s volume (UpdateU (RemoveVolume_tx volume)))"

definition VolumeInUse :: "BoltState \<Rightarrow> Volume \<Rightarrow> (Volume, string list) op_result" where
  "VolumeInUse s volume =
     (if \<not> bs_valid s then Some (s, volume, Inl ErrDBClosed)
      else if \<not> vol_valid volume then Some (s, volume, Inl ErrVolumeRemoved)
      else volOp s volume (View (\<lambda>tx.
        bindE (lift (getVolBucket tx)) (\<lambda>volBucket.
        bindE (lift (getCtrBucket tx)) (\<lambda>ctrBucket.
        case bget volBucket (vol_Name volume) of
          None \<Rightarrow> Inl (VolInvalid, ErrNoSuchVolume)
        | Some volDB \<Rightarrow>
            bindE (lift (requireE (vb_deps volDB) ErrInternal)) (\<lambda>dependsBkt.
              lift (volumeUsers ctrBucket dependsBkt)))))))"

section \<open>State and configuration\<close>

definition UpdateVolume :: "BoltState \<Rightarrow> Volume \<Rightarrow> (Volume, unit) op_result" where
  "UpdateVolume s volume =
     (if \<not> bs_valid s then Some (s, volume, Inl ErrDBClosed)
      else if \<not> vol_valid volume then Some (s, volume, Inl ErrVolumeRemoved)
      else map_option (\<lambda>(s', r).
               (s', case r of Inr st \<Rightarrow> volume\<lparr>vol_state := Some st\<rparr> | Inl e \<Rightarrow> invalid_vol r volume,
                bindE (dropinv r) (\<lambda>_. Inr ())))
             (withDBCon s (View (\<lambda>tx.
               bindE (lift (getVolBucket tx)) (\<lambda>volBucket.
               case bget volBucket (vol_Name volume) of
                 None \<Rightarrow> Inl (VolInvalid, ErrNoSuchVolume)
               | Some volToUpdate \<Rightarrow>
                   (case vb_state volToUpdate of
                      None \<Rightarrow> Inr zero_VolumeState
                    | Some stateBytes \<Rightarrow> lift (Unmarshal stateBytes)))))))"

text \<open>A volume without a state is saved as the empty byte string, which does not decode.\<close>

definition SaveVolume_tx :: "Volume \<Rightarrow> boltdb \<Rightarrow> txerr + boltdb" where
  "SaveVolume_tx volume tx =
     bindE (lift (getVolBucket tx)) (\<lambda>volBucket.
     case bget volBucket (vol_Name volume) of
       None \<Rightarrow> Inl (VolInvalid, ErrNoSuchVolume)
     | Some volToUpdate \<Rightarrow>
         let newStateJSON = (case vol_state volume of None \<Rightarrow> Malformed | Some st \<Rightarrow> Marshal st) in
         Inr (tx\<lparr>db_vols :=
           Some (bins (vol_Name volume) (volToUpdate\<lparr>vb_state := Some newStateJSON\<rparr>) volBucket)\<rparr>))"

definition SaveVolume :: "BoltState \<Rightarrow> Volume \<Rightarrow> (Volume, unit) op_result" where
  "SaveVolume s volume =
     (if \<not> bs_valid s then Some (s, volume, Inl ErrDBClosed)
      else if \<not> vol_valid volume then Some (s, volume, Inl ErrVolumeRemoved)
      else volOp s volume (UpdateU (SaveVolume_tx volume)))"

definition RewriteVolumeConfig_tx :: "Volume \<Rightarrow> VolumeConfig \<Rightarrow> boltdb \<Rightarrow> txerr + boltdb" where
  "RewriteVolumeConfig_tx volume newCfg tx =
     bindE (lift (getVolBucket tx)) (\<lambda>volBkt.
     case bget volBkt (vol_Name volume) of
       None \<Rightarrow> Inl (VolInvalid, ErrNoSuchVolume)
     | Some volDB \<Rightarrow>
         Inr (tx\<lparr>db_vols :=
           Some (bins (vol_Name volume) (volDB\<lparr>vb_config := Some (Marshal newCfg)\<rparr>) volBkt)\<rparr>))"

definition RewriteVolumeConfig :: "BoltState \<Rightarrow> Volume \<Rightarrow> VolumeConfig \<Rightarrow> (Volume, unit) op_result" where
  "RewriteVolumeConfig s volume newCfg =
     (if \<not> bs_valid s then Some (s, volume, Inl ErrDBClosed)
      else if \<not> vol_valid volume then Some (s, volume, Inl ErrVolumeRemoved)
      else volOp s volume (UpdateU (RewriteVolumeConfig_tx volume newCfg)))"

end
