(* ===== verification/Strconv.thy ===== *)
theory Strconv
  imports Define
begin

text \<open>
  The conversions between integers and decimal strings of the Go standard library that the
  models use (\<^verbatim>\<open>strconv.Itoa\<close>, \<^verbatim>\<open>strconv.Atoi\<close>) with their round trip.
\<close>

definition digitChar :: "nat \<Rightarrow> char" where
  "digitChar d = char_of (48 + d)"

definition digitVal :: "char \<Rightarrow> nat option" where
  "digitVal c = (if 48 \<le> (of_char c :: nat) \<and> (of_char c :: nat) \<le> 57
                 then Some (of_char c - 48) else None)"

fun showNat :: "nat \<Rightarrow> string" where
  "showNat n = (if n < 10 then [digitChar n] else showNat (n div 10) @ [digitChar (n mod 10)])"

declare showNat.simps [simp del]

definition Itoa :: "int \<Rightarrow> string" where
  "Itoa i = (if i < 0 then ''-'' @ showNat (nat (- i)) else showNat (nat i))"

fun readDigits :: "nat \<Rightarrow> string \<Rightarrow> nat option" where
  "readDigits acc [] = Some acc"
| "readDigits acc (c # cs) =
     (case digitVal c of None \<Rightarrow> None | Some d \<Rightarrow> readDigits (10 * acc + d) cs)"

definition readNat :: "string \<Rightarrow> nat option" where
  "readNat s = (if s = [] then None else readDigits 0 s)"

definition Atoi :: "string \<Rightarrow> error + int" where
  "Atoi s =
     (let (neg, ds) = (case s of
                         c # cs \<Rightarrow> if c = CHR ''-'' then (True, cs)
                                   else if c = CHR ''+'' then (False, cs) else (False, s)
                       | [] \<Rightarrow> (False, []))
      in case readNat ds of
           None \<Rightarrow> Inl ErrSyntax
         | Some n \<Rightarrow>
             let i = (if neg then - int n else int n)
             in if - (2 ^ 63) \<le> i \<and> i < 2 ^ 63 then Inr i else Inl ErrRange)"

lemma digitVal_digitChar [simp]: "d < 10 \<Longrightarrow> digitVal (digitChar d) = Some d"
  by (simp add: digitVal_def digitChar_def)

lemma digitChar_not_sign [simp]:
  "d < 10 \<Longrightarrow> digitChar d \<noteq> CHR ''-''" "d < 10 \<Longrightarrow> digitChar d \<noteq> CHR ''+''"
proof -
  assume "d < 10"
  then have v: "digitVal (digitChar d) = Some d" by simp
  have "digitVal (CHR ''-'') = None" "digitVal (CHR ''+'') = None"
    by (simp_all add: digitVal_def)
  with v show "digitChar d \<noteq> CHR ''-''" "digitChar d \<noteq> CHR ''+''" by force+
qed

lemma readDigits_append:
  "readDigits acc (xs @ ys) = Option.bind (readDigits acc xs) (\<lambda>a. readDigits a ys)"
  by (induction acc xs rule: readDigits.induct) (auto split: option.splits)

lemma showNat_ne: "showNat n \<noteq> []"
  by (subst showNat.simps) simp

lemma readDigits_showNat: "readDigits 0 (showNat n) = Some n"
proof (induction n rule: showNat.induct)
  case (1 n)
  show ?case
  proof (cases "n < 10")
    case True
    then show ?thesis by (subst showNat.simps) simp
  next
    case False
    with 1 show ?thesis by (subst showNat.simps) (simp add: readDigits_append)
  qed
qed

lemma showNat_hd: "\<exists>d cs. showNat n = digitChar d # cs \<and> d < 10"
proof (induction n rule: showNat.induct)
  case (1 n)
  show ?case
  proof (cases "n < 10")
    case True
    then show ?thesis by (subst showNat.simps) auto
  next
    case False
    with 1 obtain d cs where "showNat (n div 10) = digitChar d # cs" "d < 10" by blast
    with False show ?thesis by (subst showNat.simps) auto
  qed
qed

lemma Atoi_Itoa:
  assumes "- (2 ^ 63) \<le> i" and "i < 2 ^ 63"
  shows "Atoi (Itoa i) = Inr i"
proof (cases "i < 0")
  case True
  then show ?thesis
    using assms
    by (simp add: Itoa_def Atoi_def readNat_def showNat_ne readDigits_showNat)
next
  case False
  obtain d cs where h: "showNat (nat i) = digitChar d # cs" "d < 10"
    using showNat_hd by blast
  have "readNat (digitChar d # cs) = Some (nat i)"
    using readDigits_showNat[of "nat i"] h(1) by (simp add: readNat_def)
  with False h assms show ?thesis
    by (simp add: Itoa_def Atoi_def)
qed

lemma Itoa_inj: "- (2 ^ 63) \<le> i \<Longrightarrow> i < 2 ^ 63 \<Longrightarrow> - (2 ^ 63) \<le> j \<Longrightarrow> j < 2 ^ 63
    \<Longrightarrow> Itoa i = Itoa j \<Longrightarrow> i = j"
  by (metis Atoi_Itoa sum.inject(2))

end
