(* ===== verification/BoltExec.thy ===== *)
theory BoltExec
  imports BoltSchema Strconv
begin

text \<open>
  Exec sessions and exit codes in the state database (\<^verbatim>\<open>src/libpod/boltdb_state.go\<close>). A session is
  registered twice: in the table of all sessions and in the bucket of its container. Exit codes
  are kept as decimal strings, apart from the containers, with the time they were
  added.
\<close>

section \<open>Exec sessions\<close>

definition AddExecSession_tx :: "Container \<Rightarrow> ExecSession \<Rightarrow> boltdb \<Rightarrow> txerr + boltdb" where
  "AddExecSession_tx ctr session tx =
     (let ctrID = ctr_ID ctr; sessionID = es_Id session in
      bindE (lift (getExecBucket tx)) (\<lambda>execBucket.
      bindE (lift (getCtrBucket tx)) (\<lambda>ctrBucket.
      case bget ctrBucket ctrID of
        None \<Rightarrow> Inl (CtrInvalid, ErrNoSuchCtr)
      | Some dbCtr \<Rightarrow>
          let ctrExecSessionBucket = (case cb_exec dbCtr of None \<Rightarrow> [] | Some b \<Rightarrow> b) in
          bindE (lift (guardE (bget execBucket sessionID = None) ErrExecSessionExists)) (\<lambda>_.
          bindE (lift (liftB (Put execBucket sessionID ctrID))) (\<lambda>execBucket'.
          bindE (lift (liftB (Put ctrExecSessionBucket sessionID ctrID))) (\<lambda>sessions'.
            Inr (tx\<lparr>db_exec := Some execBucket',
                    db_ctrs := Some (bins ctrID (dbCtr\<lparr>cb_exec := Some sessions'\<rparr>) ctrBucket)\<rparr>)))))))"

definition AddExecSession :: "BoltState \<Rightarrow> Container \<Rightarrow> ExecSession \<Rightarrow> (Container, unit) op_result" where
  "AddExecSession s ctr session =
     (if \<not> bs_valid s then Some (s, ctr, Inl ErrDBClosed)
      else if \<not> ctr_valid ctr then Some (s, ctr, Inl ErrCtrRemoved)
      else ctrOp s ctr (UpdateU (AddExecSession_tx ctr session)))"

definition GetExecSession :: "BoltState \<Rightarrow> string \<Rightarrow> (BoltState \<times> (error + string)) option" where
  "GetExecSession s sid =
     (if \<not> bs_valid s then Some (s, Inl ErrDBClosed)
      else if sid = [] then Some (s, Inl ErrEmptyID)
      else pureOp s (View (\<lambda>tx. lift (
        bindE (getExecBucket tx) (\<lambda>execBucket.
          requireE (bget execBucket sid) ErrNoSuchExecSession)))))"

definition RemoveExecSession_tx :: "ExecSession \<Rightarrow> boltdb \<Rightarrow> error + boltdb" where
  "RemoveExecSession_tx session tx =
     (let sessionID = es_Id session; containerID = es_ContainerId session in
      bindE (getExecBucket tx) (\<lambda>execBucket.
      bindE (getCtrBucket tx) (\<lambda>ctrBucket.
      bindE (requireE (bget execBucket sessionID) ErrNoSuchExecSession) (\<lambda>sessionExists.
      bindE (guardE (sessionExists = containerID) ErrInternal) (\<lambda>_.
      let tx' = tx\<lparr>db_exec := Some (bdel sessionID execBucket)\<rparr> in
      case bget ctrBucket containerID of
        None \<Rightarrow> Inr tx'
      | Some dbCtr \<Rightarrow>
          (case cb_exec dbCtr of
             None \<Rightarrow> Inr tx'
           | Some ctrExecBucket \<Rightarrow>
               if bget ctrExecBucket sessionID \<noteq> None
               then Inr (tx'\<lparr>db_ctrs := Some (bins containerID
                      (dbCtr\<lparr>cb_exec := Some (bdel sessionID ctrExecBucket)\<rparr>) ctrBucket)\<rparr>)
               else Inr tx'))))))"

definition RemoveExecSession :: "BoltState \<Rightarrow> ExecSession \<Rightarrow> (BoltState \<times> (error + unit)) option" where
  "RemoveExecSession s session =
     (if \<not> bs_valid s then Some (s, Inl ErrDBClosed)
      else pureOp s (UpdateU (\<lambda>tx. lift (RemoveExecSession_tx session tx))))"

definition GetContainerExecSessions :: "BoltState \<Rightarrow> Container \<Rightarrow> (Container, string list) op_result" where
  "GetContainerExecSessions s ctr =
     (if \<not> bs_valid s then Some (s, ctr, Inl ErrDBClosed)
      else if \<not> ctr_valid ctr then Some (s, ctr, Inl ErrCtrRemoved)
      else ctrOp s ctr (View (\<lambda>tx.
        bindE (lift (getCtrBucket tx)) (\<lambda>ctrBucket.
        case bget ctrBucket (ctr_ID ctr) of
          None \<Rightarrow> Inl (CtrInvalid, ErrNoSuchCtr)
        | Some dbCtr \<Rightarrow>
            (case cb_exec dbCtr of
               None \<Rightarrow> Inr []
             | Some sessions \<Rightarrow> ForEach (\<lambda>sid _ acc. Inr (acc @ [sid])) sessions [])))))"

text \<open>One iteration of the loop over the sessions of a container: its bucket and the table.\<close>

definition removeSession ::
  "string \<Rightarrow> string \<Rightarrow> string bucket \<times> string bucket \<Rightarrow> error + string bucket \<times> string bucket" where
  "removeSession ctrID session = (\<lambda>(ctrExecSessions, execBucket).
     let ctrExecSessions' = bdel session ctrExecSessions in
     case bget execBucket session of
       None \<Rightarrow> Inr (ctrExecSessions', execBucket)
     | Some sessionExists \<Rightarrow>
         if sessionExists \<noteq> ctrID then Inl ErrInternal
         else Inr (ctrExecSessions', bdel session execBucket))"

definition RemoveContainerExecSessions_tx :: "Container \<Rightarrow> boltdb \<Rightarrow> txerr + boltdb" where
  "RemoveContainerExecSessions_tx ctr tx =
     (let ctrID = ctr_ID ctr in
      bindE (lift (getExecBucket tx)) (\<lambda>execBucket.
      bindE (lift (getCtrBucket tx)) (\<lambda>ctrBucket.
      case bget ctrBucket ctrID of
        None \<Rightarrow> Inl (CtrInvalid, ErrNoSuchCtr)
      | Some dbCtr \<Rightarrow>
          (case cb_exec dbCtr of
             None \<Rightarrow> Inr tx
           | Some ctrExecSessions \<Rightarrow>
               bindE (lift (foldE (removeSession ctrID) (bkeys ctrExecSessions)
                              (ctrExecSessions, execBucket))) (\<lambda>(sessions', execBucket').
                 Inr (tx\<lparr>db_exec := Some execBucket',
                         db_ctrs := Some (bins ctrID (dbCtr\<lparr>cb_exec := Some sessions'\<rparr>) ctrBucket)\<rparr>))))))"

definition RemoveContainerExecSessions :: "BoltState \<Rightarrow> Container \<Rightarrow> (Container, unit) op_result" where
  "RemoveContainerExecSessions s ctr =
     (if \<not> bs_valid s then Some (s, ctr, Inl ErrDBClosed)
      else if \<not> ctr_valid ctr then Some (s, ctr, Inl ErrCtrRemoved)
      else ctrOp s ctr (UpdateU (RemoveContainerExecSessions_tx ctr)))"

section \<open>Exit codes\<close>

definition AddContainerExitCode_tx :: "string \<Rightarrow> 32 word \<Rightarrow> int \<Rightarrow> boltdb \<Rightarrow> error + boltdb" where
  "AddContainerExitCode_tx cid exitCode now tx =
     bindE (getExitCodeBucket tx) (\<lambda>exitCodeBucket.
     bindE (getExitCodeTimeStampBucket tx) (\<lambda>timeStampBucket.
     bindE (liftB (Put exitCodeBucket cid (Itoa (sint exitCode)))) (\<lambda>exitCodeBucket'.
     bindE (liftB (Put timeStampBucket cid (Marshal now))) (\<lambda>timeStampBucket'.
       Inr (tx\<lparr>db_exitCode := Some exitCodeBucket', db_exitTime := Some timeStampBucket'\<rparr>)))))"

definition AddContainerExitCode ::
  "BoltState \<Rightarrow> int \<Rightarrow> string \<Rightarrow> 32 word \<Rightarrow> (BoltState \<times> (error + unit)) option" where
  "AddContainerExitCode s now cid exitCode =
     (if cid = [] then Some (s, Inl ErrEmptyID)
      else if \<not> bs_valid s then Some (s, Inl ErrDBClosed)
      else pureOp s (UpdateU (\<lambda>tx. lift (AddContainerExitCode_tx cid exitCode now tx))))"

definition GetContainerExitCode :: "BoltState \<Rightarrow> string \<Rightarrow> (BoltState \<times> (error + 32 word)) option" where
  "GetContainerExitCode s cid =
     (if cid = [] then Some (s, Inl ErrEmptyID)
      else if \<not> bs_valid s then Some (s, Inl ErrDBClosed)
      else pureOp s (View (\<lambda>tx. lift (
        bindE (getExitCodeBucket tx) (\<lambda>exitCodeBucket.
        bindE (requireE (bget exitCodeBucket cid) ErrNoSuchExitCode) (\<lambda>rawExitCode.
        bindE (Atoi rawExitCode) (\<lambda>exitCode.
          Inr (word_of_int exitCode))))))))"

definition GetContainerExitCodeTimeStamp :: "BoltState \<Rightarrow> string \<Rightarrow> (BoltState \<times> (error + int)) option" where
  "GetContainerExitCodeTimeStamp s cid =
     (if cid = [] then Some (s, Inl ErrEmptyID)
      else if \<not> bs_valid s then Some (s, Inl ErrDBClosed)
      else pureOp s (View (\<lambda>tx. lift (
        bindE (getExitCodeTimeStampBucket tx) (\<lambda>timeStampBucket.
        bindE (requireE (bget timeStampBucket cid) ErrNoSuchExitCode) Unmarshal)))))"

text \<open>Five minutes, in nanoseconds.\<close>

definition pruneThreshold :: int where
  "pruneThreshold = 5 * 60 * 1000000000"

definition expiredExitCodes :: "int \<Rightarrow> boltdb \<Rightarrow> error + string list" where
  "expiredExitCodes now tx =
     bindE (getExitCodeTimeStampBucket tx) (\<lambda>timeStampBucket.
       ForEach (\<lambda>rawID rawTimeStamp toRemoveIDs.
         bindE (Unmarshal rawTimeStamp) (\<lambda>timeStamp.
           Inr (if now - timeStamp > pruneThreshold then toRemoveIDs @ [rawID] else toRemoveIDs)))
         timeStampBucket [])"

definition deleteExitCodes :: "string list \<Rightarrow> boltdb \<Rightarrow> error + boltdb" where
  "deleteExitCodes toRemoveIDs tx =
     bindE (getExitCodeBucket tx) (\<lambda>exitCodeBucket.
     bindE (getExitCodeTimeStampBucket tx) (\<lambda>timeStampBucket.
       Inr (tx\<lparr>db_exitCode := Some (fold bdel toRemoveIDs exitCodeBucket),
               db_exitTime := Some (fold bdel toRemoveIDs timeStampBucket)\<rparr>)))"

text \<open>A read transaction finds the expired entries, a write transaction deletes them.\<close>

definition prune_body :: "int \<Rightarrow> boltdb \<Rightarrow> boltdb \<times> (txerr + unit)" where
  "prune_body now d =
     (case expiredExitCodes now d of
        Inl e \<Rightarrow> (d, Inl (KeepValid, e))
      | Inr toRemoveIDs \<Rightarrow>
          if toRemoveIDs = [] then (d, Inr ())
          else UpdateU (\<lambda>tx. lift (deleteExitCodes toRemoveIDs tx)) d)"

definition PruneContainerExitCodes :: "BoltState \<Rightarrow> int \<Rightarrow> (BoltState \<times> (error + unit)) option" where
  "PruneContainerExitCodes s now =
     (if \<not> bs_valid s then Some (s, Inl ErrDBClosed)
      else pureOp s (prune_body now))"

end
