(* ===== verification/BoltNetworks.thy ===== *)
theory BoltNetworks
  imports BoltSchema Strconv
begin

text \<open>
  The networks of a container in the state database (\<^verbatim>\<open>src/libpod/boltdb_state.go\<close>): connecting,
  modifying, disconnecting, and the read that converts the entries of older releases, which
  stored the container identifier instead of options or had no networks bucket at
  all.
\<close>

section \<open>Reading the networks\<close>

definition IsBridge :: "string \<Rightarrow> bool" where
  "IsBridge n \<longleftrightarrow> n = ''bridge''"

definition getInterfaceByName :: "(string \<times> int) list \<Rightarrow> string \<Rightarrow> string option" where
  "getInterfaceByName d networkName =
     map_option (\<lambda>val. ''eth'' @ Itoa val) (map_of d networkName)"

definition zero_opts :: PerNetworkOptions where
  "zero_opts = \<lparr>StaticIPs = [], Aliases = [], StaticMAC = [], InterfaceName = []\<rparr>"

text \<open>
  The walk over the networks bucket: the networks decoded so far and whether an entry in the old
  format was met.
\<close>

definition readNetwork ::
  "string \<Rightarrow> string \<Rightarrow> netval \<Rightarrow> PerNetworkOptions bucket \<times> bool
     \<Rightarrow> error + PerNetworkOptions bucket \<times> bool" where
  "readNetwork ctrID network v = (\<lambda>(networks, convertDB).
     case v of
       NetOpts j \<Rightarrow> bindE (Unmarshal j) (\<lambda>opts. Inr (bins network opts networks, convertDB))
     | NetRaw x \<Rightarrow> if x \<noteq> ctrID then Inl ErrJSON
                  else Inr (bins network zero_opts networks, True))"

definition readNetworks ::
  "Container \<Rightarrow> boltdb \<Rightarrow> txerr + PerNetworkOptions bucket \<times> bool" where
  "readNetworks ctr tx =
     bindE (lift (getCtrBucket tx)) (\<lambda>ctrBucket.
     case bget ctrBucket (ctr_ID ctr) of
       None \<Rightarrow> Inl (CtrInvalid, ErrNoSuchCtr)
     | Some dbCtr \<Rightarrow>
         (case cb_networks dbCtr of
            None \<Rightarrow> Inr ([], True)
          | Some ctrNetworkBkt \<Rightarrow>
              lift (ForEach (readNetwork (ctr_ID ctr)) ctrNetworkBkt ([], False))))"

definition getAliases :: "ctr_bkt \<Rightarrow> string \<Rightarrow> string list" where
  "getAliases dbCtr network =
     (case cb_aliases dbCtr of
        None \<Rightarrow> []
      | Some ctrAliasesBkt \<Rightarrow>
          (case bget ctrAliasesBkt network of None \<Rightarrow> [] | Some b \<Rightarrow> bkeys b))"

definition convertNetwork ::
  "Container \<Rightarrow> ctr_bkt \<Rightarrow> nat \<times> string \<Rightarrow> netval bucket \<times> PerNetworkOptions bucket
     \<Rightarrow> error + netval bucket \<times> PerNetworkOptions bucket" where
  "convertNetwork ctr dbCtr = (\<lambda>(i, network) (bkt, networks).
     bindE (case cs_NetInterfaceDescriptions (ctr_state ctr) of
              Some d \<Rightarrow> requireE (getInterfaceByName d network) ErrPlain
            | None \<Rightarrow> Inr (''eth'' @ Itoa (int i))) (\<lambda>intName.
     bindE (guardE (12 \<le> length (ctr_ID ctr)) Panic) (\<lambda>_.
     let netOpts =
       \<lparr>StaticIPs = (if i = 0 then (case cfg_StaticIP (ctr_config ctr) of None \<Rightarrow> [] | Some ip \<Rightarrow> [ip])
                     else []),
        Aliases = getAliases dbCtr network @ [take 12 (ctr_ID ctr)],
        StaticMAC = (if i = 0 then cfg_StaticMAC (ctr_config ctr) else []),
        InterfaceName = intName\<rparr> in
     bindE (liftB (Put bkt network (NetOpts (Marshal netOpts)))) (\<lambda>bkt'.
       Inr (bkt', bins network netOpts networks)))))"

definition convertNetworks ::
  "Runtime \<Rightarrow> Container \<Rightarrow> PerNetworkOptions bucket \<Rightarrow> boltdb
     \<Rightarrow> txerr + boltdb \<times> PerNetworkOptions bucket" where
  "convertNetworks rt ctr networks tx =
     bindE (lift (getCtrBucket tx)) (\<lambda>ctrBucket.
     case bget ctrBucket (ctr_ID ctr) of
       None \<Rightarrow> Inl (CtrInvalid, ErrNoSuchCtr)
     | Some dbCtr \<Rightarrow>
         let (ctrNetworkBkt, networkList) =
           (case cb_networks dbCtr of
              None \<Rightarrow> ([], if cfg_NetworksDeprecated (ctr_config ctr) = [] then [rt_DefaultNetwork rt]
                          else cfg_NetworksDeprecated (ctr_config ctr))
            | Some b \<Rightarrow> (b, bkeys b)) in
         bindE (lift (foldE (convertNetwork ctr dbCtr) (enumerate 0 networkList)
                        (ctrNetworkBkt, networks))) (\<lambda>(bkt', networks').
           Inr (tx\<lparr>db_ctrs :=
                  Some (bins (ctr_ID ctr) (dbCtr\<lparr>cb_networks := Some bkt'\<rparr>) ctrBucket)\<rparr>, networks')))"

definition GetNetworks_body ::
  "Runtime \<Rightarrow> Container \<Rightarrow> boltdb \<Rightarrow> boltdb \<times> (txerr + PerNetworkOptions bucket)" where
  "GetNetworks_body rt ctr d =
     (case readNetworks ctr d of
        Inl e \<Rightarrow> (d, Inl e)
      | Inr (networks, convertDB) \<Rightarrow>
          if convertDB then Update (convertNetworks rt ctr networks) d
          else (d, Inr networks))"

definition GetNetworks ::
  "Runtime \<Rightarrow> BoltState \<Rightarrow> Container \<Rightarrow> (Container, PerNetworkOptions bucket) op_result" where
  "GetNetworks rt s ctr =
     (if \<not> bs_valid s then Some (s, ctr, Inl ErrDBClosed)
      else if \<not> ctr_valid ctr then Some (s, ctr, Inl ErrCtrRemoved)
      else if \<not> IsBridge (cfg_NetMode (ctr_config ctr)) then Some (s, ctr, Inr [])
      else ctrOp s ctr (GetNetworks_body rt ctr))"

section \<open>Connecting and disconnecting\<close>

definition networkModify_tx ::
  "Container \<Rightarrow> string \<Rightarrow> PerNetworkOptions \<Rightarrow> bool \<Rightarrow> boltdb \<Rightarrow> txerr + boltdb" where
  "networkModify_tx ctr network opts new tx =
     bindE (lift (getCtrBucket tx)) (\<lambda>ctrBucket.
     case bget ctrBucket (ctr_ID ctr) of
       None \<Rightarrow> Inl (CtrInvalid, ErrNoSuchCtr)
     | Some dbCtr \<Rightarrow>
         bindE (lift (requireE (cb_networks dbCtr) ErrNoSuchNetwork)) (\<lambda>ctrNetworksBkt.
         bindE (if new \<and> bget ctrNetworksBkt network \<noteq> None then Inl (KeepValid, ErrNetworkConnected)
                else if \<not> new \<and> bget ctrNetworksBkt network = None then Inl (KeepValid, ErrNoSuchNetwork)
                else Inr ()) (\<lambda>_.
         bindE (lift (liftB (Put ctrNetworksBkt network (NetOpts (Marshal opts))))) (\<lambda>bkt'.
           Inr (tx\<lparr>db_ctrs :=
             Some (bins (ctr_ID ctr) (dbCtr\<lparr>cb_networks := Some bkt'\<rparr>) ctrBucket)\<rparr>)))))"

definition networkModify ::
  "BoltState \<Rightarrow> Container \<Rightarrow> string \<Rightarrow> PerNetworkOptions \<Rightarrow> bool \<Rightarrow> (Container, unit) op_result" where
  "networkModify s ctr network opts new =
     (if \<not> bs_valid s then Some (s, ctr, Inl ErrDBClosed)
      else if \<not> ctr_valid ctr then Some (s, ctr, Inl ErrCtrRemoved)
      else if network = [] then Some (s, ctr, Inl ErrInvalidArg)
      else ctrOp s ctr (UpdateU (networkModify_tx ctr network opts new)))"

definition NetworkConnect ::
  "BoltState \<Rightarrow> Container \<Rightarrow> string \<Rightarrow> PerNetworkOptions \<Rightarrow> (Container, unit) op_result" where
  "NetworkConnect s ctr network opts = networkModify s ctr network opts True"

definition NetworkModify ::
  "BoltState \<Rightarrow> Container \<Rightarrow> string \<Rightarrow> PerNetworkOptions \<Rightarrow> (Container, unit) op_result" where
  "NetworkModify s ctr network opts = networkModify s ctr network opts False"

definition NetworkDisconnect_tx :: "Container \<Rightarrow> string \<Rightarrow> boltdb \<Rightarrow> txerr + boltdb" where
  "NetworkDisconnect_tx ctr network tx =
     bindE (lift (getCtrBucket tx)) (\<lambda>ctrBucket.
     case bget ctrBucket (ctr_ID ctr) of
       None \<Rightarrow> Inl (CtrInvalid, ErrNoSuchCtr)
     | Some dbCtr \<Rightarrow>
         bindE (lift (requireE (cb_networks dbCtr) ErrNoSuchNetwork)) (\<lambda>ctrNetworksBkt.
         bindE (lift (requireE (bget ctrNetworksBkt network) ErrNoSuchNetwork)) (\<lambda>_.
         let dbCtr1 = dbCtr\<lparr>cb_networks := Some (bdel network ctrNetworksBkt)\<rparr>;
             dbCtr2 = (case cb_aliases dbCtr of
                         None \<Rightarrow> dbCtr1
                       | Some ctrAliasesBkt \<Rightarrow>
                           dbCtr1\<lparr>cb_aliases := Some (bdel network ctrAliasesBkt)\<rparr>)
         in Inr (tx\<lparr>db_ctrs := Some (bins (ctr_ID ctr) dbCtr2 ctrBucket)\<rparr>))))"

definition NetworkDisconnect :: "BoltState \<Rightarrow> Container \<Rightarrow> string \<Rightarrow> (Container, unit) op_result" where
  "NetworkDisconnect s ctr network =
     (if \<not> bs_valid s then Some (s, ctr, Inl ErrDBClosed)
      else if \<not> ctr_valid ctr then Some (s, ctr, Inl ErrCtrRemoved)
      else if network = [] then Some (s, ctr, Inl ErrInvalidArg)
      else ctrOp s ctr (UpdateU (NetworkDisconnect_tx ctr network)))"

end
