(* ===== verification/BoltConfig.thy ===== *)
theory BoltConfig
  imports BoltSchema
begin

text \<open>
  The runtime configuration recorded in the state database and its validation against the
  running configuration, and the refresh of all states after a reboot
  (\<^verbatim>\<open>src/libpod/boltdb_state_internal.go\<close>, \<^verbatim>\<open>src/libpod/boltdb_state.go\<close>). The paths arrive
  cleaned (\<^verbatim>\<open>filepath.Clean\<close>) and the storage defaults are an argument.
\<close>

section \<open>Runtime configuration\<close>

record dbConfigValidation =
  dcv_runtimeValue :: string
  dcv_key :: string
  dcv_defaultValue :: string

record RuntimeConfig =
  rc_GOOS :: string
  rc_StaticDir :: string
  rc_TmpDir :: string
  rc_RunRoot :: string
  rc_GraphRoot :: string
  rc_GraphDriverName :: string
  rc_VolumePath :: string

record StoreOptions =
  so_RunRoot :: string
  so_GraphRoot :: string
  so_GraphDriverName :: string

definition configChecks :: "RuntimeConfig \<Rightarrow> StoreOptions \<Rightarrow> dbConfigValidation list" where
  "configChecks rc so =
     [\<lparr>dcv_runtimeValue = rc_GOOS rc, dcv_key = ''os'', dcv_defaultValue = rc_GOOS rc\<rparr>,
      \<lparr>dcv_runtimeValue = rc_StaticDir rc, dcv_key = ''static-dir'', dcv_defaultValue = ''''\<rparr>,
      \<lparr>dcv_runtimeValue = rc_TmpDir rc, dcv_key = ''tmp-dir'', dcv_defaultValue = ''''\<rparr>,
      \<lparr>dcv_runtimeValue = rc_RunRoot rc, dcv_key = ''run-root'', dcv_defaultValue = so_RunRoot so\<rparr>,
      \<lparr>dcv_runtimeValue = rc_GraphRoot rc, dcv_key = ''graph-root'', dcv_defaultValue = so_GraphRoot so\<rparr>,
      \<lparr>dcv_runtimeValue = rc_GraphDriverName rc, dcv_key = ''graph-driver-name'',
       dcv_defaultValue = so_GraphDriverName so\<rparr>,
      \<lparr>dcv_runtimeValue = rc_VolumePath rc, dcv_key = ''volume-path'', dcv_defaultValue = ''''\<rparr>]"

definition readOnlyValidateConfig :: "string bucket \<Rightarrow> dbConfigValidation \<Rightarrow> error + bool" where
  "readOnlyValidateConfig bucket toCheck =
     (case bget bucket (dcv_key toCheck) of
        None \<Rightarrow> Inr False
      | Some dbValue \<Rightarrow>
          if dcv_runtimeValue toCheck \<noteq> dbValue then
            if dcv_runtimeValue toCheck = [] \<and> dcv_defaultValue toCheck \<noteq> [] \<and>
               dbValue = dcv_defaultValue toCheck then Inr True
            else if dbValue = [] \<and> dcv_defaultValue toCheck \<noteq> [] \<and>
               dcv_runtimeValue toCheck = dcv_defaultValue toCheck then Inr True
            else Inl ErrDBBadConfig
          else Inr True)"

definition missingFields ::
  "dbConfigValidation list \<Rightarrow> boltdb \<Rightarrow> error + dbConfigValidation list" where
  "missingFields checks tx =
     bindE (getRuntimeConfigBucket tx) (\<lambda>configBkt.
       foldE (\<lambda>check missing.
         bindE (readOnlyValidateConfig configBkt check) (\<lambda>exists.
           Inr (if exists then missing else missing @ [check]))) checks [])"

definition dbConfigValue :: "dbConfigValidation \<Rightarrow> string" where
  "dbConfigValue missing =
     (if dcv_runtimeValue missing = [] \<and> dcv_defaultValue missing \<noteq> []
      then dcv_defaultValue missing else dcv_runtimeValue missing)"

definition populateFields :: "dbConfigValidation list \<Rightarrow> boltdb \<Rightarrow> error + boltdb" where
  "populateFields missing tx =
     bindE (getRuntimeConfigBucket tx) (\<lambda>configBkt.
     bindE (foldE (\<lambda>m b. liftB (Put b (dcv_key m) (dbConfigValue m))) missing configBkt) (\<lambda>b'.
       Inr (tx\<lparr>db_runtimeConfig := Some b'\<rparr>)))"

definition checkRuntimeConfig ::
  "RuntimeConfig \<Rightarrow> StoreOptions \<Rightarrow> boltdb \<Rightarrow> boltdb \<times> (txerr + unit)" where
  "checkRuntimeConfig rc so d =
     (case missingFields (configChecks rc so) d of
        Inl e \<Rightarrow> (d, Inl (KeepValid, e))
      | Inr missing \<Rightarrow>
          if missing = [] then (d, Inr ())
          else UpdateU (\<lambda>tx. lift (populateFields missing tx)) d)"

definition ValidateDBConfig ::
  "RuntimeConfig \<Rightarrow> StoreOptions \<Rightarrow> BoltState \<Rightarrow> (BoltState \<times> (error + unit)) option" where
  "ValidateDBConfig rc so s =
     (if \<not> bs_valid s then Some (s, Inl ErrDBClosed)
      else pureOp s (checkRuntimeConfig rc so))"

record DBConfig =
  LibpodRoot :: string
  LibpodTmp :: string
  StorageRoot :: string
  StorageTmp :: string
  GraphDriver :: string
  VolumePath :: string

definition stringOf :: "string option \<Rightarrow> string" where
  "stringOf v = (case v of None \<Rightarrow> [] | Some x \<Rightarrow> x)"

definition GetDBConfig :: "BoltState \<Rightarrow> (BoltState \<times> (error + DBConfig)) option" where
  "GetDBConfig s =
     (if \<not> bs_valid s then Some (s, Inl ErrDBClosed)
      else pureOp s (View (\<lambda>tx. lift (
        bindE (getRuntimeConfigBucket tx) (\<lambda>configBucket.
          Inr \<lparr>LibpodRoot = stringOf (bget configBucket ''static-dir''),
               LibpodTmp = stringOf (bget configBucket ''tmp-dir''),
               StorageRoot = stringOf (bget configBucket ''graph-root''),
               StorageTmp = stringOf (bget configBucket ''run-root''),
               GraphDriver = stringOf (bget configBucket ''graph-driver-name''),
               VolumePath = stringOf (bget configBucket ''volume-path'')\<rparr>)))))"

section \<open>Refresh after a reboot\<close>

text \<open>A bucket is emptied by collecting its keys and deleting them one by one.\<close>

definition clearBucket :: "'v bucket \<Rightarrow> 'v bucket" where
  "clearBucket b = fold bdel (bkeys b) b"

record refreshLoop =
  rl_ctrs :: "ctr_bkt bucket"
  rl_pods :: "pod_bkt bucket"
  rl_toRemove :: "string list"

definition refreshPodState :: "pod_bkt \<Rightarrow> error + pod_bkt" where
  "refreshPodState podBkt =
     bindE (requireE (pb_state podBkt) ErrInternal) (\<lambda>stateBytes.
     bindE (Unmarshal stateBytes) (\<lambda>state.
       Inr (podBkt\<lparr>pb_state := Some (Marshal (resetPodState state))\<rparr>)))"

definition refreshCtrState :: "ctr_bkt \<Rightarrow> error + ctr_bkt" where
  "refreshCtrState ctrBkt =
     (let ctrBkt1 = ctrBkt\<lparr>cb_netNS := None\<rparr> in
      bindE (requireE (cb_state ctrBkt1) ErrInternal) (\<lambda>stateBytes.
      bindE (Unmarshal stateBytes) (\<lambda>state.
        Inr (ctrBkt1\<lparr>cb_state := Some (Marshal (resetContainerState state)),
                     cb_exec := map_option clearBucket (cb_exec ctrBkt1)\<rparr>))))"

definition refreshID :: "string \<Rightarrow> string \<Rightarrow> refreshLoop \<Rightarrow> error + refreshLoop" where
  "refreshID i name l =
     (case bget (rl_ctrs l) i of
        None \<Rightarrow>
          (case bget (rl_pods l) i of
             None \<Rightarrow> Inr (l\<lparr>rl_toRemove := rl_toRemove l @ [i]\<rparr>)
           | Some podBkt \<Rightarrow>
               bindE (refreshPodState podBkt) (\<lambda>podBkt'.
                 Inr (l\<lparr>rl_pods := bins i podBkt' (rl_pods l)\<rparr>)))
      | Some ctrBkt \<Rightarrow>
          bindE (refreshCtrState ctrBkt) (\<lambda>ctrBkt'.
            Inr (l\<lparr>rl_ctrs := bins i ctrBkt' (rl_ctrs l)\<rparr>)))"

definition removeDangling :: "string \<Rightarrow> string bucket \<times> string bucket \<Rightarrow> string bucket \<times> string bucket" where
  "removeDangling i = (\<lambda>(idBucket, namesBucket).
     let namesBucket' =
       (case bget idBucket i of
          None \<Rightarrow> namesBucket
        | Some name \<Rightarrow> if bget namesBucket name \<noteq> None then bdel name namesBucket else namesBucket)
     in (bdel i idBucket, namesBucket'))"

definition refreshVolume :: "string \<Rightarrow> string \<Rightarrow> vol_bkt bucket \<Rightarrow> error + vol_bkt bucket" where
  "refreshVolume i name vols =
     bindE (requireE (bget vols i) ErrInternal) (\<lambda>dbVol.
     case vb_state dbVol of
       None \<Rightarrow> Inr vols
     | Some volStateBytes \<Rightarrow>
         bindE (Unmarshal volStateBytes) (\<lambda>oldState.
           Inr (bins i (dbVol\<lparr>vb_state := Some (Marshal (resetVolumeState oldState))\<rparr>) vols)))"

definition Refresh_tx :: "boltdb \<Rightarrow> error + boltdb" where
  "Refresh_tx tx =
     bindE (getIDBucket tx) (\<lambda>idBucket.
     bindE (getNamesBucket tx) (\<lambda>namesBucket.
     bindE (getCtrBucket tx) (\<lambda>ctrsBucket.
     bindE (getPodBucket tx) (\<lambda>podsBucket.
     bindE (getAllVolsBucket tx) (\<lambda>allVolsBucket.
     bindE (getVolBucket tx) (\<lambda>volBucket.
     bindE (getExecBucket tx) (\<lambda>execBucket.
     bindE (getExitCodeBucket tx) (\<lambda>exitCodeBucket.
     bindE (getExitCodeTimeStampBucket tx) (\<lambda>timeStampBucket.
     bindE (ForEach refreshID idBucket
              \<lparr>rl_ctrs = ctrsBucket, rl_pods = podsBucket, rl_toRemove = []\<rparr>) (\<lambda>l.
     let (idBucket', namesBucket') =
       fold removeDangling (rl_toRemove l) (idBucket, namesBucket) in
     bindE (ForEach refreshVolume allVolsBucket volBucket) (\<lambda>volBucket'.
       Inr (tx\<lparr>db_ids := Some idBucket', db_names := Some namesBucket',
               db_ctrs := Some (rl_ctrs l), db_pods := Some (rl_pods l),
               db_vols := Some volBucket',
               db_exec := Some (clearBucket execBucket),
               db_exitCode := Some (clearBucket exitCodeBucket),
               db_exitTime := Some (clearBucket timeStampBucket)\<rparr>))))))))))))"

definition Refresh :: "BoltState \<Rightarrow> (BoltState \<times> (error + unit)) option" where
  "Refresh s =
     (if \<not> bs_valid s then Some (s, Inl ErrDBClosed)
      else pureOp s (UpdateU (\<lambda>tx. lift (Refresh_tx tx))))"

end
