(* ===== verification/BoltInv.thy ===== *)
theory BoltInv
  imports BoltContainers BoltPods BoltVolumes BoltExec BoltNetworks BoltConfig
begin

text \<open>
  The consistency invariant of the state database. A database is read through maps
  (\<open>ids\<close>, \<open>names\<close>, \<open>ctrs\<close>, \<dots>) and the invariant says how the buckets agree:
  identifiers and names are unique across containers and pods, the dependents recorded in a
  container's bucket are exactly the containers that depend on it, members of a pod are exactly
  the containers that name the pod, the volumes a container mounts exist and record the
  container, and every exec session is registered both ways.
\<close>

section \<open>The database as maps\<close>

definition bk :: "'v bucket option \<Rightarrow> 'v bucket" where
  "bk b = (case b of None \<Rightarrow> [] | Some x \<Rightarrow> x)"

lemma bk_Some [simp]: "bk (Some b) = b" and bk_None [simp]: "bk None = []"
  by (simp_all add: bk_def)

abbreviation ids :: "boltdb \<Rightarrow> string \<rightharpoonup> string" where "ids d \<equiv> bget (bk (db_ids d))"
abbreviation names :: "boltdb \<Rightarrow> string \<rightharpoonup> string" where "names d \<equiv> bget (bk (db_names d))"
abbreviation ctrs :: "boltdb \<Rightarrow> string \<rightharpoonup> ctr_bkt" where "ctrs d \<equiv> bget (bk (db_ctrs d))"
abbreviation allCtrs :: "boltdb \<Rightarrow> string \<rightharpoonup> string" where "allCtrs d \<equiv> bget (bk (db_allCtrs d))"
abbreviation pods :: "boltdb \<Rightarrow> string \<rightharpoonup> pod_bkt" where "pods d \<equiv> bget (bk (db_pods d))"
abbreviation allPods :: "boltdb \<Rightarrow> string \<rightharpoonup> string" where "allPods d \<equiv> bget (bk (db_allPods d))"
abbreviation vols :: "boltdb \<Rightarrow> string \<rightharpoonup> vol_bkt" where "vols d \<equiv> bget (bk (db_vols d))"
abbreviation allVols :: "boltdb \<Rightarrow> string \<rightharpoonup> string" where "allVols d \<equiv> bget (bk (db_allVols d))"
abbreviation execs :: "boltdb \<Rightarrow> string \<rightharpoonup> string" where "execs d \<equiv> bget (bk (db_exec d))"

text \<open>Relations between the objects, over the map of container buckets.\<close>

definition config_of :: "(string \<rightharpoonup> ctr_bkt) \<Rightarrow> string \<Rightarrow> ContainerConfig option" where
  "config_of m i =
     (case m i of None \<Rightarrow> None
      | Some b \<Rightarrow> (case cb_config b of Some (Enc cfg) \<Rightarrow> Some cfg | _ \<Rightarrow> None))"

definition depends :: "(string \<rightharpoonup> ctr_bkt) \<Rightarrow> string \<Rightarrow> string \<Rightarrow> bool" where
  "depends m i j \<longleftrightarrow> (case config_of m i of None \<Rightarrow> False | Some cfg \<Rightarrow> j \<in> set (cfg_depends cfg))"

definition dependents :: "(string \<rightharpoonup> ctr_bkt) \<Rightarrow> string \<Rightarrow> string set" where
  "dependents m j = (case m j of None \<Rightarrow> {} | Some b \<Rightarrow> dom (bget (bk (cb_deps b))))"

definition pod_of :: "(string \<rightharpoonup> ctr_bkt) \<Rightarrow> string \<Rightarrow> string option" where
  "pod_of m i = Option.bind (m i) cb_podID"

definition mounts :: "(string \<rightharpoonup> ctr_bkt) \<Rightarrow> string \<Rightarrow> string set" where
  "mounts m i = (case config_of m i of None \<Rightarrow> {} | Some cfg \<Rightarrow> nv_Name ` set (cfg_NamedVolumes cfg))"

definition volume_users :: "(string \<rightharpoonup> vol_bkt) \<Rightarrow> string \<Rightarrow> string set" where
  "volume_users m v = (case m v of None \<Rightarrow> {} | Some b \<Rightarrow> dom (bget (bk (vb_deps b))))"

definition sessions :: "(string \<rightharpoonup> ctr_bkt) \<Rightarrow> string \<Rightarrow> string set" where
  "sessions m i = (case m i of None \<Rightarrow> {} | Some b \<Rightarrow> dom (bget (bk (cb_exec b))))"

definition members :: "(string \<rightharpoonup> pod_bkt) \<Rightarrow> string \<Rightarrow> string \<rightharpoonup> string" where
  "members m p = (case m p of None \<Rightarrow> Map.empty | Some b \<Rightarrow> bget (bk (pb_containers b)))"

section \<open>The invariant\<close>

definition wf_reg :: "boltdb \<Rightarrow> bool" where
  "wf_reg d \<longleftrightarrow>
     registries_inverse (bk (db_ids d)) (bk (db_names d)) \<and>
     (\<forall>i. allCtrs d i = None \<longleftrightarrow> ctrs d i = None) \<and>
     (\<forall>i. allPods d i = None \<longleftrightarrow> pods d i = None) \<and>
     (\<forall>i. ctrs d i = None \<or> pods d i = None) \<and>
     (\<forall>i n. ids d i = Some n \<longleftrightarrow> allCtrs d i = Some n \<or> allPods d i = Some n) \<and>
     ids d [] = None"

text \<open>The key for the pod is only there when the configuration names a pod.\<close>

definition podKey :: "string \<Rightarrow> string option" where
  "podKey p = (if p = [] then None else Some p)"

definition wf_ctr_bkt :: "string \<Rightarrow> string option \<Rightarrow> ctr_bkt \<Rightarrow> bool" where
  "wf_ctr_bkt i name b \<longleftrightarrow>
     (\<exists>cfg st deps. cb_config b = Some (Enc cfg) \<and> cb_state b = Some (Enc st) \<and> cb_deps b = Some deps \<and>
        cfg_ID cfg = i \<and> name = Some (cfg_Name cfg) \<and>
        cb_podID b = podKey (cfg_Pod cfg))"

definition wf_ctrs :: "boltdb \<Rightarrow> bool" where
  "wf_ctrs d \<longleftrightarrow> (\<forall>i b. ctrs d i = Some b \<longrightarrow> wf_ctr_bkt i (allCtrs d i) b)"

definition wf_deps :: "boltdb \<Rightarrow> bool" where
  "wf_deps d \<longleftrightarrow>
     (\<forall>i j. depends (ctrs d) i j \<longleftrightarrow> i \<in> dependents (ctrs d) j) \<and>
     (\<forall>i j. depends (ctrs d) i j \<longrightarrow> pod_of (ctrs d) i = pod_of (ctrs d) j)"

definition wf_pod_bkt :: "string \<Rightarrow> string option \<Rightarrow> pod_bkt \<Rightarrow> bool" where
  "wf_pod_bkt p name b \<longleftrightarrow>
     (\<exists>cfg st cs. pb_config b = Some (Enc cfg) \<and> pb_state b = Some (Enc st) \<and>
        pb_containers b = Some cs \<and> pc_ID cfg = p \<and> name = Some (pc_Name cfg))"

definition wf_pods :: "boltdb \<Rightarrow> bool" where
  "wf_pods d \<longleftrightarrow>
     (\<forall>p b. pods d p = Some b \<longrightarrow> wf_pod_bkt p (allPods d p) b) \<and>
     (\<forall>p i n. members (pods d) p i = Some n \<longleftrightarrow> pod_of (ctrs d) i = Some p \<and> allCtrs d i = Some n)"

definition wf_vols :: "boltdb \<Rightarrow> bool" where
  "wf_vols d \<longleftrightarrow>
     (\<forall>v. allVols d v = None \<longleftrightarrow> vols d v = None) \<and> (\<forall>v n. allVols d v = Some n \<longrightarrow> n = v) \<and>
     (\<forall>v b. vols d v = Some b \<longrightarrow>
        (\<exists>cfg deps. vb_config b = Some (Enc cfg) \<and> vc_Name cfg = v \<and> vb_deps b = Some deps)) \<and>
     (\<forall>i v. v \<in> mounts (ctrs d) i \<longrightarrow> i \<in> volume_users (vols d) v)"

definition wf_exec :: "boltdb \<Rightarrow> bool" where
  "wf_exec d \<longleftrightarrow> (\<forall>s i. execs d s = Some i \<longleftrightarrow> s \<in> sessions (ctrs d) i)"

definition db_wf :: "boltdb \<Rightarrow> bool" where
  "db_wf d \<longleftrightarrow>
     \<not> needsUpdate d \<and> wf_reg d \<and> wf_ctrs d \<and> wf_deps d \<and> wf_pods d \<and> wf_vols d \<and> wf_exec d"

lemmas wf_defs = db_wf_def wf_reg_def wf_ctrs_def wf_deps_def wf_pods_def wf_vols_def wf_exec_def

lemmas rel_defs = config_of_def depends_def dependents_def pod_of_def mounts_def volume_users_def
  sessions_def members_def

lemma db_wf_fresh: "db_wf fresh_db"
  by (simp add: wf_defs rel_defs createBuckets_def blank_db_def CreateBucketIfNotExists_def
      needsUpdate_def registries_inverse_def)

section \<open>What the invariant gives\<close>

lemma needsUpdate_Some:
  assumes "\<not> needsUpdate d"
  obtains i n c ac p ap v av e rc ec et vc where
    "db_ids d = Some i" "db_names d = Some n" "db_ctrs d = Some c" "db_allCtrs d = Some ac"
    "db_pods d = Some p" "db_allPods d = Some ap" "db_vols d = Some v" "db_allVols d = Some av"
    "db_exec d = Some e" "db_runtimeConfig d = Some rc" "db_exitCode d = Some ec"
    "db_exitTime d = Some et" "db_volCtrs d = Some vc"
  using assms by (auto simp: needsUpdate_def)

lemma config_of_Some:
  "config_of m i = Some cfg \<longleftrightarrow> (\<exists>b. m i = Some b \<and> cb_config b = Some (Enc cfg))"
  by (auto simp: config_of_def split: option.splits json.splits)

lemma dependsI: "m i = Some b \<Longrightarrow> cb_config b = Some (Enc cfg) \<Longrightarrow> j \<in> set (cfg_depends cfg) \<Longrightarrow> depends m i j"
  by (simp add: depends_def config_of_def)

lemma wf_ctr_bkt_upd:
  "wf_ctr_bkt i n b \<Longrightarrow> wf_ctr_bkt i n (b\<lparr>cb_deps := Some x\<rparr>)"
  "wf_ctr_bkt i n b \<Longrightarrow> wf_ctr_bkt i n (b\<lparr>cb_deps := map_option f (cb_deps b)\<rparr>)"
  "wf_ctr_bkt i n b \<Longrightarrow> wf_ctr_bkt i n (b\<lparr>cb_exec := e\<rparr>)"
  "wf_ctr_bkt i n b \<Longrightarrow> wf_ctr_bkt i n (b\<lparr>cb_networks := nets\<rparr>)"
  "wf_ctr_bkt i n b \<Longrightarrow> wf_ctr_bkt i n (b\<lparr>cb_aliases := a\<rparr>)"
  "wf_ctr_bkt i n b \<Longrightarrow> wf_ctr_bkt i n (b\<lparr>cb_netNS := ns\<rparr>)"
  "wf_ctr_bkt i n b \<Longrightarrow> wf_ctr_bkt i n (b\<lparr>cb_state := Some (Enc st)\<rparr>)"
  unfolding wf_ctr_bkt_def by auto

lemma wf_ctrsD:
  assumes "wf_ctrs d" "ctrs d i = Some b"
  obtains cfg st deps where "cb_config b = Some (Enc cfg)" "cb_state b = Some (Enc st)"
    "cb_deps b = Some deps" "cfg_ID cfg = i" "allCtrs d i = Some (cfg_Name cfg)"
    "cb_podID b = podKey (cfg_Pod cfg)"
  using assms unfolding wf_ctrs_def wf_ctr_bkt_def by blast

text \<open>Names and identifiers are unique over containers and pods.\<close>

lemma wf_regD:
  assumes "wf_reg d"
  shows "ids d i = Some n \<longleftrightarrow> names d n = Some i"
    and "allCtrs d i = None \<longleftrightarrow> ctrs d i = None"
    and "allPods d i = None \<longleftrightarrow> pods d i = None"
    and "ctrs d i = None \<or> pods d i = None"
    and "ids d i = Some n \<longleftrightarrow> allCtrs d i = Some n \<or> allPods d i = Some n"
    and "ids d [] = None"
  using assms unfolding wf_reg_def registries_inverse_def by iprover+

lemma wf_reg_ctr:
  assumes "wf_reg d" "allCtrs d i = Some n"
  shows "ids d i = Some n" "names d n = Some i" "allPods d i = None"
proof -
  show i: "ids d i = Some n" using wf_regD(5)[OF assms(1)] assms(2) by blast
  show "names d n = Some i" using wf_regD(1)[OF assms(1)] i by blast
  have "ctrs d i \<noteq> None" using wf_regD(2)[OF assms(1), of i] assms(2) by simp
  then show "allPods d i = None" using wf_regD(3,4)[OF assms(1), of i] by auto
qed

lemma wf_reg_pod:
  assumes "wf_reg d" "allPods d i = Some n"
  shows "ids d i = Some n" "names d n = Some i" "allCtrs d i = None"
proof -
  show i: "ids d i = Some n" using wf_regD(5)[OF assms(1)] assms(2) by blast
  show "names d n = Some i" using wf_regD(1)[OF assms(1)] i by blast
  have "pods d i \<noteq> None" using wf_regD(3)[OF assms(1), of i] assms(2) by simp
  then show "allCtrs d i = None" using wf_regD(2,4)[OF assms(1), of i] by auto
qed

lemma wf_reg_free:
  assumes "wf_reg d" "ids d i = None"
  shows "allCtrs d i = None" "allPods d i = None" "ctrs d i = None" "pods d i = None"
proof -
  have no: "\<not> (allCtrs d i = Some n \<or> allPods d i = Some n)" for n
    using wf_regD(5)[OF assms(1), of i n] assms(2) by simp
  show c: "allCtrs d i = None" using no by (cases "allCtrs d i") auto
  show p: "allPods d i = None" using no by (cases "allPods d i") auto
  show "ctrs d i = None" using wf_regD(2)[OF assms(1), of i] c by simp
  show "pods d i = None" using wf_regD(3)[OF assms(1), of i] p by simp
qed

lemma wf_reg_free_name:
  assumes "wf_reg d" "names d n = None"
  shows "allCtrs d i \<noteq> Some n" "allPods d i \<noteq> Some n"
  using wf_reg_ctr(2)[OF assms(1), of i n] wf_reg_pod(2)[OF assms(1), of i n] assms(2) by auto

end
