(* ===== verification/BoltAddCtr.thy ===== *)
theory BoltAddCtr
  imports BoltInv
begin

text \<open>
  What adding a container does to the maps of the database, and that it keeps the invariant. The
  predicate \<open>ctr_added\<close> is the specification; \<open>addContainer_refines\<close> shows that the transaction
  implements it and \<open>ctr_added_wf\<close> that the specification keeps \<open>db_wf\<close>. The first section has the
  updates of the maps that the other operations share.
\<close>

section \<open>Updates of the maps\<close>

definition add_dependent ::
  "string \<Rightarrow> string \<Rightarrow> string set \<Rightarrow> (string \<rightharpoonup> ctr_bkt) \<Rightarrow> string \<rightharpoonup> ctr_bkt" where
  "add_dependent i n D m =
     (\<lambda>j. map_option (\<lambda>b. if j \<in> D then b\<lparr>cb_deps := Some (bins i n (bk (cb_deps b)))\<rparr> else b) (m j))"

definition del_dependent :: "string \<Rightarrow> string set \<Rightarrow> (string \<rightharpoonup> ctr_bkt) \<Rightarrow> string \<rightharpoonup> ctr_bkt" where
  "del_dependent i D m =
     (\<lambda>j. map_option
        (\<lambda>b. if j \<in> D then b\<lparr>cb_deps := map_option (bdel i) (cb_deps b)\<rparr> else b) (m j))"

definition add_user :: "string \<Rightarrow> string set \<Rightarrow> (string \<rightharpoonup> vol_bkt) \<Rightarrow> string \<rightharpoonup> vol_bkt" where
  "add_user i V m =
     (\<lambda>v. map_option
        (\<lambda>b. let deps = bk (vb_deps b) in
             if v \<in> V then b\<lparr>vb_deps := Some (if bget deps i = None then bins i i deps else deps)\<rparr>
             else b) (m v))"

definition add_member :: "string \<Rightarrow> string \<Rightarrow> pod_bkt \<Rightarrow> pod_bkt" where
  "add_member i n b = b\<lparr>pb_containers := map_option (bins i n) (pb_containers b)\<rparr>"

definition del_member :: "string \<Rightarrow> pod_bkt \<Rightarrow> pod_bkt" where
  "del_member i b = b\<lparr>pb_containers := map_option (bdel i) (pb_containers b)\<rparr>"

lemma config_of_deps [simp]:
  "config_of (add_dependent i n D m) = config_of m"
  "config_of (del_dependent i D m) = config_of m"
  by (auto simp: fun_eq_iff config_of_def add_dependent_def del_dependent_def split: option.split)

lemma depends_deps [simp]:
  "depends (add_dependent i n D m) = depends m"
  "depends (del_dependent i D m) = depends m"
  by (simp_all add: fun_eq_iff depends_def)

lemma mounts_deps [simp]:
  "mounts (add_dependent i n D m) = mounts m"
  "mounts (del_dependent i D m) = mounts m"
  by (simp_all add: fun_eq_iff mounts_def)

lemma pod_of_deps [simp]:
  "pod_of (add_dependent i n D m) = pod_of m"
  "pod_of (del_dependent i D m) = pod_of m"
  by (auto simp: fun_eq_iff pod_of_def add_dependent_def del_dependent_def split: option.split bind_split)

lemma sessions_deps [simp]:
  "sessions (add_dependent i n D m) = sessions m"
  "sessions (del_dependent i D m) = sessions m"
  by (auto simp: fun_eq_iff sessions_def add_dependent_def del_dependent_def split: option.split)

lemma dependents_add:
  "dependents (add_dependent i n D m) j =
     dependents m j \<union> (if j \<in> D \<and> m j \<noteq> None then {i} else {})"
  by (auto simp: dependents_def add_dependent_def bolt_simps split: option.split)

lemma dependents_del:
  "dependents (del_dependent i D m) j = dependents m j - (if j \<in> D then {i} else {})"
proof (cases "m j")
  case (Some b)
  then show ?thesis
    by (cases "cb_deps b") (auto simp: dependents_def del_dependent_def bolt_simps)
qed (simp add: dependents_def del_dependent_def)

lemma deps_None [simp]:
  "add_dependent i n D m j = None \<longleftrightarrow> m j = None"
  "del_dependent i D m j = None \<longleftrightarrow> m j = None"
  by (simp_all add: add_dependent_def del_dependent_def)

lemma add_user_None [simp]: "add_user i V m v = None \<longleftrightarrow> m v = None"
  by (simp add: add_user_def)

lemma volume_users_add:
  "volume_users (add_user i V m) v =
     volume_users m v \<union> (if v \<in> V \<and> m v \<noteq> None then {i} else {})"
  by (auto simp: volume_users_def add_user_def Let_def bolt_simps split: option.split)

text \<open>Replacing the bucket of one container.\<close>

lemma config_of_upd:
  "config_of (m(i := b)) j = (if j = i then config_of (\<lambda>_. b) i else config_of m j)"
  by (simp add: config_of_def)

lemma depends_upd:
  "depends (m(i := b)) j k \<longleftrightarrow> (if j = i then depends (\<lambda>_. b) i k else depends m j k)"
  by (simp add: depends_def config_of_upd)

lemma mounts_upd: "mounts (m(i := b)) j = (if j = i then mounts (\<lambda>_. b) i else mounts m j)"
  by (simp add: mounts_def config_of_upd)

lemma dependents_upd:
  "dependents (m(i := b)) j = (if j = i then dependents (\<lambda>_. b) i else dependents m j)"
  by (simp add: dependents_def)

lemma pod_of_upd: "pod_of (m(i := b)) j = (if j = i then pod_of (\<lambda>_. b) i else pod_of m j)"
  by (simp add: pod_of_def)

lemma sessions_upd:
  "sessions (m(i := b)) j = (if j = i then sessions (\<lambda>_. b) i else sessions m j)"
  by (simp add: sessions_def)

lemmas rel_upd = config_of_upd depends_upd mounts_upd dependents_upd pod_of_upd sessions_upd

lemma rel_None:
  assumes "m i = None"
  shows "\<not> depends m i j" "mounts m i = {}" "dependents m i = {}" "pod_of m i = None" "sessions m i = {}"
  using assms by (simp_all add: rel_defs)

section \<open>The loops over dependencies and volumes\<close>

lemma addDependency_eq_Inr:
  "addDependency i n p j b = Inr b' \<longleftrightarrow>
     (\<exists>c deps. bget b j = Some c \<and> cb_podID c = p \<and> cb_deps c = Some deps \<and>
        i \<noteq> [] \<and> length i \<le> MaxKeySize \<and> b' = bins j (c\<lparr>cb_deps := Some (bins i n deps)\<rparr>) b)"
  by (auto simp: addDependency_def err_simps split: option.splits)

lemma addDependencies:
  assumes "foldE (addDependency i n p) ds b = Inr b'" and "distinct ds"
  shows "bget b' = add_dependent i n (set ds) (bget b) \<and>
         (\<forall>j \<in> set ds. \<exists>c. bget b j = Some c \<and> cb_podID c = p)"
  using assms
proof (induction ds arbitrary: b)
  case Nil
  then show ?case by (simp add: add_dependent_def option.map_ident)
next
  case (Cons j ds)
  then obtain c deps where c: "bget b j = Some c" "cb_podID c = p" "cb_deps c = Some deps"
    and r: "foldE (addDependency i n p) ds (bins j (c\<lparr>cb_deps := Some (bins i n deps)\<rparr>) b) = Inr b'"
    by (auto simp: bindE_eq_Inr addDependency_eq_Inr)
  from Cons.prems(2) have "distinct ds" by simp
  note IH = Cons.IH[OF r this, unfolded bget_bins]
  have "\<exists>c. bget b k = Some c \<and> cb_podID c = p" if "k \<in> set ds" for k
    using IH that Cons.prems(2) by (cases "k = j") auto
  moreover have "bget b' = add_dependent i n (set ds) ((bget b)(j \<mapsto> c\<lparr>cb_deps := Some (bins i n deps)\<rparr>))"
    using IH by blast
  ultimately show ?case using c Cons.prems(2)
    by (auto simp: add_dependent_def fun_eq_iff)
qed

lemma addVolumeDependency_add_user:
  assumes "addVolumeDependency i vol b = Inr b'"
  shows "bget b' = add_user i {nv_Name vol} (bget b) \<and> bget b (nv_Name vol) \<noteq> None"
proof -
  from assms obtain x where x: "bget b (nv_Name vol) = Some x"
    by (auto simp: addVolumeDependency_def err_simps)
  have "b' = bins (nv_Name vol) (x\<lparr>vb_deps := Some (if bget (bk (vb_deps x)) i = None
     then bins i i (bk (vb_deps x)) else bk (vb_deps x))\<rparr>) b"
    using assms x unfolding addVolumeDependency_def bk_def[symmetric]
    by (auto simp: err_simps Let_def)
  with x show ?thesis
    by (auto simp: add_user_def bolt_simps fun_eq_iff Let_def option.map_ident)
qed

lemma add_user_insert: "add_user i V (add_user i {v} m) = add_user i (insert v V) m"
  by (auto simp: add_user_def fun_eq_iff Let_def bolt_simps option.map_comp comp_def
      intro!: option.map_cong0)

lemma addVolumeDependencies:
  assumes "foldE (addVolumeDependency i) vs b = Inr b'"
  shows "bget b' = add_user i (nv_Name ` set vs) (bget b) \<and>
         (\<forall>v \<in> set vs. bget b (nv_Name v) \<noteq> None)"
  using assms
proof (induction vs arbitrary: b)
  case Nil
  then show ?case by (simp add: add_user_def option.map_ident Let_def)
next
  case (Cons v vs)
  then obtain b1 where b1: "addVolumeDependency i v b = Inr b1" and r: "foldE (addVolumeDependency i) vs b1 = Inr b'"
    by (auto simp: bindE_eq_Inr)
  from addVolumeDependency_add_user[OF b1] Cons.IH[OF r] show ?case
    by (simp add: add_user_insert)
qed

section \<open>Adding a container\<close>

text \<open>
  The specification of adding container \<open>ctr\<close> to pod \<open>pod\<close> (or to none): both registries were free,
  every dependency exists and is in the same pod, every volume exists; afterwards the
  registries, the dependencies' lists of dependents, the pod's members and the volumes' users
  have exactly the new container in addition.
\<close>

definition new_bkt_of :: "Container \<Rightarrow> string option \<Rightarrow> ctr_bkt \<Rightarrow> bool" where
  "new_bkt_of ctr podID b \<longleftrightarrow>
     cb_config b = Some (MarshalConfig (ctr_config ctr)) \<and> cb_state b = Some (Enc (ctr_state ctr)) \<and>
     cb_podID b = podID \<and> cb_deps b = Some [] \<and> cb_exec b = None"

definition ctr_added :: "Container \<Rightarrow> Pod option \<Rightarrow> ctr_bkt \<Rightarrow> boltdb \<Rightarrow> boltdb \<Rightarrow> bool" where
  "ctr_added ctr pod b d d' \<longleftrightarrow>
     (let i = ctr_ID ctr; n = ctr_Name ctr; D = set (Dependencies ctr); m = (ctrs d)(i \<mapsto> b);
          V = nv_Name ` set (cfg_NamedVolumes (ctr_config ctr)); podID = map_option pod_ID pod in
      i \<noteq> [] \<and> n \<noteq> [] \<and> ids d i = None \<and> names d n = None \<and>
      ids d' = (ids d)(i \<mapsto> n) \<and> names d' = (names d)(n \<mapsto> i) \<and>
      allCtrs d' = (allCtrs d)(i \<mapsto> n) \<and>
      new_bkt_of ctr podID b \<and>
      (\<forall>j \<in> D. \<exists>c. m j = Some c \<and> cb_podID c = podID) \<and>
      ctrs d' = add_dependent i n D m \<and>
      (case podID of
         None \<Rightarrow> pods d' = pods d
       | Some p \<Rightarrow> (\<exists>pb. pods d p = Some pb \<and> pods d' = (pods d)(p \<mapsto> add_member i n pb))) \<and>
      (\<forall>v \<in> V. vols d v \<noteq> None) \<and> vols d' = add_user i V (vols d) \<and>
      allPods d' = allPods d \<and> allVols d' = allVols d \<and> execs d' = execs d \<and>
      (needsUpdate d' \<longleftrightarrow> needsUpdate d))"

lemma checkFree_eq_Inr [err_simps]:
  "checkFree i n ib nb ab e1 e2 = Inr u \<longleftrightarrow> bget ib i = None \<and> bget nb n = None"
  by (auto simp: checkFree_def split: option.splits)

lemma newCtrBucket_new:
  "newCtrBucket ctr podID nets = Inr b \<Longrightarrow> new_bkt_of ctr podID b"
  by (auto simp: newCtrBucket_def new_bkt_of_def err_simps empty_ctr_bkt_def Marshal_def
      split: if_splits)

lemma getPodCtrs_eq_Inr:
  "getPodCtrs pod d = Inr r \<longleftrightarrow>
     (case pod of
        None \<Rightarrow> r = None
      | Some p \<Rightarrow> (\<exists>pb b cs. db_pods d = Some pb \<and> bget pb (pod_ID p) = Some b \<and>
                     pb_containers b = Some cs \<and> r = Some (pb, b, cs)))"
  by (auto simp: getPodCtrs_def err_simps db_defs split: option.splits)

lemma addContainer_refines:
  assumes "addContainer_tx ctr pod nets d = Inr d'"
  shows "\<exists>b. newCtrBucket ctr (map_option pod_ID pod) nets = Inr b \<and> ctr_added ctr pod b d d'"
proof -
  let ?i = "ctr_ID ctr" and ?n = "ctr_Name ctr" and ?podID = "map_option pod_ID pod"
  from assms obtain ib nb cb ab vb b cb' pods' vb' where
      d: "db_ids d = Some ib" "db_names d = Some nb" "db_ctrs d = Some cb" "db_allCtrs d = Some ab"
         "db_vols d = Some vb"
    and free: "bget ib ?i = None" "bget nb ?n = None" and ne: "?i \<noteq> []" "?n \<noteq> []"
    and b: "newCtrBucket ctr ?podID nets = Inr b"
    and deps: "foldE (addDependency ?i ?n ?podID) (Dependencies ctr)
                 (bins ?i b (bins ?i empty_ctr_bkt cb)) = Inr cb'"
    and pods: "case pod of
         None \<Rightarrow> pods' = db_pods d
       | Some p \<Rightarrow> (\<exists>pb x cs. db_pods d = Some pb \<and> bget pb (pod_ID p) = Some x \<and>
           pb_containers x = Some cs \<and>
           pods' = Some (bins (pod_ID p) (x\<lparr>pb_containers := Some (bins ?i ?n cs)\<rparr>) pb))"
    and vols: "foldE (addVolumeDependency ?i) (cfg_NamedVolumes (ctr_config ctr)) vb = Inr vb'"
    and d': "d' = d\<lparr>db_ids := Some (bins ?i ?n ib), db_names := Some (bins ?n ?i nb),
                db_ctrs := Some cb', db_allCtrs := Some (bins ?i ?n ab),
                db_pods := pods', db_vols := Some vb'\<rparr>"
    by (cases pod) (auto simp: addContainer_tx_def Let_def db_defs err_simps getPodCtrs_eq_Inr)
  have "pods' = None \<longleftrightarrow> db_pods d = None" using pods by (auto split: option.splits)
  then have nu: "needsUpdate d' \<longleftrightarrow> needsUpdate d"
    by (simp add: d' d needsUpdate_def)
  have pd: "case ?podID of None \<Rightarrow> bk pods' = bk (db_pods d)
     | Some p \<Rightarrow> (\<exists>pb. bget (bk (db_pods d)) p = Some pb \<and>
          bget (bk pods') = (bget (bk (db_pods d)))(p \<mapsto> add_member ?i ?n pb))"
    using pods by (auto simp: add_member_def bolt_simps split: option.splits)
  have "ctr_added ctr pod b d d'"
    using free ne newCtrBucket_new[OF b] addVolumeDependencies[OF vols] nu pd
      addDependencies[OF deps distinct_Dependencies]
    by (cases pod) (simp_all add: ctr_added_def Let_def d d' bolt_simps)
  with b show ?thesis by blast
qed

subsection \<open>The invariant is kept\<close>

lemma cfg_depends_rewrite [simp]: "cfg_depends (cfg\<lparr>cfg_rewrite := r\<rparr>) = cfg_depends cfg"
  by (simp add: cfg_depends_def)

lemma rel_new_bkt:
  assumes "new_bkt_of ctr podID b"
  shows "depends (\<lambda>_. Some b) i j \<longleftrightarrow> j \<in> set (Dependencies ctr)"
    and "mounts (\<lambda>_. Some b) i = nv_Name ` set (cfg_NamedVolumes (ctr_config ctr))"
    and "dependents (\<lambda>_. Some b) i = {}" and "sessions (\<lambda>_. Some b) i = {}"
    and "pod_of (\<lambda>_. Some b) i = podID"
  using assms by (simp_all add: new_bkt_of_def rel_defs MarshalConfig_def Marshal_def Dependencies_def)

lemma ctr_addedD:
  assumes "ctr_added ctr pod b d d'"
  shows "ids d (ctr_ID ctr) = None" "names d (ctr_Name ctr) = None" "ctr_ID ctr \<noteq> []"
    "ids d' = (ids d)(ctr_ID ctr \<mapsto> ctr_Name ctr)" "names d' = (names d)(ctr_Name ctr \<mapsto> ctr_ID ctr)"
    "allCtrs d' = (allCtrs d)(ctr_ID ctr \<mapsto> ctr_Name ctr)"
    "new_bkt_of ctr (map_option pod_ID pod) b"
    "ctrs d' = add_dependent (ctr_ID ctr) (ctr_Name ctr) (set (Dependencies ctr)) ((ctrs d)(ctr_ID ctr \<mapsto> b))"
    "vols d' = add_user (ctr_ID ctr) (nv_Name ` set (cfg_NamedVolumes (ctr_config ctr))) (vols d)"
    "allPods d' = allPods d" "allVols d' = allVols d" "execs d' = execs d"
    "needsUpdate d' \<longleftrightarrow> needsUpdate d"
  using assms by (simp_all add: ctr_added_def Let_def)

lemma ctr_added_pods:
  assumes "ctr_added ctr pod b d d'"
  shows "pod = None \<Longrightarrow> pods d' = pods d"
    and "pod = Some p \<Longrightarrow> \<exists>pb. pods d (pod_ID p) = Some pb \<and>
           pods d' = (pods d)(pod_ID p \<mapsto> add_member (ctr_ID ctr) (ctr_Name ctr) pb)"
  using assms by (simp_all add: ctr_added_def Let_def)

lemma ctr_added_pods_None:
  assumes "ctr_added ctr pod b d d'"
  shows "pods d' p = None \<longleftrightarrow> pods d p = None"
  using ctr_added_pods[OF assms] by (cases pod) (auto split: if_splits)

lemma ctr_added_wf_reg:
  assumes "ctr_added ctr pod b d d'" "wf_reg d"
  shows "wf_reg d'"
proof -
  note a = ctr_addedD[OF assms(1)] and w = wf_regD[OF assms(2)] and f = wf_reg_free[OF assms(2) ctr_addedD(1)[OF assms(1)]]
  have "registries_inverse (bk (db_ids d')) (bk (db_names d'))"
    using reg.inverse_ins[of "bk (db_ids d)" "bk (db_names d)" "ctr_ID ctr" "ctr_Name ctr"] a(1,2) assms(2)
    by (simp add: registries_inverse_def wf_reg_def a(4,5) bolt_simps)
  moreover have "ids d' i = Some n \<longleftrightarrow> allCtrs d' i = Some n \<or> allPods d' i = Some n" for i n
    using w(5)[of i n] f by (auto simp: a)
  moreover have "ctrs d' i = None \<or> pods d' i = None" for i
    using w(4)[of i] f ctr_added_pods_None[OF assms(1)] by (auto simp: a)
  ultimately show ?thesis
    using w(2,3,6) ctr_added_pods_None[OF assms(1)] a(3) unfolding wf_reg_def by (simp add: a) (metis a(3))
qed

lemma ctr_added_wf_ctrs:
  assumes "ctr_added ctr pod b d d'" "wf_ctrs d"
    and "cfg_Pod (ctr_config ctr) = (case pod of None \<Rightarrow> [] | Some p \<Rightarrow> pod_ID p)"
    and "pod \<noteq> None \<Longrightarrow> pod_ID (the pod) \<noteq> []"
  shows "wf_ctrs d'"
  unfolding wf_ctrs_def
proof (intro allI impI)
  fix i c assume c: "ctrs d' i = Some c"
  note a = ctr_addedD[OF assms(1)]
  show "wf_ctr_bkt i (allCtrs d' i) c"
  proof (cases "i = ctr_ID ctr")
    case True
    with c a(7) assms(3,4) show ?thesis
      by (cases pod) (auto simp: a(6,8) add_dependent_def new_bkt_of_def wf_ctr_bkt_def podKey_def MarshalConfig_def Marshal_def)
  next
    case False
    with c obtain c0 where "ctrs d i = Some c0" "c = c0 \<or> c = c0\<lparr>cb_deps := Some (bins (ctr_ID ctr) (ctr_Name ctr) (bk (cb_deps c0)))\<rparr>"
      by (auto simp: a(8) add_dependent_def split: if_splits)
    with assms(2) False wf_ctr_bkt_upd(1) show ?thesis
      by (auto simp: wf_ctrs_def a(6))
  qed
qed

lemma ctr_added_wf_deps:
  assumes "ctr_added ctr pod b d d'" "wf_reg d" "wf_deps d"
  shows "wf_deps d'"
proof -
  note a = ctr_addedD[OF assms(1)]
  note none = rel_None[where m = "ctrs d", OF wf_reg_free(3)[OF assms(2) a(1)]] and new = rel_new_bkt[OF a(7)]
  have w: "depends (ctrs d) i j \<longleftrightarrow> i \<in> dependents (ctrs d) j"
    "depends (ctrs d) i j \<Longrightarrow> pod_of (ctrs d) i = pod_of (ctrs d) j" for i j
    using assms(3) by (auto simp: wf_deps_def)
  have D: "\<exists>c. ((ctrs d)(ctr_ID ctr \<mapsto> b)) j = Some c \<and> cb_podID c = map_option pod_ID pod"
    if "j \<in> set (Dependencies ctr)" for j
    using assms(1) that by (simp add: ctr_added_def Let_def)
  have "depends (ctrs d') i j \<longleftrightarrow> i \<in> dependents (ctrs d') j" for i j
    using D[of j] w(1)[of i j] w(1)[of i "ctr_ID ctr"] w(1)[of "ctr_ID ctr" j] none
    by (auto simp: a(8) dependents_add rel_upd new simp del: fun_upd_apply split: if_splits)
  moreover have "pod_of (ctrs d') i = pod_of (ctrs d') j" if "depends (ctrs d') i j" for i j
    using that D[of j] w(2)[of i j] w(1)[of i j] none
    by (auto simp: a(8) rel_upd new pod_of_def[of "ctrs d"] split: if_splits)
  ultimately show ?thesis by (simp add: wf_deps_def)
qed

lemma members_add_member:
  assumes "m p = Some pb" "pb_containers pb \<noteq> None"
  shows "members (m(p \<mapsto> add_member i n pb)) q = (if q = p then (members m p)(i \<mapsto> n) else members m q)"
  using assms by (auto simp: members_def add_member_def bolt_simps)

lemma wf_podsD:
  assumes "wf_pods d"
  shows "pods d p = Some b \<Longrightarrow> wf_pod_bkt p (allPods d p) b"
    and "members (pods d) p i = Some n \<longleftrightarrow> pod_of (ctrs d) i = Some p \<and> allCtrs d i = Some n"
  using assms unfolding wf_pods_def by iprover+

lemma ctr_added_wf_pods:
  assumes "ctr_added ctr pod b d d'" "wf_reg d" "wf_pods d"
  shows "wf_pods d'"
proof -
  note a = ctr_addedD[OF assms(1)] and w = wf_podsD[OF assms(3)]
  note none = rel_None(4)[where m = "ctrs d", OF wf_reg_free(3)[OF assms(2) a(1)]]
    and new = rel_new_bkt(5)[OF a(7)]
  have po: "pod_of (ctrs d') i = (if i = ctr_ID ctr then map_option pod_ID pod else pod_of (ctrs d) i)" for i
    by (simp add: a(8) pod_of_upd new)
  show ?thesis
  proof (cases pod)
    case None
    have "members (pods d) p (ctr_ID ctr) = None" for p
      using w(2)[of p "ctr_ID ctr"] none by (cases "members (pods d) p (ctr_ID ctr)") auto
    with w None none show ?thesis
      by (auto simp: wf_pods_def po ctr_added_pods(1)[OF assms(1) None] a(6,10))
  next
    case (Some q)
    then obtain pb where pb: "pods d (pod_ID q) = Some pb"
      "pods d' = (pods d)(pod_ID q \<mapsto> add_member (ctr_ID ctr) (ctr_Name ctr) pb)"
      using ctr_added_pods(2)[OF assms(1)] by blast
    from w(1)[OF pb(1)] have ne: "pb_containers pb \<noteq> None" by (auto simp: wf_pod_bkt_def)
    have "members (pods d) p (ctr_ID ctr) = None" for p
      using w(2)[of p "ctr_ID ctr"] none by (cases "members (pods d) p (ctr_ID ctr)") auto
    then have "members (pods d') p i = Some n \<longleftrightarrow> pod_of (ctrs d') i = Some p \<and> allCtrs d' i = Some n" for p i n
      using w(2)[of p i n] by (auto simp: pb(2) members_add_member[where m = "pods d", OF pb(1) ne] po Some a(6))
    moreover have "wf_pod_bkt p (allPods d' p) x" if "pods d' p = Some x" for p x
      using that w(1)[of p] w(1)[OF pb(1)]
      by (auto simp: pb(2) a(10) wf_pod_bkt_def add_member_def split: if_splits)
    ultimately show ?thesis by (simp add: wf_pods_def)
  qed
qed

lemma wf_volsD:
  assumes "wf_vols d"
  shows "allVols d v = None \<longleftrightarrow> vols d v = None" and "allVols d v = Some n \<Longrightarrow> n = v"
    and "vols d v = Some b \<Longrightarrow>
           \<exists>cfg deps. vb_config b = Some (Enc cfg) \<and> vc_Name cfg = v \<and> vb_deps b = Some deps"
    and "v \<in> mounts (ctrs d) i \<Longrightarrow> i \<in> volume_users (vols d) v"
  using assms unfolding wf_vols_def by iprover+

lemma ctr_added_wf_vols:
  assumes "ctr_added ctr pod b d d'" "wf_vols d"
  shows "wf_vols d'"
proof -
  note a = ctr_addedD[OF assms(1)] and w = wf_volsD[OF assms(2)]
  have V: "vols d v \<noteq> None" if "v \<in> nv_Name ` set (cfg_NamedVolumes (ctr_config ctr))" for v
    using assms(1) that unfolding ctr_added_def Let_def by blast
  have "\<exists>cfg deps. vb_config x = Some (Enc cfg) \<and> vc_Name cfg = v \<and> vb_deps x = Some deps"
    if x: "vols d' v = Some x" for v x
  proof -
    from x obtain y where "vols d v = Some y" "vb_config x = vb_config y" "vb_deps y \<noteq> None \<longrightarrow> vb_deps x \<noteq> None"
      by (auto simp: a(9) add_user_def Let_def split: if_splits)
    with w(3) show ?thesis by fastforce
  qed
  moreover have "i \<in> volume_users (vols d') v" if "v \<in> mounts (ctrs d') i" for i v
    using that w(4)[of v i] V[of v] by (auto simp: a(8,9) mounts_upd rel_new_bkt(2)[OF a(7)] volume_users_add split: if_splits)
  ultimately show ?thesis
    using w(1,2) by (simp add: wf_vols_def a(9,11))
qed

lemma ctr_added_wf_exec:
  assumes "ctr_added ctr pod b d d'" "wf_reg d" "wf_exec d"
  shows "wf_exec d'"
  using assms(3) ctr_addedD[OF assms(1)] rel_None(5)[where m = "ctrs d", OF wf_reg_free(3)[OF assms(2) ctr_addedD(1)[OF assms(1)]]]
  by (simp add: wf_exec_def sessions_upd rel_new_bkt(4))

lemma ctr_added_wf:
  assumes "ctr_added ctr pod b d d'" "db_wf d"
    and "cfg_Pod (ctr_config ctr) = (case pod of None \<Rightarrow> [] | Some p \<Rightarrow> pod_ID p)"
  shows "db_wf d'"
proof -
  have w: "\<not> needsUpdate d" "wf_reg d" "wf_ctrs d" "wf_deps d" "wf_pods d" "wf_vols d" "wf_exec d"
    using assms(2) by (simp_all add: db_wf_def)
  have "pods d [] = None" by (rule wf_reg_free(4)[OF w(2) wf_regD(6)[OF w(2)]])
  then have "pod_ID p \<noteq> []" if "pod = Some p" for p
    using ctr_added_pods(2)[OF assms(1) that] by force
  then have "pod \<noteq> None \<Longrightarrow> pod_ID (the pod) \<noteq> []" by auto
  from ctr_added_wf_ctrs[OF assms(1) w(3) assms(3) this] show ?thesis
    using ctr_addedD(13)[OF assms(1)] w ctr_added_wf_reg[OF assms(1)] ctr_added_wf_deps[OF assms(1)]
      ctr_added_wf_pods[OF assms(1)] ctr_added_wf_vols[OF assms(1)] ctr_added_wf_exec[OF assms(1)]
    by (simp add: db_wf_def)
qed

end
