(* ===== verification/BoltRemoveCtr.thy ===== *)
theory BoltRemoveCtr
  imports BoltAddCtr
begin

text \<open>
  What removing a container does to the maps of the database (\<open>ctr_removed\<close>), that the transaction
  implements it (\<open>removeContainer_refines\<close>) and that the invariant is kept (\<open>ctr_removed_wf\<close>).
\<close>

section \<open>Removing a container\<close>

lemma bdel_idem: "bdel i (bdel i b) = bdel i b"
  by (simp add: bdel_def)

lemma removeDependency_del:
  "bget (removeDependency i j b) = del_dependent i {j} (bget b)"
proof (cases "bget b j")
  case None
  then have "del_dependent i {j} (bget b) k = bget b k" for k
    by (cases "bget b k") (auto simp: del_dependent_def)
  with None show ?thesis by (auto simp: removeDependency_def)
next
  case (Some c)
  then have "del_dependent i {j} (bget b) k =
      ((bget b)(j \<mapsto> c\<lparr>cb_deps := map_option (bdel i) (cb_deps c)\<rparr>)) k" for k
    by (cases "bget b k") (auto simp: del_dependent_def)
  with Some show ?thesis
    by (cases "cb_deps c") (auto simp: removeDependency_def bolt_simps fun_eq_iff)
qed

lemma del_dependent_insert:
  "del_dependent i D (del_dependent i {j} m) = del_dependent i (insert j D) m"
  by (auto simp: del_dependent_def fun_eq_iff option.map_comp comp_def bdel_idem
      intro!: option.map_cong0)

lemma removeDependencies:
  "bget (fold (removeDependency i) ds b) = del_dependent i (set ds) (bget b)"
proof (induction ds arbitrary: b)
  case Nil
  then show ?case by (simp add: del_dependent_def option.map_ident)
next
  case (Cons j ds)
  then show ?case by (simp add: removeDependency_del del_dependent_insert)
qed

text \<open>
  The inverted test on the dependencies of a volume makes the loop over the volumes change
  nothing.
\<close>

lemma removeVolumeDependency_id:
  assumes "removeVolumeDependency i vol b = Inr b'"
  shows "bget b' = bget b"
proof (cases "bget b (nv_Name vol)")
  case (Some x)
  with assms obtain deps where "vb_deps x = Some deps"
    "b' = (if bget deps i = None then bins (nv_Name vol) (x\<lparr>vb_deps := Some (bdel i deps)\<rparr>) b else b)"
    by (auto simp: removeVolumeDependency_def err_simps split: if_splits)
  then show ?thesis
    using Some by (auto simp: bdel_notin bolt_simps fun_eq_iff)
qed (use assms in \<open>simp add: removeVolumeDependency_def\<close>)

lemma removeVolumeDependencies:
  assumes "foldE (removeVolumeDependency i) vs b = Inr b'"
  shows "bget b' = bget b"
  by (rule foldE_invariant[OF assms, where I = "\<lambda>x. bget x = bget b"])
    (simp_all add: removeVolumeDependency_id)

definition ctr_removed :: "Container \<Rightarrow> Pod option \<Rightarrow> boltdb \<Rightarrow> boltdb \<Rightarrow> bool" where
  "ctr_removed ctr pod d d' \<longleftrightarrow>
     (let i = ctr_ID ctr; n = ctr_Name ctr in
      ctrs d i \<noteq> None \<and> sessions (ctrs d) i = {} \<and> dependents (ctrs d) i = {} \<and>
      ids d' = (ids d)(i := None) \<and> names d' = (names d)(n := None) \<and>
      allCtrs d' = (allCtrs d)(i := None) \<and>
      ctrs d' = del_dependent i (set (Dependencies ctr)) ((ctrs d)(i := None)) \<and>
      (case map_option pod_ID pod of
         None \<Rightarrow> pods d' = pods d
       | Some p \<Rightarrow> (\<exists>pb. pods d p = Some pb \<and> pods d' = (pods d)(p \<mapsto> del_member i pb))) \<and>
      vols d' = vols d \<and>
      allPods d' = allPods d \<and> allVols d' = allVols d \<and> execs d' = execs d \<and>
      (needsUpdate d' \<longleftrightarrow> needsUpdate d))"

lemma getPodDB_eq_Inr:
  "getPodDB pod d = Inr r \<longleftrightarrow>
     (case pod of
        None \<Rightarrow> r = None
      | Some p \<Rightarrow> (\<exists>pb b. db_pods d = Some pb \<and> bget pb (pod_ID p) = Some b \<and> r = Some (pb, b)))"
  by (auto simp: getPodDB_def err_simps db_defs split: option.splits)

lemma bkeys_Nil_iff: "bkeys b = [] \<longleftrightarrow> b = []"
  by (simp add: bkeys_def)

lemma noSessions_eq_Inr:
  "(case e of None \<Rightarrow> Inr () | Some s \<Rightarrow> lift (guardE (bkeys s = []) err)) = Inr u \<longleftrightarrow> bk e = []"
  by (cases e) (simp_all add: err_simps bkeys_Nil_iff)

lemma deleteCtr_eq_Inr:
  "(case DeleteBucket b k of Inl x \<Rightarrow> Inl err | Inr y \<Rightarrow> Inr y) = Inr b' \<longleftrightarrow>
     bget b k \<noteq> None \<and> b' = bdel k b"
  by (auto simp: DeleteBucket_def)

lemma removeMember_eq_Inr:
  "(case cs of None \<Rightarrow> Inr x | Some y \<Rightarrow> bindE (lift (requireE (bget y i) err)) (\<lambda>_. Inr (f y))) = Inr r \<longleftrightarrow>
     (cs = None \<and> r = x \<or> (\<exists>y. cs = Some y \<and> bget y i \<noteq> None \<and> r = f y))"
  by (cases cs) (auto simp: err_simps)

lemma removeContainer_refines:
  assumes "removeContainer ctr pod d = Inr d'"
  shows "ctr_removed ctr pod d d'"
proof -
  let ?i = "ctr_ID ctr" and ?n = "ctr_Name ctr"
  from assms obtain ib nb cb ab vb c pods' vb' where
      d: "db_ids d = Some ib" "db_names d = Some nb" "db_ctrs d = Some cb" "db_allCtrs d = Some ab"
         "db_vols d = Some vb"
    and c: "bget cb ?i = Some c" "bk (cb_exec c) = []" "cb_deps c = Some []"
    and pods: "case pod of
         None \<Rightarrow> pods' = db_pods d
       | Some p \<Rightarrow> (\<exists>pb x. db_pods d = Some pb \<and> bget pb (pod_ID p) = Some x \<and>
           (pb_containers x = None \<and> pods' = db_pods d \<or>
            (\<exists>cs. pb_containers x = Some cs \<and>
               pods' = Some (bins (pod_ID p) (x\<lparr>pb_containers := Some (bdel ?i cs)\<rparr>) pb))))"
    and vols: "foldE (removeVolumeDependency ?i) (cfg_NamedVolumes (ctr_config ctr)) vb = Inr vb'"
    and d': "d' = d\<lparr>db_ids := Some (bdel ?i ib), db_names := Some (bdel ?n nb),
                db_ctrs := Some (fold (removeDependency ?i) (Dependencies ctr) (bdel ?i cb)),
                db_allCtrs := Some (bdel ?i ab), db_pods := pods', db_vols := Some vb'\<rparr>"
    by (cases pod) (auto simp: removeContainer_def Let_def db_defs err_simps getPodDB_eq_Inr
        bkeys_Nil_iff noSessions_eq_Inr deleteCtr_eq_Inr removeMember_eq_Inr)
  have "pods' = None \<longleftrightarrow> db_pods d = None" using pods by (auto split: option.splits)
  then have nu: "needsUpdate d' \<longleftrightarrow> needsUpdate d"
    by (simp add: d' d needsUpdate_def)
  have pd: "case map_option pod_ID pod of None \<Rightarrow> bk pods' = bk (db_pods d)
     | Some p \<Rightarrow> (\<exists>pb. bget (bk (db_pods d)) p = Some pb \<and>
          bget (bk pods') = (bget (bk (db_pods d)))(p \<mapsto> del_member ?i pb))"
    using pods by (auto simp: del_member_def bolt_simps fun_eq_iff split: option.splits)
  show ?thesis
    using c removeVolumeDependencies[OF vols] nu pd
    by (cases pod) (simp_all add: ctr_removed_def Let_def d d' bolt_simps removeDependencies
        sessions_def dependents_def)
qed

subsection \<open>The invariant is kept\<close>

text \<open>
  The container object in memory agrees with the stored configuration on the name, the pod and
  the dependencies. These never change between retrieval and removal except by a rename,
  which updates both.
\<close>

definition synced :: "Container \<Rightarrow> boltdb \<Rightarrow> bool" where
  "synced ctr d \<longleftrightarrow>
     (case config_of (ctrs d) (ctr_ID ctr) of
        None \<Rightarrow> True
      | Some cfg \<Rightarrow> cfg_Name cfg = ctr_Name ctr \<and> cfg_Pod cfg = cfg_Pod (ctr_config ctr) \<and>
                    set (cfg_depends cfg) = set (Dependencies ctr))"

lemma ctr_removedD:
  assumes "ctr_removed ctr pod d d'"
  shows "ctrs d (ctr_ID ctr) \<noteq> None" "sessions (ctrs d) (ctr_ID ctr) = {}"
    "dependents (ctrs d) (ctr_ID ctr) = {}"
    "ids d' = (ids d)(ctr_ID ctr := None)" "names d' = (names d)(ctr_Name ctr := None)"
    "allCtrs d' = (allCtrs d)(ctr_ID ctr := None)"
    "ctrs d' = del_dependent (ctr_ID ctr) (set (Dependencies ctr)) ((ctrs d)(ctr_ID ctr := None))"
    "vols d' = vols d" "allPods d' = allPods d" "allVols d' = allVols d" "execs d' = execs d"
    "needsUpdate d' \<longleftrightarrow> needsUpdate d"
    "pod = None \<Longrightarrow> pods d' = pods d"
    "pod = Some p \<Longrightarrow> \<exists>pb. pods d (pod_ID p) = Some pb \<and>
       pods d' = (pods d)(pod_ID p \<mapsto> del_member (ctr_ID ctr) pb)"
  using assms by (simp_all add: ctr_removed_def Let_def)

lemma rel_no_bkt:
  "\<not> depends (\<lambda>_. None) i j" "mounts (\<lambda>_. None) i = {}" "dependents (\<lambda>_. None) i = {}"
  "sessions (\<lambda>_. None) i = {}" "pod_of (\<lambda>_. None) i = None"
  by (simp_all add: rel_defs)

lemma synced_facts:
  assumes "synced ctr d" "wf_reg d" "wf_ctrs d" "ctrs d (ctr_ID ctr) \<noteq> None"
  shows "allCtrs d (ctr_ID ctr) = Some (ctr_Name ctr)" "ids d (ctr_ID ctr) = Some (ctr_Name ctr)"
    "pod_of (ctrs d) (ctr_ID ctr) = podKey (cfg_Pod (ctr_config ctr))"
    "depends (ctrs d) (ctr_ID ctr) j \<longleftrightarrow> j \<in> set (Dependencies ctr)"
proof -
  from assms(4) obtain b where b: "ctrs d (ctr_ID ctr) = Some b" by blast
  obtain cfg where cfg: "cb_config b = Some (Enc cfg)" "allCtrs d (ctr_ID ctr) = Some (cfg_Name cfg)"
    "cb_podID b = podKey (cfg_Pod cfg)"
    using wf_ctrsD[OF assms(3) b] by metis
  then have s: "cfg_Name cfg = ctr_Name ctr" "cfg_Pod cfg = cfg_Pod (ctr_config ctr)"
    "set (cfg_depends cfg) = set (Dependencies ctr)"
    using assms(1) b by (simp_all add: synced_def config_of_def)
  show "allCtrs d (ctr_ID ctr) = Some (ctr_Name ctr)" using cfg s by simp
  then show "ids d (ctr_ID ctr) = Some (ctr_Name ctr)" by (rule wf_reg_ctr(1)[OF assms(2)])
  show "pod_of (ctrs d) (ctr_ID ctr) = podKey (cfg_Pod (ctr_config ctr))"
    using b cfg s by (simp add: pod_of_def)
  show "depends (ctrs d) (ctr_ID ctr) j \<longleftrightarrow> j \<in> set (Dependencies ctr)"
    using b cfg s by (simp add: depends_def config_of_def)
qed

lemma ctr_removed_pods_None:
  assumes "ctr_removed ctr pod d d'"
  shows "pods d' p = None \<longleftrightarrow> pods d p = None"
  using ctr_removedD(13,14)[OF assms] by (cases pod) (auto split: if_splits)

lemma ctr_removed_wf_reg:
  assumes "ctr_removed ctr pod d d'" "wf_reg d" "wf_ctrs d" "synced ctr d"
  shows "wf_reg d'"
proof -
  note r = ctr_removedD[OF assms(1)] and w = wf_regD[OF assms(2)]
  note sy = synced_facts[OF assms(4,2,3) r(1)]
  have "registries_inverse (bk (db_ids d')) (bk (db_names d'))"
    using reg.inverse_del[of "bk (db_ids d)" "bk (db_names d)" "ctr_ID ctr" "ctr_Name ctr"] sy(2) assms(2)
    by (simp add: registries_inverse_def wf_reg_def r(4,5) bolt_simps)
  moreover have "ids d' i = Some n \<longleftrightarrow> allCtrs d' i = Some n \<or> allPods d' i = Some n" for i n
    using w(5)[of i n] wf_reg_ctr(3)[OF assms(2) sy(1)] by (auto simp: r(4,6,9))
  moreover have "ctrs d' i = None \<or> pods d' i = None" for i
    using w(4)[of i] ctr_removed_pods_None[OF assms(1)] by (auto simp: r(7))
  ultimately show ?thesis
    using w(2,3,6) ctr_removed_pods_None[OF assms(1)] unfolding wf_reg_def
    by (simp add: r(4,6,7,9))
qed

lemma ctr_removed_wf_ctrs:
  assumes "ctr_removed ctr pod d d'" "wf_ctrs d"
  shows "wf_ctrs d'"
  unfolding wf_ctrs_def
proof (intro allI impI)
  fix i c assume c: "ctrs d' i = Some c"
  note r = ctr_removedD[OF assms(1)]
  from c obtain c0 where "i \<noteq> ctr_ID ctr" "ctrs d i = Some c0"
    "c = c0 \<or> c = c0\<lparr>cb_deps := map_option (bdel (ctr_ID ctr)) (cb_deps c0)\<rparr>"
    by (auto simp: r(7) del_dependent_def split: if_splits)
  with assms(2) wf_ctr_bkt_upd(2) show "wf_ctr_bkt i (allCtrs d' i) c"
    by (auto simp: wf_ctrs_def r(6))
qed

lemma ctr_removed_wf_deps:
  assumes "ctr_removed ctr pod d d'" "wf_reg d" "wf_ctrs d" "wf_deps d" "synced ctr d"
  shows "wf_deps d'"
proof -
  note r = ctr_removedD[OF assms(1)]
  note sy = synced_facts[OF assms(5,2,3) r(1)]
  have w: "depends (ctrs d) i j \<longleftrightarrow> i \<in> dependents (ctrs d) j"
    "depends (ctrs d) i j \<Longrightarrow> pod_of (ctrs d) i = pod_of (ctrs d) j" for i j
    using assms(4) by (auto simp: wf_deps_def)
  have nd: "\<not> depends (ctrs d) i (ctr_ID ctr)" for i using w(1) r(3) by blast
  have "depends (ctrs d') i j \<longleftrightarrow> i \<in> dependents (ctrs d') j" for i j
    using w(1)[of i j] nd[of i] sy(4)[of j]
    by (auto simp: r(7) dependents_del rel_upd rel_no_bkt)
  moreover have "pod_of (ctrs d') i = pod_of (ctrs d') j" if "depends (ctrs d') i j" for i j
  proof -
    have "depends (ctrs d) i j" "i \<noteq> ctr_ID ctr"
      using that by (auto simp: r(7) depends_upd rel_no_bkt split: if_splits)
    moreover from this nd[of i] have "j \<noteq> ctr_ID ctr" by auto
    ultimately show ?thesis using w(2)[of i j] by (simp add: r(7) pod_of_upd)
  qed
  ultimately show ?thesis by (simp add: wf_deps_def)
qed

lemma members_del_member:
  assumes "m p = Some pb"
  shows "members (m(p \<mapsto> del_member i pb)) q = (if q = p then (members m p)(i := None) else members m q)"
  using assms by (cases "pb_containers pb") (auto simp: members_def del_member_def bolt_simps)

lemma ctr_removed_wf_pods:
  assumes "ctr_removed ctr pod d d'" "wf_reg d" "wf_ctrs d" "wf_pods d" "synced ctr d"
    and pod: "cfg_Pod (ctr_config ctr) = (case pod of None \<Rightarrow> [] | Some p \<Rightarrow> pod_ID p)"
  shows "wf_pods d'"
proof -
  note r = ctr_removedD[OF assms(1)] and w = wf_podsD[OF assms(4)]
  note sy = synced_facts[OF assms(5,2,3) r(1)]
  have po: "pod_of (ctrs d') i = (if i = ctr_ID ctr then None else pod_of (ctrs d) i)" for i
    by (simp add: r(7) pod_of_upd rel_no_bkt)
  have none: "members (pods d) p (ctr_ID ctr) = None" if "podKey (cfg_Pod (ctr_config ctr)) \<noteq> Some p" for p
    using w(2)[of p "ctr_ID ctr"] that sy(3) by (cases "members (pods d) p (ctr_ID ctr)") auto
  show ?thesis
  proof (cases pod)
    case None
    with pod have "members (pods d) p (ctr_ID ctr) = None" for p
      using none by (simp add: podKey_def)
    moreover have "pod_of (ctrs d) (ctr_ID ctr) = None" using sy(3) pod None by (simp add: podKey_def)
    ultimately show ?thesis
      using w by (auto simp: wf_pods_def po r(13)[OF None] r(6,9))
  next
    case (Some q)
    then obtain pb where pb: "pods d (pod_ID q) = Some pb"
      "pods d' = (pods d)(pod_ID q \<mapsto> del_member (ctr_ID ctr) pb)"
      using r(14) by blast
    have mm: "members (pods d') p = (if p = pod_ID q then (members (pods d) (pod_ID q))(ctr_ID ctr := None)
      else members (pods d) p)" for p
      unfolding pb(2) by (rule members_del_member) (rule pb(1))
    have "members (pods d) p (ctr_ID ctr) = None" if "p \<noteq> pod_ID q" for p
      using that none[of p] pod by (auto simp: podKey_def Some split: if_splits)
    then have "members (pods d') p i = Some n \<longleftrightarrow> pod_of (ctrs d') i = Some p \<and> allCtrs d' i = Some n" for p i n
      using w(2)[of p i n] by (auto simp: mm po r(6))
    moreover have "wf_pod_bkt p (allPods d' p) x" if "pods d' p = Some x" for p x
      using that w(1)[of p] w(1)[OF pb(1)]
      by (auto simp: pb(2) r(9) wf_pod_bkt_def del_member_def split: if_splits)
    ultimately show ?thesis by (simp add: wf_pods_def)
  qed
qed

lemma ctr_removed_wf_vols:
  assumes "ctr_removed ctr pod d d'" "wf_vols d"
  shows "wf_vols d'"
proof -
  note r = ctr_removedD[OF assms(1)] and w = wf_volsD[OF assms(2)]
  have "i \<in> volume_users (vols d') v" if "v \<in> mounts (ctrs d') i" for i v
    using that w(4)[of v i] by (auto simp: r(7,8) mounts_upd rel_no_bkt split: if_splits)
  with w show ?thesis by (simp add: wf_vols_def r(8,10))
qed

lemma ctr_removed_wf_exec:
  assumes "ctr_removed ctr pod d d'" "wf_exec d"
  shows "wf_exec d'"
  using assms(2) ctr_removedD[OF assms(1)]
  by (simp add: wf_exec_def sessions_upd rel_no_bkt)

lemma ctr_removed_wf:
  assumes "ctr_removed ctr pod d d'" "db_wf d" "synced ctr d"
    and "cfg_Pod (ctr_config ctr) = (case pod of None \<Rightarrow> [] | Some p \<Rightarrow> pod_ID p)"
  shows "db_wf d'"
  using assms(2-4) ctr_removedD(12)[OF assms(1)] ctr_removed_wf_reg[OF assms(1)]
    ctr_removed_wf_ctrs[OF assms(1)] ctr_removed_wf_deps[OF assms(1)]
    ctr_removed_wf_pods[OF assms(1)] ctr_removed_wf_vols[OF assms(1)] ctr_removed_wf_exec[OF assms(1)]
  by (simp add: db_wf_def)

end
