(* ===== verification/BoltPodInv.thy ===== *)
theory BoltPodInv
  imports BoltRemoveCtr
begin

text \<open>
  The pod operations and the invariant: adding, saving and removing a pod, and removing
  every container of a pod at once. The specification \<open>pod_emptied\<close> of the last says what
  \<open>RemovePodContainers\<close> does to the maps.
\<close>

section \<open>Adding a pod\<close>

lemma AddPod_tx_maps:
  assumes "AddPod_tx pod d = Inr d'"
  shows "pods d' = (pods d)(pod_ID pod \<mapsto> \<lparr>pb_config = Some (Enc (pod_config pod)),
           pb_state = Some (Enc (pod_state pod)), pb_containers = Some []\<rparr>)"
    and "pod_ID pod \<noteq> []" "ids d (pod_ID pod) = None" "names d (pod_Name pod) = None"
    and "ids d' = (ids d)(pod_ID pod \<mapsto> pod_Name pod)" "names d' = (names d)(pod_Name pod \<mapsto> pod_ID pod)"
    and "allPods d' = (allPods d)(pod_ID pod \<mapsto> pod_Name pod)"
    and "ctrs d' = ctrs d" "allCtrs d' = allCtrs d" "vols d' = vols d" "allVols d' = allVols d"
    and "execs d' = execs d" "needsUpdate d' \<longleftrightarrow> needsUpdate d"
  using assms
  by (auto simp: AddPod_tx_def Let_def db_defs err_simps bolt_simps Marshal_def empty_pod_bkt_def
      needsUpdate_def)

lemma members_upd_pod:
  "members (m(p := b)) q = (if q = p then members (\<lambda>_. b) p else members m q)"
  by (simp add: members_def)

lemma pod_of_registered:
  assumes "wf_reg d" "wf_pods d" "pod_of (ctrs d) i = Some p"
  shows "pods d p \<noteq> None"
proof -
  from assms(3) have "ctrs d i \<noteq> None" by (cases "ctrs d i") (auto simp: pod_of_def)
  then obtain n where "allCtrs d i = Some n" using wf_regD(2)[OF assms(1), of i] by auto
  with assms(3) have "members (pods d) p i = Some n" using wf_podsD(2)[OF assms(2)] by blast
  then show ?thesis by (cases "pods d p") (auto simp: members_def)
qed

lemma AddPod_tx_wf:
  assumes "AddPod_tx pod d = Inr d'" "db_wf d"
  shows "db_wf d'"
proof -
  have w: "\<not> needsUpdate d" "wf_reg d" "wf_ctrs d" "wf_deps d" "wf_pods d" "wf_vols d" "wf_exec d"
    using assms(2) by (simp_all add: db_wf_def)
  note a = AddPod_tx_maps[OF assms(1)]
  note f = wf_reg_free[OF w(2) a(3)] and wr = wf_regD[OF w(2)] and wp = wf_podsD[OF w(5)]
  obtain b where b: "pb_config b = Some (Enc (pod_config pod))" "pb_state b = Some (Enc (pod_state pod))"
    "pb_containers b = Some []" "pods d' = (pods d)(pod_ID pod \<mapsto> b)" 
    by (rule that[OF _ _ _ a(1)]) simp_all
  have "registries_inverse (bk (db_ids d')) (bk (db_names d'))"
    using reg.inverse_ins[of "bk (db_ids d)" "bk (db_names d)" "pod_ID pod" "pod_Name pod"] a(3,4) w(2)
    by (simp add: registries_inverse_def wf_reg_def a(5,6) bolt_simps)
  moreover have "ids d' i = Some n \<longleftrightarrow> allCtrs d' i = Some n \<or> allPods d' i = Some n" for i n
    using wr(5)[of i n] f by (auto simp: a(5,7,9))
  moreover have "ctrs d' i = None \<or> pods d' i = None" for i
    using wr(4)[of i] f by (auto simp: a(8) b(4))
  ultimately have "wf_reg d'"
    using wr(2,3,6) a(2) unfolding wf_reg_def by (auto simp: a(5,7-9) b(4))
  moreover have "members (pods d') p i = Some n \<longleftrightarrow> pod_of (ctrs d') i = Some p \<and> allCtrs d' i = Some n" for p i n
    using wp(2)[of p i n] pod_of_registered[OF w(2,5), of i p] f(4)
    by (auto simp: b(3,4) a(8,9) members_upd_pod members_def[of "\<lambda>_. Some b"])
  moreover have "wf_pod_bkt p (allPods d' p) x" if "pods d' p = Some x" for p x
    using that wp(1)[of p x] b(1-3) by (auto simp: b(4) a(7) wf_pod_bkt_def split: if_splits)
  ultimately show ?thesis
    using w by (simp add: db_wf_def wf_ctrs_def wf_deps_def wf_pods_def wf_vols_def wf_exec_def a(8-13))
qed

section \<open>Removing a pod\<close>

text \<open>The pod object in memory has the name under which the pod is registered.\<close>

definition pod_synced :: "Pod \<Rightarrow> boltdb \<Rightarrow> bool" where
  "pod_synced pod d \<longleftrightarrow> allPods d (pod_ID pod) \<in> {None, Some (pod_Name pod)}"

lemma RemovePod_tx_maps:
  assumes "RemovePod_tx pod d = Inr d'"
  shows "\<exists>b. pods d (pod_ID pod) = Some b \<and> bk (pb_containers b) = []"
    and "ids d' = (ids d)(pod_ID pod := None)" "names d' = (names d)(pod_Name pod := None)"
    and "allPods d' = (allPods d)(pod_ID pod := None)" "pods d' = (pods d)(pod_ID pod := None)"
    and "ctrs d' = ctrs d" "allCtrs d' = allCtrs d" "vols d' = vols d" "allVols d' = allVols d"
    and "execs d' = execs d" "needsUpdate d' \<longleftrightarrow> needsUpdate d"
proof -
  have e: "(case c of None \<Rightarrow> Inr () | Some x \<Rightarrow> lift (guardE (x = []) ErrCtrExists)) = Inr u \<longleftrightarrow> bk c = []"
    for c :: "string bucket option" and u
    by (cases c) (simp_all add: err_simps)
  show "\<exists>b. pods d (pod_ID pod) = Some b \<and> bk (pb_containers b) = []"
    "ids d' = (ids d)(pod_ID pod := None)" "names d' = (names d)(pod_Name pod := None)"
    "allPods d' = (allPods d)(pod_ID pod := None)" "pods d' = (pods d)(pod_ID pod := None)"
    "ctrs d' = ctrs d" "allCtrs d' = allCtrs d" "vols d' = vols d" "allVols d' = allVols d"
    "execs d' = execs d" "needsUpdate d' \<longleftrightarrow> needsUpdate d"
    using assms by (auto simp: RemovePod_tx_def Let_def db_defs err_simps e bolt_simps needsUpdate_def)
qed

lemma RemovePod_tx_wf:
  assumes "RemovePod_tx pod d = Inr d'" "db_wf d" "pod_synced pod d"
  shows "db_wf d'"
proof -
  have w: "\<not> needsUpdate d" "wf_reg d" "wf_ctrs d" "wf_deps d" "wf_pods d" "wf_vols d" "wf_exec d"
    using assms(2) by (simp_all add: db_wf_def)
  note r = RemovePod_tx_maps[OF assms(1)]
  note wr = wf_regD[OF w(2)] and wp = wf_podsD[OF w(5)]
  obtain b where b: "pods d (pod_ID pod) = Some b" "bk (pb_containers b) = []" using r(1) by blast
  then have ap: "allPods d (pod_ID pod) = Some (pod_Name pod)"
    using wr(3)[of "pod_ID pod"] assms(3) by (auto simp: pod_synced_def)
  have none: "members (pods d) (pod_ID pod) = Map.empty" using b by (simp add: members_def)
  have "registries_inverse (bk (db_ids d')) (bk (db_names d'))"
    using reg.inverse_del[of "bk (db_ids d)" "bk (db_names d)" "pod_ID pod" "pod_Name pod"]
      wf_reg_pod(1)[OF w(2) ap] w(2)
    by (simp add: registries_inverse_def wf_reg_def r(2,3) bolt_simps)
  moreover have "ids d' i = Some n \<longleftrightarrow> allCtrs d' i = Some n \<or> allPods d' i = Some n" for i n
    using wr(5)[of i n] wf_reg_pod(3)[OF w(2) ap] by (auto simp: r(2,4,7))
  moreover have "ctrs d' i = None \<or> pods d' i = None" for i
    using wr(4)[of i] by (auto simp: r(5,6))
  ultimately have "wf_reg d'"
    using wr(2,3,6) unfolding wf_reg_def by (simp add: r(2,4-7))
  moreover have "members (pods d') p i = Some n \<longleftrightarrow> pod_of (ctrs d') i = Some p \<and> allCtrs d' i = Some n" for p i n
    using wp(2)[of p i n] none
    by (auto simp: r(5-7) members_upd_pod members_def[of "\<lambda>_. None"])
  moreover have "wf_pod_bkt p (allPods d' p) x" if "pods d' p = Some x" for p x
    using that wp(1)[of p x] by (auto simp: r(4,5) split: if_splits)
  ultimately show ?thesis
    using w by (simp add: db_wf_def wf_ctrs_def wf_deps_def wf_pods_def wf_vols_def wf_exec_def r(6-11))
qed

section \<open>Removing the containers of a pod\<close>

text \<open>The loop removes exactly the members and their names.\<close>

lemma removePodContainer_eq_Inr:
  assumes "removePodContainer pcs i n l = Inr l'"
  shows "bget (lp_ctrs l) i \<noteq> None" and "l' = l\<lparr>lp_ctrs := bdel i (lp_ctrs l), lp_ids := bdel i (lp_ids l),
     lp_names := bdel n (lp_names l), lp_allCtrs := bdel i (lp_allCtrs l)\<rparr>"
  using assms by (auto simp: removePodContainer_def err_simps deleteCtr_eq_Inr)

lemma removePodContainers_loop:
  assumes "ForEach (removePodContainer pcs) b l = Inr l'"
  shows "distinct (map fst b) \<and>
     bget (lp_ctrs l') = bget (lp_ctrs l) |` (- fst ` set b) \<and>
     bget (lp_ids l') = bget (lp_ids l) |` (- fst ` set b) \<and>
     bget (lp_names l') = bget (lp_names l) |` (- snd ` set b) \<and>
     bget (lp_allCtrs l') = bget (lp_allCtrs l) |` (- fst ` set b) \<and>
     (\<forall>i \<in> fst ` set b. bget (lp_ctrs l) i \<noteq> None)"
  using assms
proof (induction b arbitrary: l)
  case Nil
  then show ?case by (simp add: restrict_map_def)
next
  case (Cons kv b)
  obtain i n where kv: "kv = (i, n)" by (cases kv)
  let ?l1 = "l\<lparr>lp_ctrs := bdel i (lp_ctrs l), lp_ids := bdel i (lp_ids l),
     lp_names := bdel n (lp_names l), lp_allCtrs := bdel i (lp_allCtrs l)\<rparr>"
  from Cons.prems obtain t where "removePodContainer pcs i n l = Inr t" "ForEach (removePodContainer pcs) b t = Inr l'"
    by (auto simp: kv bindE_eq_Inr)
  then have i: "bget (lp_ctrs l) i \<noteq> None" and r: "ForEach (removePodContainer pcs) b ?l1 = Inr l'"
    using removePodContainer_eq_Inr by blast+
  have upd: "(m(k := None)) |` (- A) = m |` (- insert k A)" for m :: "string \<rightharpoonup> 'a" and k A
    by (auto simp: restrict_map_def)
  have "i \<notin> fst ` set b" and "\<forall>j \<in> fst ` set b. bget (lp_ctrs l) j \<noteq> None"
    using Cons.IH[OF r] by (auto simp: bolt_simps split: if_splits)
  with i Cons.IH[OF r] show ?case
    by (simp add: kv bolt_simps upd del: fun_upd_apply restrict_fun_upd)
qed

lemma bget_distinct: "distinct (map fst b) \<Longrightarrow> (k, v) \<in> set b \<longleftrightarrow> bget b k = Some v"
  by (induction b) (auto simp: rev_image_eqI split: if_splits)

definition pod_emptied :: "string \<Rightarrow> boltdb \<Rightarrow> boltdb \<Rightarrow> bool" where
  "pod_emptied p d d' \<longleftrightarrow>
     (let M = members (pods d) p in
      ctrs d' = ctrs d |` (- dom M) \<and> ids d' = ids d |` (- dom M) \<and> allCtrs d' = allCtrs d |` (- dom M) \<and>
      names d' = names d |` (- ran M) \<and>
      (\<exists>b. pods d p = Some b \<and> pods d' = (pods d)(p \<mapsto> b\<lparr>pb_containers := Some []\<rparr>)) \<and>
      vols d' = vols d \<and> allPods d' = allPods d \<and> allVols d' = allVols d \<and> execs d' = execs d \<and>
      (needsUpdate d' \<longleftrightarrow> needsUpdate d))"

lemma RemovePodContainers_refines:
  assumes "RemovePodContainers_tx pod d = Inr d'"
  shows "pod_emptied (pod_ID pod) d d'"
proof -
  from assms obtain pb cb ab ib nb b cs l where
      d: "db_pods d = Some pb" "db_ctrs d = Some cb" "db_allCtrs d = Some ab" "db_ids d = Some ib"
         "db_names d = Some nb"
    and b: "bget pb (pod_ID pod) = Some b" "pb_containers b = Some cs"
    and l: "ForEach (removePodContainer cs) cs
        \<lparr>lp_ctrs = cb, lp_ids = ib, lp_names = nb, lp_allCtrs = ab\<rparr> = Inr l"
    and d': "d' = d\<lparr>db_ctrs := Some (lp_ctrs l), db_ids := Some (lp_ids l),
        db_names := Some (lp_names l), db_allCtrs := Some (lp_allCtrs l),
        db_pods := Some (bins (pod_ID pod) (b\<lparr>pb_containers := Some []\<rparr>) pb)\<rparr>"
    by (auto simp: RemovePodContainers_tx_def Let_def db_defs err_simps)
  note lp = removePodContainers_loop[OF l, simplified]
  have M: "members (pods d) (pod_ID pod) = bget cs" using d b by (simp add: members_def)
  have "fst ` set cs = dom (bget cs)" using set_bkeys[of cs] by (simp add: bkeys_def)
  moreover have "snd ` set cs = ran (bget cs)"
    using bget_distinct[OF lp[THEN conjunct1]] by (force simp: ran_def)
  ultimately show ?thesis
    using lp b unfolding pod_emptied_def Let_def M
    by (simp add: d d' bolt_simps needsUpdate_def)
qed

lemma members_iff:
  assumes "wf_reg d" "wf_pods d"
  shows "i \<in> dom (members (pods d) p) \<longleftrightarrow> pod_of (ctrs d) i = Some p"
proof -
  have "\<exists>n. allCtrs d i = Some n" if "pod_of (ctrs d) i = Some p"
    using that wf_regD(2)[OF assms(1), of i] by (cases "ctrs d i") (auto simp: pod_of_def)
  then show ?thesis using wf_podsD(2)[OF assms(2), of p i] by auto
qed

lemma rel_restrict:
  "depends (m |` A) i j \<longleftrightarrow> i \<in> A \<and> depends m i j"
  "dependents (m |` A) j = (if j \<in> A then dependents m j else {})"
  "mounts (m |` A) i = (if i \<in> A then mounts m i else {})"
  "sessions (m |` A) i = (if i \<in> A then sessions m i else {})"
  "pod_of (m |` A) i = (if i \<in> A then pod_of m i else None)"
  by (simp_all add: rel_defs restrict_map_def)

lemma pod_emptiedD:
  assumes "pod_emptied p d d'"
  shows "ctrs d' = ctrs d |` (- dom (members (pods d) p))" "ids d' = ids d |` (- dom (members (pods d) p))"
    "allCtrs d' = allCtrs d |` (- dom (members (pods d) p))" "names d' = names d |` (- ran (members (pods d) p))"
    "\<exists>b. pods d p = Some b \<and> pods d' = (pods d)(p \<mapsto> b\<lparr>pb_containers := Some []\<rparr>)"
    "vols d' = vols d" "allPods d' = allPods d" "allVols d' = allVols d" "execs d' = execs d"
    "needsUpdate d' \<longleftrightarrow> needsUpdate d"
  using assms by (simp_all add: pod_emptied_def Let_def)

lemma restrict_eq_Some: "(m |` A) k = Some v \<longleftrightarrow> k \<in> A \<and> m k = Some v"
  by (simp add: restrict_map_def)

lemma restrict_eq_None: "(m |` A) k = None \<longleftrightarrow> k \<in> A \<longrightarrow> m k = None"
  by (simp add: restrict_map_def)

lemma pod_emptied_wf_reg:
  assumes "pod_emptied p d d'" "wf_reg d" "wf_pods d"
  shows "wf_reg d'"
proof -
  note e = pod_emptiedD[OF assms(1)] and w = wf_regD[OF assms(2)] and wp = wf_podsD[OF assms(3)]
  let ?M = "members (pods d) p"
  have pn: "pods d' i = None \<longleftrightarrow> pods d i = None" for i using e(5) by (auto split: if_splits)
  have M: "names d n = Some i" if "?M i = Some n" for i n
    using that wp(2) wf_reg_ctr(2)[OF assms(2)] by blast
  have "ids d' i = Some n \<longleftrightarrow> names d' n = Some i" for i n
  proof -
    have "i \<in> dom ?M \<longleftrightarrow> n \<in> ran ?M" if "ids d i = Some n"
    proof
      assume "i \<in> dom ?M"
      then obtain k where k: "?M i = Some k" by blast
      from M[OF k] have "ids d i = Some k" using w(1) by blast
      with that k show "n \<in> ran ?M" by (simp add: ranI)
    next
      assume "n \<in> ran ?M"
      then obtain j where j: "?M j = Some n" by (auto simp: ran_def)
      from that have "names d n = Some i" using w(1) by blast
      with M[OF j] j show "i \<in> dom ?M" by auto
    qed
    then show ?thesis using w(1)[of i n] by (auto simp: e(2,4) restrict_eq_Some)
  qed
  moreover have ap: "?M i = Some y \<Longrightarrow> allPods d i = None" for i y
    using wp(2) wf_reg_ctr(3)[OF assms(2)] by blast
  have "ids d' i = Some n \<longleftrightarrow> allCtrs d' i = Some n \<or> allPods d' i = Some n" for i n
    using w(5)[of i n] ap[of i] by (auto simp: e(2,3,7) restrict_eq_Some)
  moreover have "ctrs d' i = None \<or> pods d' i = None" for i
    using w(4)[of i] pn[of i] by (auto simp: e(1) restrict_eq_None)
  ultimately show ?thesis
    using w(2,3,6) pn unfolding wf_reg_def registries_inverse_def
    by (simp add: e(1,2,3,7) restrict_eq_None)
qed

lemma pod_emptied_wf:
  assumes "pod_emptied p d d'" "db_wf d"
    and "\<And>i. pod_of (ctrs d) i = Some p \<Longrightarrow> sessions (ctrs d) i = {}"
  shows "db_wf d'"
proof -
  have w: "\<not> needsUpdate d" "wf_reg d" "wf_ctrs d" "wf_deps d" "wf_pods d" "wf_vols d" "wf_exec d"
    using assms(2) by (simp_all add: db_wf_def)
  note e = pod_emptiedD[OF assms(1)] and mem = members_iff[OF w(2,5), of _ p]
    and wp = wf_podsD[OF w(5)]
  obtain b where b: "pods d p = Some b" "pods d' = (pods d)(p \<mapsto> b\<lparr>pb_containers := Some []\<rparr>)"
    using e(5) by blast
  have "wf_ctrs d'"
    using w(3) by (auto simp: wf_ctrs_def e(1,3) restrict_eq_Some)
  moreover have "wf_deps d'"
    unfolding wf_deps_def e(1) rel_restrict
  proof (intro conjI allI impI)
    fix i j
    have d: "depends (ctrs d) i j \<longleftrightarrow> i \<in> dependents (ctrs d) j"
      "depends (ctrs d) i j \<Longrightarrow> i \<in> dom (members (pods d) p) \<longleftrightarrow> j \<in> dom (members (pods d) p)"
      using w(4) by (simp_all add: wf_deps_def mem)
    then show "(i \<in> - dom (members (pods d) p) \<and> depends (ctrs d) i j) \<longleftrightarrow>
      i \<in> (if j \<in> - dom (members (pods d) p) then dependents (ctrs d) j else {})" by auto
    assume a: "i \<in> - dom (members (pods d) p) \<and> depends (ctrs d) i j"
    moreover from a have "pod_of (ctrs d) i = pod_of (ctrs d) j" using w(4) by (simp add: wf_deps_def)
    ultimately show "(if i \<in> - dom (members (pods d) p) then pod_of (ctrs d) i else None) =
      (if j \<in> - dom (members (pods d) p) then pod_of (ctrs d) j else None)"
      using d(2) by auto
  qed
  moreover have "members (pods d') q i = Some n \<longleftrightarrow> pod_of (ctrs d') i = Some q \<and> allCtrs d' i = Some n" for q i n
    using wp(2)[of q i n] mem[of i]
    by (cases "q = p") (auto simp: b(2) e(1,3) members_upd_pod members_def[of "\<lambda>_. Some x" for x]
        rel_restrict restrict_eq_Some)
  moreover have "wf_pod_bkt q (allPods d' q) x" if "pods d' q = Some x" for q x
    using that wp(1)[of q x] wp(1)[OF b(1)]
    by (auto simp: b(2) e(7) wf_pod_bkt_def split: if_splits)
  moreover have "wf_vols d'"
    using wf_volsD[OF w(6)] by (simp add: wf_vols_def e(1,6,8) rel_restrict)
  moreover have "wf_exec d'"
    using w(7) assms(3) mem by (auto simp: wf_exec_def e(1,9) rel_restrict)
  ultimately show ?thesis
    using w(1) pod_emptied_wf_reg[OF assms(1) w(2,5)] e(10) by (simp add: db_wf_def wf_pods_def)
qed

end
