(* ===== verification/BoltStateInv.thy ===== *)
theory BoltStateInv
  imports BoltPodInv
begin

text \<open>
  The operations that write one bucket and the invariant: the state, the networks, the exec
  sessions and the configuration of a container, its renaming, the state and
  configuration of a pod, and the volumes.
\<close>

section \<open>Replacing the bucket of a container\<close>

lemma wf_ctr_exec_upd:
  assumes "db_wf d" "ctrs d i = Some b"
    and same: "cb_config b' = cb_config b" "cb_podID b' = cb_podID b" "cb_deps b' = cb_deps b"
    and st: "cb_state b' = Some (Enc st)"
    and ex: "\<And>s j. bget e s = Some j \<longleftrightarrow>
               (if j = i then s \<in> dom (bget (bk (cb_exec b'))) else execs d s = Some j)"
  shows "db_wf (d\<lparr>db_exec := Some e, db_ctrs := Some (bins i b' (bk (db_ctrs d)))\<rparr>)"
proof -
  let ?d = "d\<lparr>db_exec := Some e, db_ctrs := Some (bins i b' (bk (db_ctrs d)))\<rparr>"
  have w: "\<not> needsUpdate d" "wf_reg d" "wf_ctrs d" "wf_deps d" "wf_pods d" "wf_vols d" "wf_exec d"
    using assms(1) by (simp_all add: db_wf_def)
  have c: "ctrs ?d = (ctrs d)(i \<mapsto> b')" by (simp add: bolt_simps)
  have rel: "config_of (ctrs ?d) = config_of (ctrs d)" "dependents (ctrs ?d) = dependents (ctrs d)"
    "pod_of (ctrs ?d) = pod_of (ctrs d)"
    using assms(2) same unfolding c by (auto simp: fun_eq_iff rel_defs)
  then have rel2: "depends (ctrs ?d) = depends (ctrs d)" "mounts (ctrs ?d) = mounts (ctrs d)"
    by (simp_all add: fun_eq_iff depends_def mounts_def)
  have "bget (bins i b' (bk (db_ctrs d))) j = None \<longleftrightarrow> ctrs d j = None" for j
    using assms(2) by (simp add: bolt_simps)
  then have "wf_reg ?d" using w(2) by (simp add: wf_reg_def)
  moreover have "wf_ctr_bkt i (allCtrs d i) b'"
    using wf_ctrsD[OF w(3) assms(2)] st same unfolding wf_ctr_bkt_def by metis
  then have "wf_ctrs ?d" using w(3) unfolding wf_ctrs_def c by simp
  moreover have "wf_exec ?d"
    using w(7) ex unfolding wf_exec_def c sessions_upd
    by (auto simp: sessions_def[of "\<lambda>_. x" for x])
  ultimately show ?thesis
    using w(1,4-6) unfolding db_wf_def wf_deps_def wf_pods_def wf_vols_def rel rel2
    by (simp add: needsUpdate_def)
qed

lemma wf_ctr_upd:
  assumes "db_wf d" "ctrs d i = Some b"
    and "cb_config b' = cb_config b" "cb_podID b' = cb_podID b" "cb_deps b' = cb_deps b"
      "cb_exec b' = cb_exec b" "cb_state b' = Some (Enc st)"
  shows "db_wf (d\<lparr>db_ctrs := Some (bins i b' (bk (db_ctrs d)))\<rparr>)"
proof -
  have "db_exec d = Some (bk (db_exec d))"
    using assms(1) by (auto simp: db_wf_def needsUpdate_def)
  then have "d\<lparr>db_exec := Some (bk (db_exec d))\<rparr> = d" by simp
  moreover have "execs d s = Some j \<longleftrightarrow> (if j = i then s \<in> dom (bget (bk (cb_exec b'))) else execs d s = Some j)" for s j
    using assms(1,2,6) by (auto simp: db_wf_def wf_exec_def sessions_def)
  ultimately show ?thesis
    using wf_ctr_exec_upd[OF assms(1-5,7), of "bk (db_exec d)"] by simp
qed

lemma wf_ctr_state:
  assumes "db_wf d" "ctrs d i = Some b"
  shows "\<exists>st. cb_state b = Some (Enc st)"
  using wf_ctrsD[of d i b] assms by (auto simp: db_wf_def)

lemma SaveContainer_tx_wf:
  assumes "SaveContainer_tx ctr d = Inr d'" "db_wf d"
  shows "db_wf d'"
proof -
  from assms(1) obtain b where "ctrs d (ctr_ID ctr) = Some b"
    "d' = d\<lparr>db_ctrs := Some (bins (ctr_ID ctr) (if cs_NetNS (ctr_state ctr) = []
        then b\<lparr>cb_state := Some (Enc (ctr_state ctr)), cb_netNS := None\<rparr>
        else b\<lparr>cb_state := Some (Enc (ctr_state ctr))\<rparr>) (bk (db_ctrs d)))\<rparr>"
    by (auto simp: SaveContainer_tx_def Let_def db_defs err_simps Marshal_def split: if_splits)
  then show ?thesis using wf_ctr_upd[OF assms(2)] by simp
qed

lemma networkModify_tx_wf:
  assumes "networkModify_tx ctr net opts new d = Inr d'" "db_wf d"
  shows "db_wf d'"
proof -
  from assms(1) obtain b nb where b: "ctrs d (ctr_ID ctr) = Some b"
    and d': "d' = d\<lparr>db_ctrs := Some (bins (ctr_ID ctr) (b\<lparr>cb_networks := Some nb\<rparr>) (bk (db_ctrs d)))\<rparr>"
    by (auto simp: networkModify_tx_def db_defs err_simps)
  from wf_ctr_state[OF assms(2) b] show ?thesis
    unfolding d' by (auto intro: wf_ctr_upd[OF assms(2) b])
qed

lemma NetworkDisconnect_tx_wf:
  assumes "NetworkDisconnect_tx ctr net d = Inr d'" "db_wf d"
  shows "db_wf d'"
proof -
  from assms(1) obtain b nb where b: "ctrs d (ctr_ID ctr) = Some b"
    and d': "d' = d\<lparr>db_ctrs := Some (bins (ctr_ID ctr)
        (case cb_aliases b of
           None \<Rightarrow> b\<lparr>cb_networks := Some nb\<rparr>
         | Some a \<Rightarrow> b\<lparr>cb_networks := Some nb, cb_aliases := Some (bdel net a)\<rparr>) (bk (db_ctrs d)))\<rparr>"
    by (auto simp: NetworkDisconnect_tx_def Let_def db_defs err_simps)
  from wf_ctr_state[OF assms(2) b] show ?thesis
    unfolding d' by (auto intro!: wf_ctr_upd[OF assms(2) b] split: option.split)
qed

lemma GetNetworks_wf:
  assumes "db_wf d"
  shows "db_wf (fst (GetNetworks_body rt ctr d))"
proof -
  have "db_wf d'" if c: "convertNetworks rt ctr ns d = Inr (d', r)" for ns d' r
  proof -
    from c obtain b nb where b: "ctrs d (ctr_ID ctr) = Some b"
      and d': "d' = d\<lparr>db_ctrs := Some (bins (ctr_ID ctr) (b\<lparr>cb_networks := Some nb\<rparr>) (bk (db_ctrs d)))\<rparr>"
      by (auto simp: convertNetworks_def db_defs err_simps Let_def case_prod_beta)
    from wf_ctr_state[OF assms b] show ?thesis
      unfolding d' by (auto intro: wf_ctr_upd[OF assms b])
  qed
  then show ?thesis
    using assms by (auto simp: GetNetworks_body_def Update_def split: sum.splits prod.splits)
qed

section \<open>Exec sessions\<close>

lemma AddExecSession_tx_wf:
  assumes "AddExecSession_tx ctr es d = Inr d'" "db_wf d"
  shows "db_wf d'"
proof -
  let ?i = "ctr_ID ctr"
  from assms(1) obtain b where b: "ctrs d ?i = Some b" and new: "execs d (es_Id es) = None"
    and d': "d' = d\<lparr>db_exec := Some (bins (es_Id es) ?i (bk (db_exec d))),
        db_ctrs := Some (bins ?i (b\<lparr>cb_exec := Some (bins (es_Id es) ?i (bk (cb_exec b)))\<rparr>) (bk (db_ctrs d)))\<rparr>"
    by (auto simp: AddExecSession_tx_def Let_def db_defs err_simps bk_def)
  from assms(2) b have "execs d s = Some ?i \<longleftrightarrow> s \<in> dom (bget (bk (cb_exec b)))" for s
    by (simp add: db_wf_def wf_exec_def sessions_def)
  with new have "bget (bins (es_Id es) ?i (bk (db_exec d))) s = Some j \<longleftrightarrow>
      (if j = ?i then s \<in> dom (bget (bins (es_Id es) ?i (bk (cb_exec b)))) else execs d s = Some j)" for s j
    by (auto simp: bolt_simps)
  with wf_ctr_state[OF assms(2) b] show ?thesis
    unfolding d' by (auto intro!: wf_ctr_exec_upd[OF assms(2) b])
qed

lemma RemoveExecSession_tx_wf:
  assumes "RemoveExecSession_tx es d = Inr d'" "db_wf d"
  shows "db_wf d'"
proof -
  let ?i = "es_ContainerId es" and ?s = "es_Id es"
  have ex: "execs d s = Some i \<longleftrightarrow> s \<in> sessions (ctrs d) i" for s i
    using assms(2) by (simp add: db_wf_def wf_exec_def)
  have reg: "execs d ?s = Some ?i"
    using assms(1) by (auto simp: RemoveExecSession_tx_def Let_def db_defs err_simps)
  then have "?s \<in> sessions (ctrs d) ?i" using ex by blast
  then obtain b e where b: "ctrs d ?i = Some b" "cb_exec b = Some e" "bget e ?s \<noteq> None"
    by (auto simp: sessions_def bk_def split: option.splits)
  with assms(1) have d': "d' = d\<lparr>db_exec := Some (bdel ?s (bk (db_exec d))),
      db_ctrs := Some (bins ?i (b\<lparr>cb_exec := Some (bdel ?s e)\<rparr>) (bk (db_ctrs d)))\<rparr>"
    by (auto simp: RemoveExecSession_tx_def Let_def db_defs err_simps)
  have e: "execs d s = Some ?i \<longleftrightarrow> s \<in> dom (bget e)" for s using ex b by (simp add: sessions_def)
  have "bget (bdel ?s (bk (db_exec d))) s = Some j \<longleftrightarrow>
      (if j = ?i then s \<in> dom (bget (bdel ?s e)) else execs d s = Some j)" for s j
    using reg e[of s] by (auto simp: bolt_simps)
  with wf_ctr_state[OF assms(2) b(1)] show ?thesis
    unfolding d' by (auto intro!: wf_ctr_exec_upd[OF assms(2) b(1)])
qed

lemma removeSession_eq_Inr:
  "removeSession i s (cs, e) = Inr t \<Longrightarrow> \<exists>e1. t = (bdel s cs, e1) \<and> bget e1 = (bget e)(s := None)"
  by (auto simp: removeSession_def Let_def bolt_simps map_upd_None_id split: option.splits if_splits)

lemma removeSessions_loop:
  assumes "foldE (removeSession i) ss (cs, e) = Inr (cs', e')"
  shows "bget cs' = bget cs |` (- set ss) \<and> bget e' = bget e |` (- set ss)"
  using assms
proof (induction ss arbitrary: cs e)
  case Nil
  then show ?case by (simp add: restrict_map_def)
next
  case (Cons s ss)
  from Cons.prems obtain e1 where r: "foldE (removeSession i) ss (bdel s cs, e1) = Inr (cs', e')"
    and e1: "bget e1 = (bget e)(s := None)"
    using removeSession_eq_Inr by (fastforce simp: bindE_eq_Inr)
  from Cons.IH[OF r] e1 show ?case
    by (auto simp: bolt_simps restrict_map_def fun_eq_iff)
qed

lemma RemoveContainerExecSessions_tx_wf:
  assumes "RemoveContainerExecSessions_tx ctr d = Inr d'" "db_wf d"
  shows "db_wf d'" and "sessions (ctrs d') (ctr_ID ctr) = {}"
proof -
  let ?i = "ctr_ID ctr"
  from assms(1) obtain b where b: "ctrs d ?i = Some b"
    by (auto simp: RemoveContainerExecSessions_tx_def Let_def db_defs err_simps)
  have "db_wf d' \<and> sessions (ctrs d') ?i = {}"
  proof (cases "cb_exec b")
    case None
    with assms b show ?thesis
      by (auto simp: RemoveContainerExecSessions_tx_def Let_def db_defs err_simps sessions_def)
  next
    case (Some cs)
    with assms(1) b obtain cs' e' where
        l: "foldE (removeSession ?i) (bkeys cs) (cs, bk (db_exec d)) = Inr (cs', e')"
      and d': "d' = d\<lparr>db_exec := Some e',
        db_ctrs := Some (bins ?i (b\<lparr>cb_exec := Some cs'\<rparr>) (bk (db_ctrs d)))\<rparr>"
      by (auto simp: RemoveContainerExecSessions_tx_def Let_def db_defs err_simps)
    have ex: "execs d s = Some ?i \<longleftrightarrow> s \<in> dom (bget cs)" for s
      using assms(2) b Some by (simp add: db_wf_def wf_exec_def sessions_def)
    have cs': "bget cs' = Map.empty" and e': "bget e' = execs d |` (- dom (bget cs))"
      using removeSessions_loop[OF l] by (auto simp: set_bkeys restrict_map_def fun_eq_iff)
    have "bget e' s = Some j \<longleftrightarrow> (if j = ?i then s \<in> dom (bget cs') else execs d s = Some j)" for s j
      using ex[of s] by (auto simp: cs' e' restrict_eq_Some)
    with wf_ctr_state[OF assms(2) b] have "db_wf d'"
      unfolding d' by (auto intro!: wf_ctr_exec_upd[OF assms(2) b])
    then show ?thesis by (simp add: d' sessions_def bolt_simps cs')
  qed
  then show "db_wf d'" "sessions (ctrs d') (ctr_ID ctr) = {}" by simp_all
qed

section \<open>Volumes\<close>

lemma wf_vols_indep:
  assumes "db_wf d" "\<And>v. bget av v = None \<longleftrightarrow> bget vs v = None" "\<And>v n. bget av v = Some n \<Longrightarrow> n = v"
    and "\<And>v b. bget vs v = Some b \<Longrightarrow>
           \<exists>cfg deps. vb_config b = Some (Enc cfg) \<and> vc_Name cfg = v \<and> vb_deps b = Some deps"
    and "\<And>i v. v \<in> mounts (ctrs d) i \<Longrightarrow> i \<in> volume_users (bget vs) v"
  shows "db_wf (d\<lparr>db_vols := Some vs, db_allVols := Some av, db_volCtrs := Some vc\<rparr>)"
proof -
  let ?d = "d\<lparr>db_vols := Some vs, db_allVols := Some av, db_volCtrs := Some vc\<rparr>"
  have "wf_vols ?d" using assms(2-5) by (simp add: wf_vols_def)
  then show ?thesis
    using assms(1) by (simp add: db_wf_def needsUpdate_def wf_reg_def wf_ctrs_def wf_deps_def wf_pods_def wf_exec_def)
qed

lemma db_allVols_id: "\<not> needsUpdate d \<Longrightarrow> d\<lparr>db_vols := vs\<rparr> =
    d\<lparr>db_vols := vs, db_allVols := Some (bk (db_allVols d)), db_volCtrs := Some (bk (db_volCtrs d))\<rparr>"
  by (cases d) (auto simp: needsUpdate_def)

lemma AddVolume_tx_wf:
  assumes "AddVolume_tx vol d = Inr d'" "db_wf d"
  shows "db_wf d'"
proof -
  let ?v = "vol_Name vol"
  let ?b = "\<lparr>vb_config = Some (Enc (vol_config vol)), vb_state = map_option Marshal (vol_state vol), vb_deps = Some []\<rparr>"
  let ?sid = "vc_StorageID (vol_config vol)"
  have new: "allVols d ?v = None" "vols d ?v = None"
    using assms(1) by (auto simp: AddVolume_tx_def Let_def db_defs err_simps)
  have d': "d' = d\<lparr>db_vols := Some (bins ?v ?b (bk (db_vols d))),
       db_allVols := Some (bins ?v ?v (bk (db_allVols d))),
       db_volCtrs := Some (if ?sid \<noteq> [] then bins ?sid ?v (bk (db_volCtrs d)) else bk (db_volCtrs d))\<rparr>"
    using assms(1)
    by (cases "?sid = []") (auto simp: AddVolume_tx_def Let_def db_defs err_simps Marshal_def empty_vol_bkt_def)
  have w: "wf_vols d" using assms(2) by (simp add: db_wf_def)
  note w = wf_volsD[OF w]
  have vu: "i \<in> volume_users ((vols d)(?v \<mapsto> ?b)) u" if "u \<in> mounts (ctrs d) i" for i u
    using w(4)[OF that] new(2) by (cases "u = ?v") (auto simp: volume_users_def)
  show ?thesis
    unfolding d' using w(1-3)
    by (intro wf_vols_indep[OF assms(2)]) (auto simp: bolt_simps vu split: if_splits)
qed

lemma volumeUsers_eq:
  "volumeUsers cb deps = Inr (map fst (filter (\<lambda>(i, _). bget cb i \<noteq> None) deps))"
  unfolding volumeUsers_def by (simp add: ForEach_filter)

lemma volumeUsers_set:
  assumes "volumeUsers cb deps = Inr us"
  shows "set us = {i. bget deps i \<noteq> None \<and> bget cb i \<noteq> None}"
proof -
  have us: "us = map fst (filter (\<lambda>e. bget cb (fst e) \<noteq> None) deps)"
    using assms unfolding volumeUsers_eq case_prod_beta by simp
  have "fst ` set deps = dom (bget deps)" using set_bkeys[of deps] by (simp add: bkeys_def)
  then have "{i. bget deps i \<noteq> None \<and> bget cb i \<noteq> None} = {i \<in> fst ` set deps. bget cb i \<noteq> None}" by auto
  also have "\<dots> = fst ` {e \<in> set deps. bget cb (fst e) \<noteq> None}" by blast
  also have "\<dots> = set us" by (simp add: us)
  finally show ?thesis by simp
qed

lemma RemoveVolume_unused:
  assumes "RemoveVolume_tx vol d = Inr d'" "wf_reg d" "wf_vols d"
  shows "vol_Name vol \<notin> mounts (ctrs d) i"
proof
  assume m: "vol_Name vol \<in> mounts (ctrs d) i"
  then have c: "ctrs d i \<noteq> None" by (auto simp: mounts_def config_of_def split: option.splits)
  from wf_volsD(4)[OF assms(3) m] obtain b deps where
    b: "vols d (vol_Name vol) = Some b" "vb_deps b = Some deps" "bget deps i \<noteq> None"
    by (auto simp: volume_users_def bk_def split: option.splits)
  with assms(1) obtain us where "volumeUsers (bk (db_ctrs d)) deps = Inr us" "us = []"
    by (auto simp: RemoveVolume_tx_def Let_def db_defs err_simps)
  moreover from volumeUsers_set[OF this(1)] b(3) c have "i \<in> set us" by simp
  ultimately show False by simp
qed

lemma RemoveVolume_tx_wf:
  assumes "RemoveVolume_tx vol d = Inr d'" "db_wf d"
  shows "db_wf d'"
proof -
  let ?v = "vol_Name vol"
  from assms(1) have
    d': "d' = d\<lparr>db_vols := Some (bdel ?v (bk (db_vols d))),
       db_allVols := Some (bdel ?v (bk (db_allVols d))),
       db_volCtrs := Some (if vc_StorageID (vol_config vol) \<noteq> []
         then bdel (vc_StorageID (vol_config vol)) (bk (db_volCtrs d)) else bk (db_volCtrs d))\<rparr>"
    by (auto simp: RemoveVolume_tx_def Let_def db_defs err_simps)
  have w: "wf_reg d" "wf_vols d" using assms(2) by (simp_all add: db_wf_def)
  note un = RemoveVolume_unused[OF assms(1) w] and w = wf_volsD[OF w(2)]
  have vu: "i \<in> volume_users ((vols d)(?v := None)) u" if "u \<in> mounts (ctrs d) i" for i u
    using w(4)[OF that] that un[of i] by (cases "u = ?v") (auto simp: volume_users_def)
  show ?thesis
    unfolding d' using w(1-3)
    by (intro wf_vols_indep[OF assms(2)]) (auto simp: bolt_simps vu split: if_splits)
qed

lemma wf_vol_upd:
  assumes "db_wf d" "vols d v = Some b" "vb_deps b' = vb_deps b" "vb_config b' = Some (Enc cfg)" "vc_Name cfg = v"
  shows "db_wf (d\<lparr>db_vols := Some (bins v b' (bk (db_vols d)))\<rparr>)"
proof -
  have w: "wf_vols d" "\<not> needsUpdate d" using assms(1) by (simp_all add: db_wf_def)
  note w1 = wf_volsD[OF w(1)]
  have vu: "i \<in> volume_users ((vols d)(v \<mapsto> b')) u" if "u \<in> mounts (ctrs d) i" for i u
    using w1(4)[OF that] assms(2,3) by (cases "u = v") (auto simp: volume_users_def)
  show ?thesis
    using w1(1-3) assms(2-5)
    by (subst db_allVols_id[OF w(2)], intro wf_vols_indep[OF assms(1)]) (auto simp: bolt_simps vu split: if_splits)
qed

lemma SaveVolume_tx_wf:
  assumes "SaveVolume_tx vol d = Inr d'" "db_wf d"
  shows "db_wf d'"
proof -
  from assms(1) obtain b j where b: "vols d (vol_Name vol) = Some b"
    "d' = d\<lparr>db_vols := Some (bins (vol_Name vol) (b\<lparr>vb_state := Some j\<rparr>) (bk (db_vols d)))\<rparr>"
    by (auto simp: SaveVolume_tx_def Let_def db_defs err_simps)
  moreover have "wf_vols d" using assms(2) by (simp add: db_wf_def)
  ultimately obtain cfg where "vb_config b = Some (Enc cfg)" "vc_Name cfg = vol_Name vol"
    using wf_volsD(3) by blast
  with b wf_vol_upd[OF assms(2) b(1), of "b\<lparr>vb_state := Some j\<rparr>" cfg] show ?thesis by simp
qed

lemma RewriteVolumeConfig_tx_wf:
  assumes "RewriteVolumeConfig_tx vol cfg d = Inr d'" "db_wf d" "vc_Name cfg = vol_Name vol"
  shows "db_wf d'"
proof -
  from assms(1) obtain b where b: "vols d (vol_Name vol) = Some b"
    "d' = d\<lparr>db_vols := Some (bins (vol_Name vol) (b\<lparr>vb_config := Some (Enc cfg)\<rparr>) (bk (db_vols d)))\<rparr>"
    by (auto simp: RewriteVolumeConfig_tx_def Let_def db_defs err_simps Marshal_def)
  with wf_vol_upd[OF assms(2) b(1), of "b\<lparr>vb_config := Some (Enc cfg)\<rparr>" cfg] assms(3) show ?thesis by simp
qed

end
