(* ===== verification/BoltRename.thy ===== *)
theory BoltRename
  imports BoltStateInv
begin

text \<open>
  Writing the state and the configuration of a pod, rewriting the configuration of a
  container, and renaming a container, with the invariant. \<open>ctr_renamed\<close> is the
  specification of a rename.
\<close>

section \<open>State and configuration of a pod\<close>

lemma wf_pod_upd:
  assumes "db_wf d" "pods d p = Some b" "pb_containers b' = pb_containers b"
    and "wf_pod_bkt p (allPods d p) b'"
  shows "db_wf (d\<lparr>db_pods := Some (bins p b' (bk (db_pods d)))\<rparr>)"
proof -
  let ?d = "d\<lparr>db_pods := Some (bins p b' (bk (db_pods d)))\<rparr>"
  have w: "\<not> needsUpdate d" "wf_reg d" "wf_ctrs d" "wf_deps d" "wf_pods d" "wf_vols d" "wf_exec d"
    using assms(1) by (simp_all add: db_wf_def)
  have c: "pods ?d = (pods d)(p \<mapsto> b')" by (simp add: bolt_simps)
  have mem: "members ((pods d)(p \<mapsto> b')) = members (pods d)"
    using assms(2,3) by (auto simp: fun_eq_iff members_def)
  have "bget (bins p b' (bk (db_pods d))) j = None \<longleftrightarrow> pods d j = None" for j
    using assms(2) by (simp add: bolt_simps)
  then have "wf_reg ?d" using w(2) by (simp add: wf_reg_def)
  moreover have "wf_pods ?d"
    using wf_podsD[OF w(5)] assms(4) unfolding wf_pods_def c mem by simp
  ultimately show ?thesis
    using w(1,3,4,6,7) by (simp add: db_wf_def needsUpdate_def wf_ctrs_def wf_deps_def wf_vols_def wf_exec_def)
qed

lemma SavePod_tx_wf:
  assumes "SavePod_tx pod d = Inr d'" "db_wf d"
  shows "db_wf d'"
proof -
  let ?st = "\<lambda>b. b\<lparr>pb_state := Some (Enc (pod_state pod))\<rparr>"
  from assms(1) obtain b where b: "pods d (pod_ID pod) = Some b"
    "d' = d\<lparr>db_pods := Some (bins (pod_ID pod) (?st b) (bk (db_pods d)))\<rparr>"
    by (auto simp: SavePod_tx_def db_defs err_simps Marshal_def)
  have "wf_pods d" using assms(2) by (simp add: db_wf_def)
  from wf_podsD(1)[OF this b(1)] have "wf_pod_bkt (pod_ID pod) (allPods d (pod_ID pod)) (?st b)"
    by (auto simp: wf_pod_bkt_def)
  with wf_pod_upd[OF assms(2) b(1)] b(2) show ?thesis by simp
qed

lemma RewritePodConfig_tx_wf:
  assumes "RewritePodConfig_tx pod cfg d = Inr d'" "db_wf d"
    and "pc_ID cfg = pod_ID pod" "allPods d (pod_ID pod) = Some (pc_Name cfg)"
  shows "db_wf d'"
proof -
  let ?st = "\<lambda>b. b\<lparr>pb_config := Some (Enc cfg)\<rparr>"
  from assms(1) obtain b where b: "pods d (pod_ID pod) = Some b"
    "d' = d\<lparr>db_pods := Some (bins (pod_ID pod) (?st b) (bk (db_pods d)))\<rparr>"
    by (auto simp: RewritePodConfig_tx_def db_defs err_simps Marshal_def)
  have "wf_pods d" using assms(2) by (simp add: db_wf_def)
  from wf_podsD(1)[OF this b(1)] assms(3,4) have "wf_pod_bkt (pod_ID pod) (allPods d (pod_ID pod)) (?st b)"
    by (auto simp: wf_pod_bkt_def)
  with wf_pod_upd[OF assms(2) b(1)] b(2) show ?thesis by simp
qed

section \<open>Rewriting the configuration of a container\<close>

text \<open>The parts of a configuration that a rewrite must keep.\<close>

definition same_links :: "ContainerConfig \<Rightarrow> ContainerConfig \<Rightarrow> bool" where
  "same_links cfg new \<longleftrightarrow>
     cfg_ID new = cfg_ID cfg \<and> cfg_Pod new = cfg_Pod cfg \<and>
     set (cfg_depends new) = set (cfg_depends cfg) \<and>
     nv_Name ` set (cfg_NamedVolumes new) = nv_Name ` set (cfg_NamedVolumes cfg)"

definition ctr_renamed ::
  "string \<Rightarrow> string \<Rightarrow> string \<Rightarrow> ContainerConfig \<Rightarrow> string option \<Rightarrow> boltdb \<Rightarrow> boltdb \<Rightarrow> bool" where
  "ctr_renamed i old new cfg podID d d' \<longleftrightarrow>
     names d new = None \<and>
     (\<exists>b. ctrs d i = Some b \<and> ctrs d' = (ctrs d)(i \<mapsto> b\<lparr>cb_config := Some (Enc cfg)\<rparr>)) \<and>
     ids d' = (ids d)(i \<mapsto> new) \<and> names d' = (names d)(old := None, new \<mapsto> i) \<and>
     allCtrs d' = (allCtrs d)(i \<mapsto> new) \<and>
     (case podID of
        None \<Rightarrow> pods d' = pods d
      | Some p \<Rightarrow> (\<exists>pb. pods d p = Some pb \<and> pods d' = (pods d)(p \<mapsto> add_member i new pb))) \<and>
     vols d' = vols d \<and> allPods d' = allPods d \<and> allVols d' = allVols d \<and> execs d' = execs d \<and>
     (needsUpdate d' \<longleftrightarrow> needsUpdate d)"

lemma rename_refines:
  assumes "SafeRewrite_tx ctr old new cfg d = Inr d'" "new \<noteq> []" "names d new = None"
  shows "ctr_renamed (ctr_ID ctr) old new (cfg\<lparr>cfg_rewrite := False\<rparr>) (podKey (cfg_Pod (ctr_config ctr))) d d'"
proof (cases "cfg_Pod (ctr_config ctr) = []")
  case True
  with assms show ?thesis
    by (auto simp: SafeRewrite_tx_def rename_tx_def rewriteConfig_tx_def Let_def db_defs err_simps
        ctr_renamed_def podKey_def bolt_simps MarshalConfig_def Marshal_def needsUpdate_def)
next
  case False
  with assms show ?thesis
    by (auto simp: SafeRewrite_tx_def rename_tx_def rewriteConfig_tx_def Let_def db_defs err_simps
        ctr_renamed_def podKey_def bolt_simps MarshalConfig_def Marshal_def needsUpdate_def add_member_def)
qed

text \<open>The links of the containers do not change when a configuration with the same links is written.\<close>

lemma rel_rewrite:
  assumes "m i = Some b" "cb_config b = Some (Enc cfg)" "same_links cfg new"
  shows "depends (m(i \<mapsto> b\<lparr>cb_config := Some (Enc new)\<rparr>)) = depends m"
    and "mounts (m(i \<mapsto> b\<lparr>cb_config := Some (Enc new)\<rparr>)) = mounts m"
    and "dependents (m(i \<mapsto> b\<lparr>cb_config := Some (Enc new)\<rparr>)) = dependents m"
    and "pod_of (m(i \<mapsto> b\<lparr>cb_config := Some (Enc new)\<rparr>)) = pod_of m"
    and "sessions (m(i \<mapsto> b\<lparr>cb_config := Some (Enc new)\<rparr>)) = sessions m"
  using assms by (auto simp: fun_eq_iff rel_defs same_links_def)

lemma same_links_rewrite [simp]: "same_links cfg (new\<lparr>cfg_rewrite := r\<rparr>) \<longleftrightarrow> same_links cfg new"
  by (simp add: same_links_def)

lemma rewriteConfig_tx_wf:
  assumes "rewriteConfig_tx ctr new d = Inr d'" "db_wf d"
    and cfg: "config_of (ctrs d) (ctr_ID ctr) = Some cfg" "same_links cfg new" "cfg_Name new = cfg_Name cfg"
  shows "db_wf d'"
proof -
  let ?new = "new\<lparr>cfg_rewrite := False\<rparr>" and ?i = "ctr_ID ctr"
  have w: "\<not> needsUpdate d" "wf_reg d" "wf_ctrs d" "wf_deps d" "wf_pods d" "wf_vols d" "wf_exec d"
    using assms(2) by (simp_all add: db_wf_def)
  from assms(1) obtain b where b: "ctrs d ?i = Some b"
    and d': "d' = d\<lparr>db_ctrs := Some (bins ?i (b\<lparr>cb_config := Some (Enc ?new)\<rparr>) (bk (db_ctrs d)))\<rparr>"
    by (auto simp: rewriteConfig_tx_def db_defs err_simps MarshalConfig_def Marshal_def)
  have c: "ctrs d' = (ctrs d)(?i \<mapsto> b\<lparr>cb_config := Some (Enc ?new)\<rparr>)" by (simp add: d' bolt_simps)
  have cb: "cb_config b = Some (Enc cfg)" using cfg(1) b by (auto simp: config_of_Some)
  note rel = rel_rewrite[where m = "ctrs d" and new = ?new, OF b cb, folded c]
  have "wf_ctr_bkt ?i (allCtrs d ?i) (b\<lparr>cb_config := Some (Enc ?new)\<rparr>)"
    using wf_ctrsD[OF w(3) b] cb cfg(2,3) by (simp add: wf_ctr_bkt_def same_links_def) metis
  then have "wf_ctrs d'" using w(3) unfolding wf_ctrs_def c by (simp add: d')
  moreover have "bget (bins ?i (b\<lparr>cb_config := Some (Enc ?new)\<rparr>) (bk (db_ctrs d))) j = None \<longleftrightarrow> ctrs d j = None" for j
    using b by (simp add: bolt_simps)
  then have "wf_reg d'" using w(2) by (simp add: wf_reg_def d')
  ultimately show ?thesis
    using w rel cfg(2) unfolding db_wf_def wf_deps_def wf_pods_def wf_vols_def wf_exec_def
    by (simp add: d' needsUpdate_def)
qed

section \<open>Renaming\<close>

lemma ctr_renamedD:
  assumes "ctr_renamed i old new cfg podID d d'"
  shows "names d new = None" "ids d' = (ids d)(i \<mapsto> new)" "names d' = (names d)(old := None, new \<mapsto> i)"
    "allCtrs d' = (allCtrs d)(i \<mapsto> new)" "vols d' = vols d" "allPods d' = allPods d"
    "allVols d' = allVols d" "execs d' = execs d" "needsUpdate d' \<longleftrightarrow> needsUpdate d"
    "\<exists>b. ctrs d i = Some b \<and> ctrs d' = (ctrs d)(i \<mapsto> b\<lparr>cb_config := Some (Enc cfg)\<rparr>)"
    "podID = None \<Longrightarrow> pods d' = pods d"
    "podID = Some p \<Longrightarrow> \<exists>pb. pods d p = Some pb \<and> pods d' = (pods d)(p \<mapsto> add_member i new pb)"
  using assms by (auto simp: ctr_renamed_def)

lemma ctr_renamed_None:
  assumes "ctr_renamed i old new cfg podID d d'"
  shows "ctrs d' j = None \<longleftrightarrow> ctrs d j = None" "pods d' j = None \<longleftrightarrow> pods d j = None"
  using ctr_renamedD(10)[OF assms] ctr_renamedD(11,12)[OF assms]
  by (auto, (cases podID; auto split: if_splits)+)

lemma ctr_renamed_wf_reg:
  assumes "ctr_renamed i old new cfg podID d d'" "wf_reg d" "allCtrs d i = Some old"
  shows "wf_reg d'"
proof -
  note r = ctr_renamedD[OF assms(1)] and n = ctr_renamed_None[OF assms(1)] and w = wf_regD[OF assms(2)]
  note reg = wf_reg_ctr[OF assms(2,3)]
  have "registries_inverse (bk (db_ids d')) (bk (db_names d'))"
    using reg.inverse_rename[of "bk (db_ids d)" "bk (db_names d)" i old new] r(1) reg(1) assms(2)
    by (simp add: registries_inverse_def wf_reg_def r(2,3) bolt_simps)
  moreover have "ids d' j = Some m \<longleftrightarrow> allCtrs d' j = Some m \<or> allPods d' j = Some m" for j m
    using w(5)[of j m] reg(3) by (auto simp: r(2,4,6))
  moreover have "ctrs d' j = None \<or> pods d' j = None" for j
    using w(4)[of j] n by simp
  moreover have "i \<noteq> []" using w(6) reg(1) by auto
  moreover have "allCtrs d' j = None \<longleftrightarrow> ctrs d' j = None" for j
    using w(2)[of j] n(1)[of j] assms(3) by (auto simp: r(4))
  ultimately show ?thesis
    using w(3,6) n(2) unfolding wf_reg_def by (auto simp: r(2,6))
qed

lemma ctr_renamed_wf:
  assumes "ctr_renamed i old new cfg' podID d d'" "db_wf d" "allCtrs d i = Some old"
    and cfg: "config_of (ctrs d) i = Some cfg" "same_links cfg cfg'" "cfg_Name cfg' = new"
    and podID: "podID = pod_of (ctrs d) i"
  shows "db_wf d'"
proof -
  have w: "\<not> needsUpdate d" "wf_reg d" "wf_ctrs d" "wf_deps d" "wf_pods d" "wf_vols d" "wf_exec d"
    using assms(2) by (simp_all add: db_wf_def)
  note r = ctr_renamedD[OF assms(1)] and wp = wf_podsD[OF w(5)]
  obtain b where b: "ctrs d i = Some b" and c: "ctrs d' = (ctrs d)(i \<mapsto> b\<lparr>cb_config := Some (Enc cfg')\<rparr>)"
    using r(10) by blast
  have cb: "cb_config b = Some (Enc cfg)" using cfg(1) b by (auto simp: config_of_Some)
  note rel = rel_rewrite[where m = "ctrs d", OF b cb cfg(2), folded c]
  have "wf_ctr_bkt i (Some new) (b\<lparr>cb_config := Some (Enc cfg')\<rparr>)"
    using wf_ctrsD[OF w(3) b] cb cfg(2,3) by (simp add: wf_ctr_bkt_def same_links_def) metis
  then have "wf_ctrs d'" using w(3) unfolding wf_ctrs_def c by (simp add: r(4))
  moreover have "wf_pods d'"
  proof (cases podID)
    case None
    with podID have no: "pod_of (ctrs d) i = None" by simp
    have "members (pods d) q j = Some m \<longleftrightarrow> pod_of (ctrs d) j = Some q \<and> allCtrs d' j = Some m" for q j m
      using wp(2)[of q j m] no by (auto simp: r(4))
    then show ?thesis using wp(1) by (simp add: wf_pods_def r(6) r(11)[OF None] rel(4))
  next
    case (Some p)
    then obtain pb where pb: "pods d p = Some pb" "pods d' = (pods d)(p \<mapsto> add_member i new pb)"
      using r(12) by blast
    from wp(1)[OF pb(1)] have ne: "pb_containers pb \<noteq> None" by (auto simp: wf_pod_bkt_def)
    have "members (pods d') q j = Some m \<longleftrightarrow> pod_of (ctrs d) j = Some q \<and> allCtrs d' j = Some m" for q j m
      using wp(2)[of q j m] podID Some
      unfolding pb(2) members_add_member[where m = "pods d", OF pb(1) ne] by (auto simp: r(4))
    moreover have "wf_pod_bkt q (allPods d' q) x" if "pods d' q = Some x" for q x
      using that wp(1)[of q] wp(1)[OF pb(1)]
      by (auto simp: pb(2) r(6) wf_pod_bkt_def add_member_def split: if_splits)
    ultimately show ?thesis by (simp add: wf_pods_def rel(4))
  qed
  ultimately show ?thesis
    using w ctr_renamed_wf_reg[OF assms(1) w(2) assms(3)] rel
    by (simp add: db_wf_def wf_deps_def wf_vols_def wf_exec_def r(5,7-9))
qed

lemma SafeRewrite_tx_wf:
  assumes "SafeRewrite_tx ctr old new cfg' d = Inr d'" "db_wf d" "synced ctr d"
    and "old = ctr_Name ctr" "cfg_Name cfg' = (if new = [] then old else new)"
    and cfg: "config_of (ctrs d) (ctr_ID ctr) = Some cfg" "same_links cfg cfg'"
  shows "db_wf d'"
proof -
  have w: "wf_reg d" "wf_ctrs d" using assms(2) by (simp_all add: db_wf_def)
  have "ctrs d (ctr_ID ctr) \<noteq> None" using cfg(1) by (auto simp: config_of_Some)
  note sy = synced_facts[OF assms(3) w this]
  have nm: "cfg_Name cfg = old" using assms(3,4) cfg(1) by (simp add: synced_def)
  show ?thesis
  proof (cases "new \<noteq> [] \<and> names d new = None")
    case True
    then have "ctr_renamed (ctr_ID ctr) old new (cfg'\<lparr>cfg_rewrite := False\<rparr>) (podKey (cfg_Pod (ctr_config ctr))) d d'"
      using rename_refines[OF assms(1)] by blast
    from ctr_renamed_wf[OF this assms(2) _ cfg(1)] cfg(2) assms(4,5) True sy show ?thesis by simp
  next
    case False
    then have "rewriteConfig_tx ctr cfg' d = Inr d'" and "new \<noteq> [] \<Longrightarrow> names d new = Some (ctr_ID ctr)"
      using assms(1) by (auto simp: SafeRewrite_tx_def rename_tx_def Let_def db_defs err_simps split: if_splits)
    moreover have "new = old" if "names d new = Some (ctr_ID ctr)"
      using that sy(2) wf_regD(1)[OF w(1), of "ctr_ID ctr" new] assms(4) by simp
    ultimately show ?thesis
      using rewriteConfig_tx_wf[OF _ assms(2) cfg] nm assms(5) by (auto split: if_splits)
  qed
qed

end
