(* ===== verification/BoltRefresh.thy ===== *)
theory BoltRefresh
  imports BoltRename
begin

text \<open>
  The refresh after a reboot: on a well-formed database whose volume states decode it succeeds,
  resets every state, clears the exec sessions and the exit codes, removes nothing
  from the registries, keeps the invariant, and is idempotent.
\<close>

section \<open>Refreshing one object\<close>

definition refreshed_ctr :: "ctr_bkt \<Rightarrow> ctr_bkt" where
  "refreshed_ctr b = b\<lparr>cb_netNS := None,
     cb_state := (case cb_state b of Some (Enc st) \<Rightarrow> Some (Enc (resetContainerState st)) | s \<Rightarrow> s),
     cb_exec := map_option (\<lambda>_. []) (cb_exec b)\<rparr>"

definition refreshed_pod :: "pod_bkt \<Rightarrow> pod_bkt" where
  "refreshed_pod b = b\<lparr>pb_state :=
     (case pb_state b of Some (Enc st) \<Rightarrow> Some (Enc (resetPodState st)) | s \<Rightarrow> s)\<rparr>"

definition refreshed_vol :: "vol_bkt \<Rightarrow> vol_bkt" where
  "refreshed_vol b = b\<lparr>vb_state :=
     (case vb_state b of Some (Enc st) \<Rightarrow> Some (Enc (resetVolumeState st)) | s \<Rightarrow> s)\<rparr>"

definition on_keys :: "('v \<Rightarrow> 'v) \<Rightarrow> string set \<Rightarrow> (string \<rightharpoonup> 'v) \<Rightarrow> string \<rightharpoonup> 'v" where
  "on_keys f K m = (\<lambda>k. if k \<in> K then map_option f (m k) else m k)"

lemma refreshed_idem [simp]:
  "refreshed_ctr (refreshed_ctr b) = refreshed_ctr b"
  "refreshed_pod (refreshed_pod p) = refreshed_pod p"
  "refreshed_vol (refreshed_vol v) = refreshed_vol v"
  by (auto simp: refreshed_ctr_def refreshed_pod_def refreshed_vol_def option.map_comp comp_def
      split: option.split json.split)

lemma on_keys_dom: "dom (on_keys f K m) = dom m"
  by (auto simp: on_keys_def split: if_splits)

lemma on_keys_step:
  assumes "\<And>x. f (f x) = f x" "m k = Some v"
  shows "on_keys f K (m(k \<mapsto> f v)) = on_keys f (insert k K) m"
  using assms by (auto simp: on_keys_def fun_eq_iff)

lemma bget_fold_bdel: "bget (fold bdel ks b) = bget b |` (- set ks)"
proof (induction ks arbitrary: b)
  case Nil
  then show ?case by (simp add: restrict_map_def)
next
  case (Cons k ks)
  then show ?case by (auto simp: bolt_simps restrict_map_def fun_eq_iff)
qed

lemma clearBucket_Nil [simp]: "clearBucket b = []"
proof -
  have "bget (clearBucket b) = Map.empty"
    by (auto simp: clearBucket_def bget_fold_bdel set_bkeys restrict_map_def fun_eq_iff)
  then show ?thesis by (simp only: bget_empty_iff)
qed

lemma clearBucket_fun: "clearBucket = (\<lambda>_. [])"
  by (simp add: fun_eq_iff)

lemma refreshCtrState_eq:
  "cb_state b = Some (Enc st) \<Longrightarrow> refreshCtrState b = Inr (refreshed_ctr b)"
  by (simp add: refreshCtrState_def refreshed_ctr_def Let_def Marshal_def clearBucket_fun)

lemma refreshPodState_eq:
  "pb_state b = Some (Enc st) \<Longrightarrow> refreshPodState b = Inr (refreshed_pod b)"
  by (simp add: refreshPodState_def refreshed_pod_def Marshal_def)

section \<open>The loops\<close>

definition refreshable :: "(string \<rightharpoonup> ctr_bkt) \<Rightarrow> (string \<rightharpoonup> pod_bkt) \<Rightarrow> string \<Rightarrow> bool" where
  "refreshable cm pm i \<longleftrightarrow>
     (case cm i of
        Some c \<Rightarrow> (\<exists>st. cb_state c = Some (Enc st))
      | None \<Rightarrow> (case pm i of Some p \<Rightarrow> (\<exists>st. pb_state p = Some (Enc st)) | None \<Rightarrow> False))"

lemma refreshable_upd:
  assumes "refreshable cm pm j"
  shows "cm i = Some c \<Longrightarrow> refreshable (cm(i \<mapsto> refreshed_ctr c)) pm j"
    and "pm i = Some p \<Longrightarrow> refreshable cm (pm(i \<mapsto> refreshed_pod p)) j"
  using assms by (auto simp: refreshable_def refreshed_ctr_def refreshed_pod_def split: option.splits json.splits)

lemma refreshIDs:
  assumes "\<forall>k \<in> set (bkeys b). refreshable (bget (rl_ctrs l)) (bget (rl_pods l)) k"
  shows "\<exists>l'. ForEach refreshID b l = Inr l' \<and> rl_toRemove l' = rl_toRemove l \<and>
     bget (rl_ctrs l') = on_keys refreshed_ctr (set (bkeys b)) (bget (rl_ctrs l)) \<and>
     bget (rl_pods l') = on_keys refreshed_pod (set (bkeys b) - dom (bget (rl_ctrs l))) (bget (rl_pods l))"
  using assms
proof (induction b arbitrary: l)
  case Nil
  then show ?case by (simp add: bkeys_def on_keys_def)
next
  case (Cons kv b)
  obtain k n where kv: "kv = (k, n)" by (cases kv)
  have bk: "bkeys ((k, n) # b) = k # bkeys b" by (simp add: bkeys_def)
  have k: "refreshable (bget (rl_ctrs l)) (bget (rl_pods l)) k" using Cons.prems by (simp add: kv bk)
  show ?case
  proof (cases "bget (rl_ctrs l) k")
    case (Some c)
    let ?l1 = "l\<lparr>rl_ctrs := bins k (refreshed_ctr c) (rl_ctrs l)\<rparr>"
    have step: "refreshID k n l = Inr ?l1"
      using k Some by (auto simp: refreshID_def refreshable_def refreshCtrState_eq)
    have d: "insert k (dom (bget (rl_ctrs l))) = dom (bget (rl_ctrs l))" using Some by blast
    have "\<forall>j \<in> set (bkeys b). refreshable (bget (rl_ctrs ?l1)) (bget (rl_pods ?l1)) j"
      using Cons.prems Some by (simp add: kv bk bget_bins refreshable_upd(1) del: fun_upd_apply)
    from Cons.IH[OF this] show ?thesis
      using Some d by (simp add: kv bk step bget_bins on_keys_step insert_Diff_if domIff del: fun_upd_apply)
  next
    case None
    with k obtain p where p: "bget (rl_pods l) k = Some p" "refreshPodState p = Inr (refreshed_pod p)"
      by (auto simp: refreshable_def refreshPodState_eq split: option.splits)
    let ?l1 = "l\<lparr>rl_pods := bins k (refreshed_pod p) (rl_pods l)\<rparr>"
    have step: "refreshID k n l = Inr ?l1" using p None by (simp add: refreshID_def)
    have o: "on_keys refreshed_ctr (insert k K) (bget (rl_ctrs l)) = on_keys refreshed_ctr K (bget (rl_ctrs l))" for K
      using None by (auto simp: on_keys_def fun_eq_iff)
    have s: "insert k K - dom (bget (rl_ctrs l)) = insert k (K - dom (bget (rl_ctrs l)))" for K
      using None by auto
    have "\<forall>j \<in> set (bkeys b). refreshable (bget (rl_ctrs ?l1)) (bget (rl_pods ?l1)) j"
      using Cons.prems p by (simp add: kv bk bget_bins refreshable_upd(2) del: fun_upd_apply)
    from Cons.IH[OF this] show ?thesis
      using p(1) by (simp add: kv bk step bget_bins on_keys_step o s del: fun_upd_apply)
  qed
qed

lemma refreshVolumes:
  assumes "\<forall>v \<in> set (bkeys b). \<exists>x. bget vs v = Some x \<and> vb_state x \<noteq> Some Malformed"
  shows "\<exists>vs'. ForEach refreshVolume b vs = Inr vs' \<and> bget vs' = on_keys refreshed_vol (set (bkeys b)) (bget vs)"
  using assms
proof (induction b arbitrary: vs)
  case Nil
  then show ?case by (simp add: bkeys_def on_keys_def)
next
  case (Cons kv b)
  obtain k n where kv: "kv = (k, n)" by (cases kv)
  have bk: "bkeys ((k, n) # b) = k # bkeys b" by (simp add: bkeys_def)
  obtain x where x: "bget vs k = Some x" "vb_state x \<noteq> Some Malformed" using Cons.prems by (auto simp: kv bk)
  have "\<exists>vs1. refreshVolume k n vs = Inr vs1 \<and> bget vs1 = (bget vs)(k \<mapsto> refreshed_vol x)"
  proof (cases "vb_state x")
    case None
    then have "refreshed_vol x = x" by (simp add: refreshed_vol_def)
    with None x(1) show ?thesis by (auto simp: refreshVolume_def)
  next
    case (Some j)
    with x show ?thesis
      by (cases j) (auto simp: refreshVolume_def refreshed_vol_def Marshal_def bolt_simps)
  qed
  then obtain vs1 where vs1: "refreshVolume k n vs = Inr vs1" "bget vs1 = (bget vs)(k \<mapsto> refreshed_vol x)" by blast
  have "vb_state (refreshed_vol x) \<noteq> Some Malformed"
    using x(2) by (auto simp: refreshed_vol_def split: option.splits json.splits)
  then have "\<forall>v \<in> set (bkeys b). \<exists>y. bget vs1 v = Some y \<and> vb_state y \<noteq> Some Malformed"
    using Cons.prems by (simp add: kv bk vs1(2))
  from Cons.IH[OF this] x(1) show ?case
    by (simp add: kv bk vs1 on_keys_step del: fun_upd_apply)
qed

section \<open>The whole refresh\<close>

text \<open>
  A volume that was saved without a state does not decode, and then the refresh
  fails; the other states always decode in a well-formed database.
\<close>

definition vol_states_ok :: "boltdb \<Rightarrow> bool" where
  "vol_states_ok d \<longleftrightarrow> (\<forall>v b. vols d v = Some b \<longrightarrow> vb_state b \<noteq> Some Malformed)"

definition db_refreshed :: "boltdb \<Rightarrow> boltdb \<Rightarrow> bool" where
  "db_refreshed d d' \<longleftrightarrow>
     ids d' = ids d \<and> names d' = names d \<and> allCtrs d' = allCtrs d \<and> allPods d' = allPods d \<and>
     allVols d' = allVols d \<and>
     ctrs d' = map_option refreshed_ctr \<circ> ctrs d \<and> pods d' = map_option refreshed_pod \<circ> pods d \<and>
     vols d' = map_option refreshed_vol \<circ> vols d \<and> execs d' = Map.empty \<and>
     db_exitCode d' = Some [] \<and> db_exitTime d' = Some [] \<and> (needsUpdate d' \<longleftrightarrow> needsUpdate d)"

lemma on_keys_all:
  "(\<And>k v. m k = Some v \<Longrightarrow> k \<in> K) \<Longrightarrow> on_keys f K m = map_option f \<circ> m"
  by (auto simp: on_keys_def fun_eq_iff) (metis not_Some_eq option.simps(8))

lemma wf_reg_ids_None:
  assumes "wf_reg d"
  shows "ids d k = None \<longleftrightarrow> ctrs d k = None \<and> pods d k = None"
proof (cases "ids d k")
  case None
  then show ?thesis using wf_reg_free[OF assms, of k] by simp
next
  case (Some n)
  with wf_regD(5)[OF assms, of k n] wf_regD(2,3)[OF assms, of k] show ?thesis by auto
qed

lemma Refresh_refines:
  assumes "db_wf d" "vol_states_ok d"
  shows "\<exists>d'. Refresh_tx d = Inr d' \<and> db_refreshed d d'"
proof -
  have w: "\<not> needsUpdate d" "wf_reg d" "wf_ctrs d" "wf_pods d" "wf_vols d"
    using assms(1) by (simp_all add: db_wf_def)
  from w(1) obtain i n c ac p ap v av e rc ec et vc where
    d: "db_ids d = Some i" "db_names d = Some n" "db_ctrs d = Some c" "db_allCtrs d = Some ac"
    "db_pods d = Some p" "db_allPods d = Some ap" "db_vols d = Some v" "db_allVols d = Some av"
    "db_exec d = Some e" "db_runtimeConfig d = Some rc" "db_exitCode d = Some ec"
    "db_exitTime d = Some et" "db_volCtrs d = Some vc"
    by (rule needsUpdate_Some)
  have key: "k \<in> set (bkeys i) \<longleftrightarrow> bget c k \<noteq> None \<or> bget p k \<noteq> None" for k
    using wf_reg_ids_None[OF w(2), of k] by (auto simp: d set_bkeys)
  let ?l = "\<lparr>rl_ctrs = c, rl_pods = p, rl_toRemove = []\<rparr>"
  have "refreshable (bget c) (bget p) k" if "k \<in> set (bkeys i)" for k
  proof (cases "bget c k")
    case None
    with that key obtain x where "bget p k = Some x" by auto
    with None wf_podsD(1)[OF w(4), of k x] show ?thesis by (auto simp: refreshable_def d wf_pod_bkt_def)
  next
    case (Some x)
    then show ?thesis using w(3) by (auto simp: refreshable_def wf_ctrs_def wf_ctr_bkt_def d)
  qed
  then have "\<forall>k \<in> set (bkeys i). refreshable (bget (rl_ctrs ?l)) (bget (rl_pods ?l)) k" by simp
  from refreshIDs[OF this] obtain l where l: "ForEach refreshID i ?l = Inr l" "rl_toRemove l = []"
    "bget (rl_ctrs l) = on_keys refreshed_ctr (set (bkeys i)) (bget c)"
    "bget (rl_pods l) = on_keys refreshed_pod (set (bkeys i) - dom (bget c)) (bget p)"
    by auto
  have "\<exists>x. bget v k = Some x \<and> vb_state x \<noteq> Some Malformed" if "k \<in> set (bkeys av)" for k
    using that wf_volsD(1)[OF w(5), of k] assms(2) by (auto simp: vol_states_ok_def d set_bkeys)
  then obtain v' where v': "ForEach refreshVolume av v = Inr v'"
    "bget v' = on_keys refreshed_vol (set (bkeys av)) (bget v)"
    using refreshVolumes by blast
  let ?d' = "d\<lparr>db_ids := Some i, db_names := Some n, db_ctrs := Some (rl_ctrs l), db_pods := Some (rl_pods l),
     db_vols := Some v', db_exec := Some [], db_exitCode := Some [], db_exitTime := Some []\<rparr>"
  have "Refresh_tx d = Inr ?d'" by (simp add: Refresh_tx_def db_defs d l v'(1))
  moreover have "bget (rl_ctrs l) = map_option refreshed_ctr \<circ> bget c"
    unfolding l(3) by (rule on_keys_all) (simp add: key)
  moreover have "bget (rl_pods l) = map_option refreshed_pod \<circ> bget p"
    unfolding l(4)
  proof (rule on_keys_all)
    fix k x assume "bget p k = Some x"
    with wf_regD(4)[OF w(2), of k] show "k \<in> set (bkeys i) - dom (bget c)" by (auto simp: key d)
  qed
  moreover have "bget v' = map_option refreshed_vol \<circ> bget v"
    unfolding v'(2)
  proof (rule on_keys_all)
    fix k x assume "bget v k = Some x"
    with wf_volsD(1)[OF w(5), of k] show "k \<in> set (bkeys av)" by (auto simp: set_bkeys d)
  qed
  ultimately show ?thesis by (simp add: db_refreshed_def d needsUpdate_def)
qed

lemma rel_refreshed:
  "depends (map_option refreshed_ctr \<circ> m) = depends m" "mounts (map_option refreshed_ctr \<circ> m) = mounts m"
  "dependents (map_option refreshed_ctr \<circ> m) = dependents m" "pod_of (map_option refreshed_ctr \<circ> m) = pod_of m"
  "sessions (map_option refreshed_ctr \<circ> m) i = {}"
  "members (map_option refreshed_pod \<circ> pm) = members pm"
  "volume_users (map_option refreshed_vol \<circ> vm) = volume_users vm"
proof -
  show "sessions (map_option refreshed_ctr \<circ> m) i = {}"
  proof (cases "m i")
    case (Some b)
    then show ?thesis by (cases "cb_exec b") (auto simp: sessions_def refreshed_ctr_def)
  qed (simp add: sessions_def)
qed (auto simp: fun_eq_iff rel_defs refreshed_ctr_def refreshed_pod_def refreshed_vol_def split: option.split bind_split)

lemma db_refreshed_wf:
  assumes "db_refreshed d d'" "db_wf d"
  shows "db_wf d'"
proof -
  have w: "\<not> needsUpdate d" "wf_reg d" "wf_ctrs d" "wf_deps d" "wf_pods d" "wf_vols d" "wf_exec d"
    using assms(2) by (simp_all add: db_wf_def)
  have r: "ids d' = ids d" "names d' = names d" "allCtrs d' = allCtrs d" "allPods d' = allPods d"
    "allVols d' = allVols d" "ctrs d' = map_option refreshed_ctr \<circ> ctrs d"
    "pods d' = map_option refreshed_pod \<circ> pods d" "vols d' = map_option refreshed_vol \<circ> vols d"
    "execs d' = Map.empty" "needsUpdate d' \<longleftrightarrow> needsUpdate d"
    using assms(1) by (simp_all add: db_refreshed_def)
  have c: "wf_ctr_bkt i x (refreshed_ctr b)" if "wf_ctr_bkt i x b" for i x b
    using that by (auto simp: wf_ctr_bkt_def refreshed_ctr_def)
  have p: "wf_pod_bkt i x (refreshed_pod b)" if "wf_pod_bkt i x b" for i x b
    using that by (auto simp: wf_pod_bkt_def refreshed_pod_def)
  have "registries_inverse (bk (db_ids d')) (bk (db_names d')) \<longleftrightarrow> registries_inverse (bk (db_ids d)) (bk (db_names d))"
    by (simp add: registries_inverse_def r)
  then have "wf_reg d'" using w(2) by (simp add: wf_reg_def r)
  moreover have "wf_ctrs d'" using w(3) c by (auto simp: wf_ctrs_def r)
  moreover have "wf_deps d'" using w(4) by (simp add: wf_deps_def r rel_refreshed)
  moreover have "wf_pods d'" using wf_podsD[OF w(5)] p by (auto simp: wf_pods_def r rel_refreshed)
  moreover have "wf_vols d'"
    using wf_volsD[OF w(6)] by (auto simp: wf_vols_def r rel_refreshed refreshed_vol_def)
  moreover have "wf_exec d'" by (simp add: wf_exec_def r rel_refreshed)
  ultimately show ?thesis using w(1) r(10) by (simp add: db_wf_def)
qed

end
