(* ===== verification/BoltReach.thy ===== *)
theory BoltReach
  imports BoltRefresh
begin

text \<open>
  The state database as a transition system. \<open>db_op\<close> has a constructor for every operation of
  the state interface that may write the database, \<open>run_op\<close> runs one, and \<open>reachable\<close> are the
  states that sequences of operations reach from the opening of a new file. Every operation
  is atomic, and every reachable database satisfies the invariant.
\<close>

section \<open>Operations\<close>

datatype db_op =
    OpRefresh
  | OpValidateDBConfig RuntimeConfig StoreOptions
  | OpAddContainer Container
  | OpRemoveContainer Container
  | OpSaveContainer Container
  | OpRewriteContainerConfig Container ContainerConfig
  | OpSafeRewriteContainerConfig Container string string ContainerConfig
  | OpGetNetworks Runtime Container
  | OpNetworkConnect Container string PerNetworkOptions
  | OpNetworkModify Container string PerNetworkOptions
  | OpNetworkDisconnect Container string
  | OpAddExecSession Container ExecSession
  | OpRemoveExecSession ExecSession
  | OpRemoveContainerExecSessions Container
  | OpAddContainerExitCode int string "32 word"
  | OpPruneContainerExitCodes int
  | OpAddPod Pod
  | OpRemovePod Pod
  | OpRemovePodContainers Pod
  | OpAddContainerToPod Pod Container
  | OpRemoveContainerFromPod Pod Container
  | OpSavePod Pod
  | OpRewritePodConfig Pod PodConfig
  | OpAddVolume Volume
  | OpRemoveVolume Volume
  | OpSaveVolume Volume
  | OpRewriteVolumeConfig Volume VolumeConfig

definition res3 :: "('o, 'a) op_result \<Rightarrow> (BoltState \<times> (error + unit)) option" where
  "res3 = map_option (\<lambda>(s, _, r). (s, bindE r (\<lambda>_. Inr ())))"

definition res4 ::
  "(BoltState \<times> 'p \<times> 'c \<times> (error + unit)) option \<Rightarrow> (BoltState \<times> (error + unit)) option" where
  "res4 = map_option (\<lambda>(s, _, _, r). (s, r))"

fun run_op :: "db_op \<Rightarrow> BoltState \<Rightarrow> (BoltState \<times> (error + unit)) option" where
  "run_op OpRefresh s = Refresh s"
| "run_op (OpValidateDBConfig rc so) s = ValidateDBConfig rc so s"
| "run_op (OpAddContainer c) s = res3 (AddContainer s c)"
| "run_op (OpRemoveContainer c) s = res3 (RemoveContainer s c)"
| "run_op (OpSaveContainer c) s = res3 (SaveContainer s c)"
| "run_op (OpRewriteContainerConfig c cfg) s = res3 (RewriteContainerConfig s c cfg)"
| "run_op (OpSafeRewriteContainerConfig c old new cfg) s = res3 (SafeRewriteContainerConfig s c old new cfg)"
| "run_op (OpGetNetworks rt c) s = res3 (GetNetworks rt s c)"
| "run_op (OpNetworkConnect c net opts) s = res3 (NetworkConnect s c net opts)"
| "run_op (OpNetworkModify c net opts) s = res3 (NetworkModify s c net opts)"
| "run_op (OpNetworkDisconnect c net) s = res3 (NetworkDisconnect s c net)"
| "run_op (OpAddExecSession c es) s = res3 (AddExecSession s c es)"
| "run_op (OpRemoveExecSession es) s = RemoveExecSession s es"
| "run_op (OpRemoveContainerExecSessions c) s = res3 (RemoveContainerExecSessions s c)"
| "run_op (OpAddContainerExitCode now cid code) s = AddContainerExitCode s now cid code"
| "run_op (OpPruneContainerExitCodes now) s = PruneContainerExitCodes s now"
| "run_op (OpAddPod p) s = res3 (AddPod s p)"
| "run_op (OpRemovePod p) s = res3 (RemovePod s p)"
| "run_op (OpRemovePodContainers p) s = res3 (RemovePodContainers s p)"
| "run_op (OpAddContainerToPod p c) s = res4 (AddContainerToPod s p c)"
| "run_op (OpRemoveContainerFromPod p c) s = res4 (RemoveContainerFromPod s p c)"
| "run_op (OpSavePod p) s = res3 (SavePod s p)"
| "run_op (OpRewritePodConfig p cfg) s = res3 (RewritePodConfig s p cfg)"
| "run_op (OpAddVolume v) s = res3 (AddVolume s v)"
| "run_op (OpRemoveVolume v) s = res3 (RemoveVolume s v)"
| "run_op (OpSaveVolume v) s = res3 (SaveVolume s v)"
| "run_op (OpRewriteVolumeConfig v cfg) s = res3 (RewriteVolumeConfig s v cfg)"

text \<open>
  The shape that all operations share: either the database is not touched, or one bracketed
  transaction ran. \<open>op_tx op\<close> is the body of that transaction.
\<close>

definition strip_networks :: "Container \<Rightarrow> Container" where
  "strip_networks c = c\<lparr>ctr_config := (ctr_config c)\<lparr>cfg_Networks := []\<rparr>\<rparr>"

definition nets_of :: "Container \<Rightarrow> (string \<times> netval) list" where
  "nets_of c = (case marshalNetworks (ctr_ID c) (cfg_Networks (ctr_config c)) of Inr n \<Rightarrow> n | Inl _ \<Rightarrow> [])"

definition forget :: "boltdb \<times> (txerr + 'a) \<Rightarrow> boltdb \<times> (txerr + unit)" where
  "forget = (\<lambda>(d, r). (d, bindE r (\<lambda>_. Inr ())))"

fun op_tx :: "db_op \<Rightarrow> boltdb \<Rightarrow> boltdb \<times> (txerr + unit)" where
  "op_tx OpRefresh = UpdateU (\<lambda>tx. lift (Refresh_tx tx))"
| "op_tx (OpValidateDBConfig rc so) = checkRuntimeConfig rc so"
| "op_tx (OpAddContainer c) = UpdateU (addContainer_tx (strip_networks c) None (nets_of c))"
| "op_tx (OpRemoveContainer c) = UpdateU (removeContainer c None)"
| "op_tx (OpSaveContainer c) = UpdateU (SaveContainer_tx c)"
| "op_tx (OpRewriteContainerConfig c cfg) = UpdateU (rewriteConfig_tx c cfg)"
| "op_tx (OpSafeRewriteContainerConfig c old new cfg) = UpdateU (SafeRewrite_tx c old new cfg)"
| "op_tx (OpGetNetworks rt c) = (\<lambda>d. forget (GetNetworks_body rt c d))"
| "op_tx (OpNetworkConnect c net opts) = UpdateU (networkModify_tx c net opts True)"
| "op_tx (OpNetworkModify c net opts) = UpdateU (networkModify_tx c net opts False)"
| "op_tx (OpNetworkDisconnect c net) = UpdateU (NetworkDisconnect_tx c net)"
| "op_tx (OpAddExecSession c es) = UpdateU (AddExecSession_tx c es)"
| "op_tx (OpRemoveExecSession es) = UpdateU (\<lambda>tx. lift (RemoveExecSession_tx es tx))"
| "op_tx (OpRemoveContainerExecSessions c) = UpdateU (RemoveContainerExecSessions_tx c)"
| "op_tx (OpAddContainerExitCode now cid code) = UpdateU (\<lambda>tx. lift (AddContainerExitCode_tx cid code now tx))"
| "op_tx (OpPruneContainerExitCodes now) = prune_body now"
| "op_tx (OpAddPod p) = UpdateU (\<lambda>tx. lift (AddPod_tx p tx))"
| "op_tx (OpRemovePod p) = UpdateU (RemovePod_tx p)"
| "op_tx (OpRemovePodContainers p) = UpdateU (RemovePodContainers_tx p)"
| "op_tx (OpAddContainerToPod p c) = UpdateU (addContainer_tx (strip_networks c) (Some p) (nets_of c))"
| "op_tx (OpRemoveContainerFromPod p c) = UpdateU (removeContainer c (Some p))"
| "op_tx (OpSavePod p) = UpdateU (SavePod_tx p)"
| "op_tx (OpRewritePodConfig p cfg) = UpdateU (RewritePodConfig_tx p cfg)"
| "op_tx (OpAddVolume v) = UpdateU (\<lambda>tx. lift (AddVolume_tx v tx))"
| "op_tx (OpRemoveVolume v) = UpdateU (RemoveVolume_tx v)"
| "op_tx (OpSaveVolume v) = UpdateU (SaveVolume_tx v)"
| "op_tx (OpRewriteVolumeConfig v cfg) = UpdateU (RewriteVolumeConfig_tx v cfg)"

lemma bindE_unit: "bindE r Inr = r"
  by (cases r) auto

lemma withDBCon_forget:
  "withDBCon s (\<lambda>d. forget (g d)) = map_option (\<lambda>(s', r). (s', bindE r (\<lambda>_. Inr ()))) (withDBCon s g)"
  by (auto simp: withDBCon_def forget_def split: option.split sum.split prod.split)

lemma dropinv_bindE: "bindE (dropinv x) (\<lambda>_. Inr ()) = dropinv (bindE x (\<lambda>_. Inr ()))"
  by (cases x) (auto simp: dropinv_def)

lemma res3_op:
  "res3 (ctrOp s c g) = pureOp s (\<lambda>d. forget (g d))"
  "res3 (podOp s p g) = pureOp s (\<lambda>d. forget (g d))"
  "res3 (volOp s v g) = pureOp s (\<lambda>d. forget (g d))"
  by (simp_all add: res3_def op_defs withDBCon_forget option.map_comp comp_def case_prod_beta dropinv_bindE)

lemma res3_Some: "res3 (Some (s, x, r)) = Some (s, bindE r (\<lambda>_. Inr ()))"
  by (simp add: res3_def)

lemma forget_UpdateU [simp]: "(\<lambda>d. forget (UpdateU f d)) = UpdateU f"
  by (simp add: fun_eq_iff forget_def case_prod_beta bindE_unit)

lemma pureOp_eq_Some:
  "pureOp s g = Some (s', r) \<longleftrightarrow> (\<exists>r'. withDBCon s g = Some (s', r') \<and> r = dropinv r')"
  by (auto simp: pureOp_def)

lemma pureOp_ready:
  "ready s \<Longrightarrow> pureOp s g = Some (s\<lparr>bs_db := fst (g (bs_db s))\<rparr>, dropinv (snd (g (bs_db s))))"
  by (simp add: pureOp_def withDBCon_ready)

lemma addContainer_eq:
  "map_option (\<lambda>(s', _, _, r). (s', r)) (addContainer s c p) =
     (case marshalNetworks (ctr_ID c) (cfg_Networks (ctr_config c)) of
        Inl e \<Rightarrow> Some (s, Inl e)
      | Inr _ \<Rightarrow> pureOp s (UpdateU (addContainer_tx (strip_networks c) p (nets_of c))))"
  by (auto simp: addContainer_def Let_def strip_networks_def nets_of_def pureOp_def option.map_comp
      comp_def split: sum.split intro!: option.map_cong0)

lemma run_AddContainer:
  "res3 (AddContainer s c) =
     (if \<not> bs_valid s then Some (s, Inl ErrDBClosed)
      else if \<not> ctr_valid c then Some (s, Inl ErrCtrRemoved)
      else if cfg_Pod (ctr_config c) \<noteq> [] then Some (s, Inl ErrInvalidArg)
      else map_option (\<lambda>(s', _, _, r). (s', r)) (addContainer s c None))"
  by (auto simp: AddContainer_def res3_def option.map_comp comp_def bindE_unit intro!: option.map_cong0)

lemma run_AddContainerToPod:
  "res4 (AddContainerToPod s p c) =
     (if \<not> bs_valid s then Some (s, Inl ErrDBClosed)
      else if \<not> pod_valid p then Some (s, Inl ErrPodRemoved)
      else if \<not> ctr_valid c then Some (s, Inl ErrCtrRemoved)
      else if cfg_Pod (ctr_config c) \<noteq> pod_ID p then Some (s, Inl ErrNoSuchCtr)
      else map_option (\<lambda>(s', _, _, r). (s', r)) (addContainer s c (Some p)))"
  by (auto simp: AddContainerToPod_def res4_def option.map_comp comp_def intro!: option.map_cong0)

lemma run_RemoveContainerFromPod:
  "res4 (RemoveContainerFromPod s p c) =
     (if \<not> bs_valid s then Some (s, Inl ErrDBClosed)
      else if \<not> pod_valid p then Some (s, Inl ErrPodRemoved)
      else if cfg_Pod (ctr_config c) = [] then Some (s, Inl ErrNoSuchPod)
      else if cfg_Pod (ctr_config c) \<noteq> pod_ID p then Some (s, Inl ErrInvalidArg)
      else pureOp s (UpdateU (removeContainer c (Some p))))"
  by (auto simp: RemoveContainerFromPod_def res4_def pureOp_def option.map_comp comp_def intro!: option.map_cong0)

text \<open>What the checks before the transaction established.\<close>

fun op_pre :: "db_op \<Rightarrow> bool" where
  "op_pre (OpAddContainer c) \<longleftrightarrow> cfg_Pod (ctr_config c) = []"
| "op_pre (OpRemoveContainer c) \<longleftrightarrow> cfg_Pod (ctr_config c) = []"
| "op_pre (OpAddContainerToPod p c) \<longleftrightarrow> cfg_Pod (ctr_config c) = pod_ID p"
| "op_pre (OpRemoveContainerFromPod p c) \<longleftrightarrow> cfg_Pod (ctr_config c) = pod_ID p"
| "op_pre (OpSafeRewriteContainerConfig c old new cfg) \<longleftrightarrow> (new \<noteq> [] \<longrightarrow> cfg_Name cfg = new)"
| "op_pre _ \<longleftrightarrow> True"

lemmas run_op_defs = Refresh_def ValidateDBConfig_def RemoveContainer_def SaveContainer_def
  RewriteContainerConfig_def SafeRewriteContainerConfig_def NetworkConnect_def NetworkModify_def
  networkModify_def NetworkDisconnect_def GetNetworks_def AddExecSession_def RemoveExecSession_def
  RemoveContainerExecSessions_def AddContainerExitCode_def PruneContainerExitCodes_def AddPod_def
  RemovePod_def RemovePodContainers_def SavePod_def RewritePodConfig_def AddVolume_def RemoveVolume_def
  SaveVolume_def RewriteVolumeConfig_def run_AddContainer run_AddContainerToPod
  run_RemoveContainerFromPod addContainer_eq

lemma run_op_cases:
  "(\<exists>r. run_op op s = Some (s, r)) \<or> run_op op s = pureOp s (op_tx op) \<and> op_pre op"
  by (cases op) (simp_all add: run_op_defs res3_op res3_Some split: sum.split)

lemma run_op_bracket:
  assumes "run_op op s = Some (s', r)"
  shows "s' = s \<or> (\<exists>r'. withDBCon s (op_tx op) = Some (s', r') \<and> r = dropinv r' \<and> op_pre op)"
  using run_op_cases[of op s] assms pureOp_eq_Some[of s "op_tx op" s' r] by auto

section \<open>Atomicity\<close>

lemma UpdateU_error: "snd (UpdateU f d) = Inl e \<Longrightarrow> fst (UpdateU f d) = d"
  by (auto simp: Update_fst Update_snd split: sum.splits)

lemma op_tx_error: "snd (op_tx op d) = Inl e \<Longrightarrow> fst (op_tx op d) = d"
  by (cases op)
    (auto simp: UpdateU_error checkRuntimeConfig_def prune_body_def GetNetworks_body_def forget_def
      bindE_def Update_def split: sum.splits if_splits prod.splits)

lemma withDBCon_error:
  assumes "withDBCon s g = Some (s', Inl e)" "\<And>d. snd (g d) = Inl e \<Longrightarrow> fst (g d) = d"
  shows "bs_db s' = bs_db s"
  using assms(1) assms(2)[of "bs_db s"]
  by (auto simp: withDBCon_def getDBCon_def closeDBCon_def Let_def split: if_splits option.splits prod.splits)

section \<open>Reachable states\<close>

text \<open>
  What the callers guarantee: the objects they pass were read from this database. A container
  that is removed or renamed agrees with its stored configuration, a rewritten configuration keeps
  the links of the object, and the exec sessions of a pod's containers were removed
  before its containers are.
\<close>

fun allowed :: "db_op \<Rightarrow> boltdb \<Rightarrow> bool" where
  "allowed (OpRemoveContainer c) d \<longleftrightarrow> synced c d"
| "allowed (OpRemoveContainerFromPod p c) d \<longleftrightarrow> synced c d"
| "allowed (OpRewriteContainerConfig c cfg) d \<longleftrightarrow>
     (\<forall>old. config_of (ctrs d) (ctr_ID c) = Some old \<longrightarrow> same_links old cfg \<and> cfg_Name cfg = cfg_Name old)"
| "allowed (OpSafeRewriteContainerConfig c old new cfg) d \<longleftrightarrow>
     synced c d \<and> old = ctr_Name c \<and> (new = [] \<longrightarrow> cfg_Name cfg = old) \<and>
     (\<forall>x. config_of (ctrs d) (ctr_ID c) = Some x \<longrightarrow> same_links x cfg)"
| "allowed (OpRemovePod p) d \<longleftrightarrow> pod_synced p d"
| "allowed (OpRemovePodContainers p) d \<longleftrightarrow>
     (\<forall>i. pod_of (ctrs d) i = Some (pod_ID p) \<longrightarrow> sessions (ctrs d) i = {})"
| "allowed (OpRewritePodConfig p cfg) d \<longleftrightarrow>
     pc_ID cfg = pod_ID p \<and> allPods d (pod_ID p) = Some (pc_Name cfg)"
| "allowed (OpRewriteVolumeConfig v cfg) d \<longleftrightarrow> vc_Name cfg = vol_Name v"
| "allowed _ d \<longleftrightarrow> True"

inductive reachable :: "BoltState \<Rightarrow> bool" where
  opened: "NewBoltState None blank_db = Inr s \<Longrightarrow> reachable s"
| step: "reachable s \<Longrightarrow> allowed op (bs_db s) \<Longrightarrow> run_op op s = Some (s', r) \<Longrightarrow> reachable s'"
| closed: "reachable s \<Longrightarrow> reachable (Close s)"
| io_error: "reachable s \<Longrightarrow> reachable (s\<lparr>bs_openErr := e\<rparr>)"

lemma UpdateU_wf:
  assumes "db_wf d" "\<And>d'. f d = Inr d' \<Longrightarrow> db_wf d'"
  shows "db_wf (fst (UpdateU f d))"
  using assms by (auto simp: Update_fst split: sum.split)

lemma db_wf_indep:
  assumes "db_wf d"
  shows "db_wf (d\<lparr>db_runtimeConfig := Some rc\<rparr>)" "db_wf (d\<lparr>db_exitCode := Some ec, db_exitTime := Some et\<rparr>)"
  using assms by (simp_all add: wf_defs needsUpdate_def)

lemma checkRuntimeConfig_wf: "db_wf d \<Longrightarrow> db_wf (fst (checkRuntimeConfig rc so d))"
  by (auto simp: checkRuntimeConfig_def populateFields_def err_simps intro!: UpdateU_wf db_wf_indep split: sum.split)

lemma prune_wf: "db_wf d \<Longrightarrow> db_wf (fst (prune_body now d))"
  by (auto simp: prune_body_def deleteExitCodes_def err_simps intro!: UpdateU_wf db_wf_indep split: sum.split)

lemma AddContainerExitCode_tx_wf: "AddContainerExitCode_tx cid code now d = Inr d' \<Longrightarrow> db_wf d \<Longrightarrow> db_wf d'"
  by (auto simp: AddContainerExitCode_tx_def err_simps intro!: db_wf_indep)

lemma addContainer_tx_wf:
  assumes "addContainer_tx (strip_networks c) p nets d = Inr d'" "db_wf d"
    and "cfg_Pod (ctr_config c) = (case p of None \<Rightarrow> [] | Some q \<Rightarrow> pod_ID q)"
  shows "db_wf d'"
  using addContainer_refines[OF assms(1)] ctr_added_wf[OF _ assms(2)] assms(3)
  by (auto simp: strip_networks_def)

lemma removeContainer_wf:
  assumes "removeContainer c p d = Inr d'" "db_wf d" "synced c d"
    and "cfg_Pod (ctr_config c) = (case p of None \<Rightarrow> [] | Some q \<Rightarrow> pod_ID q)"
  shows "db_wf d'"
  using ctr_removed_wf[OF removeContainer_refines[OF assms(1)] assms(2-4)] .

lemma refreshVolume_eq_Inr:
  assumes "refreshVolume k n vs = Inr vs1"
  shows "\<exists>x y. bget vs k = Some x \<and> vb_state x \<noteq> Some Malformed \<and> bget vs1 = (bget vs)(k \<mapsto> y)"
proof -
  from assms obtain x where x: "bget vs k = Some x" by (auto simp: refreshVolume_def err_simps)
  show ?thesis
  proof (cases "vb_state x")
    case None
    with assms x have "vs1 = vs" "(bget vs)(k \<mapsto> x) = bget vs" by (auto simp: refreshVolume_def fun_upd_idem)
    with None x show ?thesis by (intro exI[of _ x]) simp
  next
    case (Some j)
    with assms x show ?thesis by (cases j) (auto simp: refreshVolume_def bolt_simps)
  qed
qed

lemma refreshVolumes_ok:
  assumes "ForEach refreshVolume b vs = Inr vs'" "k \<in> set (bkeys b)"
  shows "\<exists>x. bget vs k = Some x \<and> vb_state x \<noteq> Some Malformed"
  using assms
proof (induction b arbitrary: vs)
  case Nil
  then show ?case by (simp add: bkeys_def)
next
  case (Cons kv b)
  obtain j n where kv: "kv = (j, n)" by (cases kv)
  from Cons.prems(1) obtain vs1 where s: "refreshVolume j n vs = Inr vs1" "ForEach refreshVolume b vs1 = Inr vs'"
    by (auto simp: kv bindE_eq_Inr)
  show ?case
  proof (cases "k = j")
    case True
    then show ?thesis using refreshVolume_eq_Inr[OF s(1)] by auto
  next
    case False
    then have "k \<in> set (bkeys b)" using Cons.prems(2) by (simp add: kv bkeys_def)
    from Cons.IH[OF s(2) this] refreshVolume_eq_Inr[OF s(1)] False show ?thesis by auto
  qed
qed

lemma Refresh_tx_vol_states:
  assumes "Refresh_tx d = Inr d'" "wf_vols d"
  shows "vol_states_ok d"
  unfolding vol_states_ok_def
proof (intro allI impI)
  fix v b assume b: "vols d v = Some b"
  from assms(1) obtain v' where l: "ForEach refreshVolume (bk (db_allVols d)) (bk (db_vols d)) = Inr v'"
    by (auto simp: Refresh_tx_def db_defs err_simps case_prod_beta)
  have "allVols d v \<noteq> None" using wf_volsD(1)[OF assms(2), of v] b by simp
  then have "v \<in> set (bkeys (bk (db_allVols d)))" by (auto simp: set_bkeys)
  from refreshVolumes_ok[OF l this] b show "vb_state b \<noteq> Some Malformed" by auto
qed

lemma Refresh_tx_wf:
  assumes "Refresh_tx d = Inr d'" "db_wf d"
  shows "db_wf d'"
proof -
  have "vol_states_ok d" using Refresh_tx_vol_states[OF assms(1)] assms(2) by (simp add: db_wf_def)
  then show ?thesis using Refresh_refines[OF assms(2)] db_refreshed_wf[OF _ assms(2)] assms(1) by auto
qed

lemma wf_config:
  assumes "db_wf d" "ctrs d i \<noteq> None"
  shows "\<exists>cfg. config_of (ctrs d) i = Some cfg"
  using assms wf_ctrsD[of d i] by (fastforce simp: db_wf_def config_of_Some)

lemma rename_tx_ctrs: "rename_tx c old new d = Inr d1 \<Longrightarrow> db_ctrs d1 = db_ctrs d"
  by (auto simp: rename_tx_def Let_def err_simps split: option.splits if_splits)

lemma rewriteConfig_tx_ctr: "rewriteConfig_tx c cfg d = Inr d' \<Longrightarrow> ctrs d (ctr_ID c) \<noteq> None"
  by (auto simp: rewriteConfig_tx_def err_simps db_defs)

lemma SafeRewrite_tx_ctr:
  assumes "SafeRewrite_tx c old new cfg d = Inr d'"
  shows "ctrs d (ctr_ID c) \<noteq> None"
proof -
  from assms obtain d1 where "rewriteConfig_tx c cfg d1 = Inr d'" "db_ctrs d1 = db_ctrs d"
    using rename_tx_ctrs by (auto simp: SafeRewrite_tx_def err_simps split: if_splits)
  then show ?thesis using rewriteConfig_tx_ctr by metis
qed

lemma op_tx_wf:
  assumes "db_wf d" "allowed op d" "op_pre op"
  shows "db_wf (fst (op_tx op d))"
proof (cases op)
  case (OpRewriteContainerConfig c cfg)
  have "db_wf d'" if r: "rewriteConfig_tx c cfg d = Inr d'" for d'
  proof -
    obtain old where "config_of (ctrs d) (ctr_ID c) = Some old"
      using wf_config[OF assms(1) rewriteConfig_tx_ctr[OF r]] by blast
    with assms(2) OpRewriteContainerConfig show ?thesis by (auto intro: rewriteConfig_tx_wf[OF r assms(1)])
  qed
  then show ?thesis by (simp add: OpRewriteContainerConfig UpdateU_wf[OF assms(1)])
next
  case (OpSafeRewriteContainerConfig c old new cfg)
  have "db_wf d'" if r: "SafeRewrite_tx c old new cfg d = Inr d'" for d'
  proof -
    obtain x where "config_of (ctrs d) (ctr_ID c) = Some x"
      using wf_config[OF assms(1) SafeRewrite_tx_ctr[OF r]] by blast
    with assms(2,3) OpSafeRewriteContainerConfig show ?thesis
      by (auto intro!: SafeRewrite_tx_wf[OF r assms(1)])
  qed
  then show ?thesis by (simp add: OpSafeRewriteContainerConfig UpdateU_wf[OF assms(1)])
next
  case (OpGetNetworks rt c)
  with assms(1) show ?thesis
    using GetNetworks_wf[of d rt c] by (simp add: forget_def case_prod_beta)
next
  case (OpRemovePodContainers p)
  with assms show ?thesis
    by (auto intro!: UpdateU_wf elim!: pod_emptied_wf[OF RemovePodContainers_refines])
qed (use assms in \<open>auto simp: err_simps intro!: UpdateU_wf checkRuntimeConfig_wf prune_wf
  elim: Refresh_tx_wf addContainer_tx_wf removeContainer_wf SaveContainer_tx_wf networkModify_tx_wf
    NetworkDisconnect_tx_wf AddExecSession_tx_wf RemoveExecSession_tx_wf RemoveContainerExecSessions_tx_wf(1)
    AddContainerExitCode_tx_wf AddPod_tx_wf RemovePod_tx_wf SavePod_tx_wf RewritePodConfig_tx_wf
    AddVolume_tx_wf RemoveVolume_tx_wf SaveVolume_tx_wf RewriteVolumeConfig_tx_wf\<close>)

lemma run_op_wf:
  assumes "run_op op s = Some (s', r)" "db_wf (bs_db s)" "allowed op (bs_db s)"
  shows "db_wf (bs_db s')"
  using run_op_bracket[OF assms(1)] op_tx_wf[OF assms(2,3)] assms(2)
  by (auto simp: withDBCon_def getDBCon_def closeDBCon_def Let_def split: if_splits option.splits prod.splits)

end
