(* ===== verification/BoltOps.thy ===== *)
theory BoltOps
  imports BoltReach
begin

text \<open>
  When the transactions succeed: for adding and removing a container and for emptying and removing a pod,
  the exact conditions, and what the read operations return. The properties rest
  on these lemmas.
\<close>

section \<open>Operations on a state that is ready\<close>

lemma bs_db_self: "s\<lparr>bs_db := bs_db s\<rparr> = s"
  by (cases s) simp

lemma pureOp_Update:
  assumes "ready s"
  shows "pureOp s (UpdateU f) =
     (case f (bs_db s) of Inl e \<Rightarrow> Some (s, Inl (snd e)) | Inr d' \<Rightarrow> Some (s\<lparr>bs_db := d'\<rparr>, Inr ()))"
  by (cases "f (bs_db s)") (auto simp: pureOp_ready[OF assms] Update_fst Update_snd bs_db_self dropinv_def)

lemma pureOp_Update_Inr:
  assumes "ready s"
  shows "pureOp s (UpdateU f) = Some (s', Inr ()) \<longleftrightarrow> (\<exists>d'. f (bs_db s) = Inr d' \<and> s' = s\<lparr>bs_db := d'\<rparr>)"
  unfolding pureOp_Update[OF assms] by (cases "f (bs_db s)") auto

section \<open>Keys\<close>

definition key_ok :: "string \<Rightarrow> bool" where
  "key_ok k \<longleftrightarrow> k \<noteq> [] \<and> length k \<le> MaxKeySize"

lemma Put_ok: "key_ok k \<Longrightarrow> Put b k v = Inr (bins k v b)"
  by (simp add: key_ok_def Put_def)

lemma Put_ok_iff: "(\<exists>b'. Put b k v = Inr b') \<longleftrightarrow> key_ok k"
  by (simp add: key_ok_def err_simps)

section \<open>Adding a container\<close>

definition add_ok :: "Container \<Rightarrow> Pod option \<Rightarrow> (string \<times> netval) list \<Rightarrow> boltdb \<Rightarrow> bool" where
  "add_ok ctr pod nets d \<longleftrightarrow>
     key_ok (ctr_ID ctr) \<and> key_ok (ctr_Name ctr) \<and> list_all (\<lambda>n. key_ok (fst n)) nets \<and>
     ids d (ctr_ID ctr) = None \<and> names d (ctr_Name ctr) = None \<and>
     (pod \<noteq> None \<longrightarrow> pods d (pod_ID (the pod)) \<noteq> None) \<and>
     list_all (\<lambda>j. j = ctr_ID ctr \<or>
       (\<exists>c. ctrs d j = Some c \<and> cb_podID c = map_option pod_ID pod)) (Dependencies ctr) \<and>
     list_all (\<lambda>v. vols d (nv_Name v) \<noteq> None) (cfg_NamedVolumes (ctr_config ctr))"

lemma putAll_ok:
  "(\<exists>b'. foldE (\<lambda>(k, v) b. liftB (Put b k v)) kvs b = Inr b') \<longleftrightarrow> list_all (\<lambda>n. key_ok (fst n)) kvs"
proof (induction kvs arbitrary: b)
  case (Cons kv kvs)
  obtain k v where kv: "kv = (k, v)" by (cases kv)
  show ?case
  proof (cases "key_ok k")
    case True
    then show ?thesis using Cons.IH by (simp add: kv Put_ok)
  next
    case False
    then have "\<nexists>b'. Put b k v = Inr b'" by (simp add: Put_ok_iff)
    with False show ?thesis by (auto simp: kv err_simps)
  qed
qed simp

lemma newCtrBucket_ok:
  "(\<exists>b. newCtrBucket ctr p nets = Inr b) \<longleftrightarrow> list_all (\<lambda>n. key_ok (fst n)) nets"
  using putAll_ok[of nets "[]"] by (auto simp: newCtrBucket_def err_simps)

lemma addDependencies_ok:
  assumes "key_ok i" "\<forall>j \<in> set ds. \<exists>c. bget b j = Some c \<and> cb_podID c = p \<and> cb_deps c \<noteq> None"
  shows "\<exists>b'. foldE (addDependency i n p) ds b = Inr b'"
  using assms(2)
proof (induction ds arbitrary: b)
  case (Cons j ds)
  then obtain c deps where c: "bget b j = Some c" "cb_podID c = p" "cb_deps c = Some deps" by auto
  let ?b = "bins j (c\<lparr>cb_deps := Some (bins i n deps)\<rparr>) b"
  have "addDependency i n p j b = Inr ?b"
    using c assms(1) by (simp add: addDependency_eq_Inr key_ok_def)
  moreover have "\<forall>k \<in> set ds. \<exists>c. bget ?b k = Some c \<and> cb_podID c = p \<and> cb_deps c \<noteq> None"
    using Cons.prems c by (auto simp: bolt_simps)
  ultimately show ?case using Cons.IH by auto
qed simp

lemma addVolumeDependencies_ok:
  assumes "key_ok i" "\<forall>v \<in> set vs. bget b (nv_Name v) \<noteq> None"
  shows "\<exists>b'. foldE (addVolumeDependency i) vs b = Inr b'"
  using assms(2)
proof (induction vs arbitrary: b)
  case (Cons v vs)
  then obtain x where "bget b (nv_Name v) = Some x" by auto
  then obtain b1 where b1: "addVolumeDependency i v b = Inr b1"
    using assms(1)
    by (cases "bget (case vb_deps x of None \<Rightarrow> [] | Some b \<Rightarrow> b) i = None")
      (auto simp: addVolumeDependency_def Let_def Put_ok)
  then have "\<forall>w \<in> set vs. bget b1 (nv_Name w) \<noteq> None"
    using addVolumeDependency_add_user[OF b1] Cons.prems by auto
  with b1 Cons.IH show ?case by auto
qed simp

lemma addContainer_tx_only_if:
  assumes "addContainer_tx ctr pod nets d = Inr d'"
  shows "add_ok ctr pod nets d"
proof -
  have k: "key_ok (ctr_ID ctr)" "key_ok (ctr_Name ctr)"
    using assms by (auto simp: addContainer_tx_def Let_def err_simps key_ok_def)
  obtain b where b: "newCtrBucket ctr (map_option pod_ID pod) nets = Inr b" and a: "ctr_added ctr pod b d d'"
    using addContainer_refines[OF assms] by blast
  have "list_all (\<lambda>n. key_ok (fst n)) nets" using newCtrBucket_ok b by blast
  moreover have "pods d (pod_ID p) \<noteq> None" if "pod = Some p" for p
    using ctr_added_pods(2)[OF a that] by auto
  moreover have "j = ctr_ID ctr \<or> (\<exists>c. ctrs d j = Some c \<and> cb_podID c = map_option pod_ID pod)"
    if "j \<in> set (Dependencies ctr)" for j
  proof -
    from a that have "\<exists>c. ((ctrs d)(ctr_ID ctr \<mapsto> b)) j = Some c \<and> cb_podID c = map_option pod_ID pod"
      unfolding ctr_added_def Let_def by blast
    then show ?thesis by (cases "j = ctr_ID ctr") auto
  qed
  moreover have "vols d (nv_Name v) \<noteq> None" if "v \<in> set (cfg_NamedVolumes (ctr_config ctr))" for v
    using a that unfolding ctr_added_def Let_def by blast
  ultimately show ?thesis
    using k ctr_addedD(1,2)[OF a] by (auto simp: add_ok_def list_all_iff)
qed

lemma addContainer_tx_if:
  assumes "add_ok ctr pod nets d" "db_wf d"
  shows "\<exists>d'. addContainer_tx ctr pod nets d = Inr d'"
proof -
  let ?i = "ctr_ID ctr" and ?n = "ctr_Name ctr" and ?p = "map_option pod_ID pod"
  note ok = assms(1)[unfolded add_ok_def list_all_iff]
  have w: "wf_reg d" "wf_ctrs d" "wf_pods d" "\<not> needsUpdate d" using assms(2) by (simp_all add: db_wf_def)
  then obtain ib nb cb ab vb pb where
    d: "db_ids d = Some ib" "db_names d = Some nb" "db_ctrs d = Some cb" "db_allCtrs d = Some ab"
      "db_vols d = Some vb" "db_pods d = Some pb"
    by (auto simp: needsUpdate_def)
  have free: "bget cb ?i = None" using wf_reg_free(3)[OF w(1), of ?i] ok by (simp add: d)
  obtain b where b: "newCtrBucket ctr ?p nets = Inr b" using ok newCtrBucket_ok[of ctr ?p nets] by (auto simp: list_all_iff)
  have nb: "new_bkt_of ctr ?p b" by (rule newCtrBucket_new[OF b])
  have "\<exists>c. bget (bins ?i b (bins ?i empty_ctr_bkt cb)) j = Some c \<and> cb_podID c = ?p \<and> cb_deps c \<noteq> None"
    if "j \<in> set (Dependencies ctr)" for j
  proof (cases "j = ?i")
    case True
    then show ?thesis using nb by (auto simp: bolt_simps new_bkt_of_def)
  next
    case False
    with ok that obtain c where c: "bget cb j = Some c" "cb_podID c = ?p" by (auto simp: d)
    with w(2) have "cb_deps c \<noteq> None" by (auto simp: wf_ctrs_def wf_ctr_bkt_def d)
    with c False show ?thesis by (simp add: bolt_simps)
  qed
  then obtain cb' where deps: "foldE (addDependency ?i ?n ?p) (Dependencies ctr) (bins ?i b (bins ?i empty_ctr_bkt cb)) = Inr cb'"
    using addDependencies_ok ok by meson
  obtain vb' where vols: "foldE (addVolumeDependency ?i) (cfg_NamedVolumes (ctr_config ctr)) vb = Inr vb'"
    using addVolumeDependencies_ok ok d(5) by (metis bk_Some)
  have "\<exists>x. getPodCtrs pod d = Inr x \<and> (case x of None \<Rightarrow> pod = None | Some (pb', y, cs) \<Rightarrow> True)"
  proof (cases pod)
    case (Some p)
    with ok obtain y where y: "bget pb (pod_ID p) = Some y" by (auto simp: d)
    with wf_podsD(1)[OF w(3), of "pod_ID p" y] obtain cs where "pb_containers y = Some cs"
      by (auto simp: d wf_pod_bkt_def)
    with y Some show ?thesis by (auto simp: getPodCtrs_def db_defs d)
  qed (simp add: getPodCtrs_def)
  then obtain x where x: "getPodCtrs pod d = Inr x" by blast
  show ?thesis
    using ok free b deps vols
    by (cases x) (auto simp: addContainer_tx_def Let_def db_defs d x checkFree_def Put_ok CreateBucket_def key_ok_def)
qed

section \<open>Removing a container\<close>

lemma removeVolumeDependencies_ok:
  assumes "\<And>v b. bget vb v = Some b \<Longrightarrow> vb_deps b \<noteq> None"
  shows "\<exists>b'. foldE (removeVolumeDependency i) vs vb = Inr b'"
  using assms
proof (induction vs arbitrary: vb)
  case (Cons v vs)
  have "\<exists>b1. removeVolumeDependency i v vb = Inr b1"
    using Cons.prems[of "nv_Name v"] by (auto simp: removeVolumeDependency_def split: option.split)
  then obtain b1 where b1: "removeVolumeDependency i v vb = Inr b1" ..
  with removeVolumeDependency_id[OF b1] Cons.IH[of b1] Cons.prems show ?case by auto
qed simp

text \<open>The removal of a container without a pod, in a well-formed database.\<close>

lemma removeContainer_cases:
  assumes "db_wf d"
  shows "removeContainer ctr None d = (case ctrs d (ctr_ID ctr) of
      None \<Rightarrow> Inl (CtrInvalid, ErrNoSuchCtr)
    | Some c \<Rightarrow> if sessions (ctrs d) (ctr_ID ctr) \<noteq> {} then Inl (KeepValid, ErrExecSessionExists)
        else if dependents (ctrs d) (ctr_ID ctr) \<noteq> {} then Inl (KeepValid, ErrDepExists)
        else removeContainer ctr None d) \<and>
   (ctrs d (ctr_ID ctr) \<noteq> None \<longrightarrow> sessions (ctrs d) (ctr_ID ctr) = {} \<longrightarrow>
      dependents (ctrs d) (ctr_ID ctr) = {} \<longrightarrow> (\<exists>d'. removeContainer ctr None d = Inr d'))"
proof -
  have w: "wf_ctrs d" "wf_vols d" "\<not> needsUpdate d" using assms by (simp_all add: db_wf_def)
  then obtain ib nb cb ab vb pb where
    d: "db_ids d = Some ib" "db_names d = Some nb" "db_ctrs d = Some cb" "db_allCtrs d = Some ab"
      "db_vols d = Some vb" "db_pods d = Some pb"
    by (auto simp: needsUpdate_def)
  have "vb_deps b \<noteq> None" if "bget vb v = Some b" for v b
    using wf_volsD(3)[OF w(2), of v b] that by (auto simp: d)
  then obtain vb' where vb': "foldE (removeVolumeDependency (ctr_ID ctr)) (cfg_NamedVolumes (ctr_config ctr)) vb = Inr vb'"
    using removeVolumeDependencies_ok by blast
  show ?thesis
  proof (cases "bget cb (ctr_ID ctr)")
    case None
    then show ?thesis by (simp add: removeContainer_def Let_def db_defs d getPodDB_def)
  next
    case (Some c)
    then obtain deps where deps: "cb_deps c = Some deps"
      using w(1) by (auto simp: wf_ctrs_def wf_ctr_bkt_def d)
    show ?thesis
      using Some deps vb'
      by (cases "cb_exec c")
        (auto simp: removeContainer_def Let_def db_defs d getPodDB_def sessions_def dependents_def bget_empty_iff
          bkeys_Nil_iff DeleteBucket_def guardE_def)
  qed
qed

section \<open>Looking up by prefix\<close>

lemma filter_singleton:
  "distinct xs \<Longrightarrow> filter P xs = [k] \<longleftrightarrow> {x \<in> set xs. P x} = {k}"
proof
  assume d: "distinct xs" and s: "{x \<in> set xs. P x} = {k}"
  then have "set (filter P xs) = {k}" "distinct (filter P xs)" by auto
  then have "card (set (filter P xs)) = length (filter P xs)" using distinct_card by blast
  with \<open>set (filter P xs) = {k}\<close> have "length (filter P xs) = 1" by simp
  then obtain y where "filter P xs = [y]" by (auto simp: length_Suc_conv)
  with \<open>set (filter P xs) = {k}\<close> show "filter P xs = [k]" by simp
next
  assume "filter P xs = [k]"
  then have "set (filter P xs) = {k}" by simp
  then show "{x \<in> set xs. P x} = {k}" by simp
qed

lemma findPrefix_cases:
  assumes "bucket_ok b"
  shows "findPrefix e p b =
     (if {k \<in> dom (bget b). prefix p k} = {} then Inr None
      else if is_singleton {k \<in> dom (bget b). prefix p k}
           then Inr (Some (the_elem {k \<in> dom (bget b). prefix p k}))
           else Inl e)"
proof -
  let ?M = "{k \<in> dom (bget b). prefix p k}" and ?F = "filter (prefix p) (bkeys b)"
  have M: "?M = {k \<in> set (bkeys b). prefix p k}" by (simp add: set_bkeys)
  have F: "?F = [] \<longleftrightarrow> ?M = {}" unfolding M by (auto simp: filter_empty_conv)
  have s: "?F = [k] \<longleftrightarrow> ?M = {k}" for k
    unfolding M by (rule filter_singleton[OF bucket_ok_distinct[OF assms]])
  show ?thesis
  proof (cases ?F)
    case Nil
    then have "?M = {}" using F by blast
    with Nil show ?thesis by (simp add: findPrefix_eq)
  next
    case (Cons k ks)
    then have ne: "?M \<noteq> {}" using F by auto
    show ?thesis
    proof (cases ks)
      case Nil
      with Cons s have "?M = {k}" by simp
      with Nil Cons show ?thesis by (simp add: findPrefix_eq)
    next
      case (Cons k' ks')
      then have "?M \<noteq> {j}" for j using s[of j] \<open>?F = k # ks\<close> by simp
      then have "\<not> is_singleton ?M" by (auto simp: is_singleton_def)
      with ne Cons \<open>?F = k # ks\<close> show ?thesis by (simp add: findPrefix_eq)
    qed
  qed
qed

section \<open>Emptying a pod\<close>

lemma removePodContainers_ok:
  assumes "distinct (map fst b)"
    and "\<forall>(i, n) \<in> set b. \<exists>c. bget (lp_ctrs l) i = Some c \<and> dom (bget (bk (cb_deps c))) \<subseteq> dom (bget pcs)"
  shows "\<exists>l'. ForEach (removePodContainer pcs) b l = Inr l'"
  using assms
proof (induction b arbitrary: l)
  case (Cons kv b)
  obtain i n where kv: "kv = (i, n)" by (cases kv)
  from Cons.prems(2) kv obtain c where c: "bget (lp_ctrs l) i = Some c" "dom (bget (bk (cb_deps c))) \<subseteq> dom (bget pcs)"
    by auto
  have inner: "ForEach (\<lambda>depID _ _. bindE (requireE (bget pcs depID) ErrCtrExists) (\<lambda>_. Inr ())) ds () = Inr ()"
    if "set (bkeys ds) \<subseteq> dom (bget pcs)" for ds :: "string bucket"
    using that by (induction ds) (auto simp: bkeys_def)
  let ?l = "l\<lparr>lp_ctrs := bdel i (lp_ctrs l), lp_ids := bdel i (lp_ids l),
     lp_names := bdel n (lp_names l), lp_allCtrs := bdel i (lp_allCtrs l)\<rparr>"
  have "removePodContainer pcs i n l = Inr ?l"
    using c inner by (cases "cb_deps c") (auto simp: removePodContainer_def DeleteBucket_def set_bkeys)
  moreover have "\<forall>(j, m) \<in> set b. \<exists>c. bget (lp_ctrs ?l) j = Some c \<and> dom (bget (bk (cb_deps c))) \<subseteq> dom (bget pcs)"
  proof (clarify)
    fix j m assume jm: "(j, m) \<in> set b"
    then have "j \<in> fst ` set b" by (rule image_eqI[rotated]) simp
    then have "j \<noteq> i" using Cons.prems(1) by (auto simp: kv)
    moreover from Cons.prems(2) jm obtain c where "bget (lp_ctrs l) j = Some c" "dom (bget (bk (cb_deps c))) \<subseteq> dom (bget pcs)"
      by auto
    ultimately show "\<exists>c. bget (lp_ctrs ?l) j = Some c \<and> dom (bget (bk (cb_deps c))) \<subseteq> dom (bget pcs)"
      by (simp add: bolt_simps)
  qed
  ultimately show ?case using Cons.IH[of ?l] Cons.prems(1) by (auto simp: kv)
qed simp

lemma RemovePodContainers_total:
  assumes "db_wf d" "pods d (pod_ID pod) = Some b" "bucket_ok (bk (pb_containers b))"
  shows "\<exists>d'. RemovePodContainers_tx pod d = Inr d'"
proof -
  have w: "wf_reg d" "wf_deps d" "wf_pods d" "\<not> needsUpdate d" using assms(1) by (simp_all add: db_wf_def)
  then obtain ib nb cb ab pb where
    d: "db_ids d = Some ib" "db_names d = Some nb" "db_ctrs d = Some cb" "db_allCtrs d = Some ab" "db_pods d = Some pb"
    by (auto simp: needsUpdate_def)
  obtain cs where cs: "pb_containers b = Some cs"
    using wf_podsD(1)[OF w(3) assms(2)] by (auto simp: wf_pod_bkt_def)
  have dist: "distinct (map fst cs)" using bucket_ok_distinct[OF assms(3)] by (simp add: cs bkeys_def)
  have M: "members (pods d) (pod_ID pod) = bget cs" using assms(2) cs by (simp add: members_def)
  have "\<exists>c. bget cb i = Some c \<and> dom (bget (bk (cb_deps c))) \<subseteq> dom (bget cs)" if "(i, n) \<in> set cs" for i n
  proof -
    have "bget cs i = Some n" using that bget_distinct[OF dist] by blast
    then have po: "pod_of (ctrs d) i = Some (pod_ID pod)" using wf_podsD(2)[OF w(3), of "pod_ID pod" i n] M by simp
    then obtain c where c: "ctrs d i = Some c" by (cases "ctrs d i") (auto simp: pod_of_def)
    have "j \<in> dom (bget cs)" if "j \<in> dependents (ctrs d) i" for j
    proof -
      have "depends (ctrs d) j i" using that w(2) by (simp add: wf_deps_def)
      then have "pod_of (ctrs d) j = Some (pod_ID pod)" using w(2) po by (simp add: wf_deps_def)
      then show ?thesis using members_iff[OF w(1,3), of j "pod_ID pod"] M by simp
    qed
    with c show ?thesis by (auto simp: dependents_def d)
  qed
  then have "\<forall>(i, n) \<in> set cs. \<exists>c. bget (lp_ctrs \<lparr>lp_ctrs = cb, lp_ids = ib, lp_names = nb, lp_allCtrs = ab\<rparr>) i = Some c \<and>
      dom (bget (bk (cb_deps c))) \<subseteq> dom (bget cs)" by auto
  from removePodContainers_ok[OF dist this] obtain l where
    "ForEach (removePodContainer cs) cs \<lparr>lp_ctrs = cb, lp_ids = ib, lp_names = nb, lp_allCtrs = ab\<rparr> = Inr l" by blast
  with assms(2) cs show ?thesis by (simp add: RemovePodContainers_tx_def Let_def db_defs d)
qed

end
