(* ===== verification/BoltProps.thy ===== *)
theory BoltProps
  imports BoltOps
begin

text \<open>
  The properties of the state database. The lemmas before each group say when the transactions
  succeed; the properties are about the operations of \<^verbatim>\<open>src/libpod/boltdb_state.go\<close> as the rest of
  libpod calls them. The concrete objects at the beginning serve the witnesses.
\<close>

section \<open>Concrete objects\<close>

definition demo_config :: ContainerConfig where
  "demo_config = zero_ContainerConfig\<lparr>cfg_ID := ''c1'', cfg_Name := ''web''\<rparr>"

definition demo_ctr :: Container where
  "demo_ctr = \<lparr>ctr_config = demo_config, ctr_state = zero_ContainerState, ctr_valid = True,
     ctr_lock = None, ctr_ociRuntime = None\<rparr>"

definition demo_state :: "boltdb \<Rightarrow> BoltState" where
  "demo_state d = \<lparr>bs_valid = True, bs_dbLock = False, bs_openErr = None, bs_db = d\<rparr>"

definition demo_db :: boltdb where
  "demo_db = fresh_db\<lparr>db_ids := Some [(''c1'', ''web'')], db_names := Some [(''web'', ''c1'')],
     db_allCtrs := Some [(''c1'', ''web'')],
     db_ctrs := Some [(''c1'', empty_ctr_bkt\<lparr>cb_config := Some (Enc demo_config),
       cb_state := Some (Enc zero_ContainerState), cb_deps := Some []\<rparr>)]\<rparr>"

lemmas demo_defs = demo_ctr_def demo_config_def demo_state_def demo_db_def createBuckets_def blank_db_def
  CreateBucketIfNotExists_def zero_ContainerConfig_def empty_ctr_bkt_def

lemma demo_db_wf: "db_wf demo_db"
  by (auto simp: wf_defs wf_ctr_bkt_def podKey_def rel_defs demo_defs needsUpdate_def registries_inverse_def
      cfg_depends_def split: if_splits)

lemma demo_add: "addContainer_tx demo_ctr None [] fresh_db = Inr demo_db"
  by (simp add: addContainer_tx_def demo_defs Let_def getBucket_defs getPodCtrs_def checkFree_def Put_def
      CreateBucket_def MaxKeySize_def newCtrBucket_def Dependencies_def cfg_depends_def MarshalConfig_def Marshal_def)

lemma demo_ready: "ready (demo_state d)" and demo_bs_db: "bs_db (demo_state d) = d"
  by (simp_all add: ready_def demo_state_def)

lemma demo_update: "(demo_state d)\<lparr>bs_db := d'\<rparr> = demo_state d'"
  by (simp add: demo_state_def)

lemma demo_ctr_networks: "strip_networks demo_ctr = demo_ctr" "nets_of demo_ctr = []"
  "marshalNetworks (ctr_ID demo_ctr) (cfg_Networks (ctr_config demo_ctr)) = Inr []"
  by (simp_all add: strip_networks_def nets_of_def demo_ctr_def demo_config_def zero_ContainerConfig_def)

lemma demo_ctr_simps: "ctr_valid demo_ctr" "cfg_Pod (ctr_config demo_ctr) = []" "bs_valid (demo_state d)"
  by (simp_all add: demo_ctr_def demo_config_def zero_ContainerConfig_def demo_state_def)

lemmas demo_run = run_op_defs pureOp_ready[OF demo_ready] Update_fst Update_snd demo_bs_db demo_update
  demo_ctr_networks demo_ctr_simps

section \<open>The invariant and atomicity\<close>


lemma demo_reachable: "reachable (demo_state fresh_db)" "reachable (demo_state demo_db)"
proof -
  show r: "reachable (demo_state fresh_db)"
    by (rule opened) (simp add: NewBoltState_def demo_state_def needsUpdate_def blank_db_def)
  have "run_op (OpAddContainer demo_ctr) (demo_state fresh_db) = Some (demo_state demo_db, Inr ())"
    by (simp add: demo_run demo_add)
  then show "reachable (demo_state demo_db)" by (rule step[OF r, rotated]) simp
qed




section \<open>Adding and removing a container\<close>





text \<open>
  C5. A container without a pod can be removed from a well-formed database exactly when it
  exists, has no exec session and no container depends on it.
\<close>

theorem removeContainer_exact:
  assumes "db_wf d"
  shows "(\<exists>d'. removeContainer ctr None d = Inr d') \<longleftrightarrow>
     ctrs d (ctr_ID ctr) \<noteq> None \<and> sessions (ctrs d) (ctr_ID ctr) = {} \<and> dependents (ctrs d) (ctr_ID ctr) = {}"
proof
  assume "\<exists>d'. removeContainer ctr None d = Inr d'"
  then obtain d' where "removeContainer ctr None d = Inr d'" ..
  from ctr_removedD(1-3)[OF removeContainer_refines[OF this]]
  show "ctrs d (ctr_ID ctr) \<noteq> None \<and> sessions (ctrs d) (ctr_ID ctr) = {} \<and> dependents (ctrs d) (ctr_ID ctr) = {}"
    by (intro conjI)
qed (simp add: removeContainer_cases[OF assms, of ctr, THEN conjunct2])

theorem removeContainer_exact_witness: "\<exists>d'. removeContainer demo_ctr None demo_db = Inr d'"
  unfolding removeContainer_exact[OF demo_db_wf] by (simp add: demo_defs rel_defs)


text \<open>A container that depends on itself, for which removal is refused.\<close>

definition self_ctr :: Container where
  "self_ctr = demo_ctr\<lparr>ctr_config := demo_config\<lparr>cfg_Dependencies := [''c1'']\<rparr>\<rparr>"

lemma self_added: "\<exists>d'. addContainer_tx self_ctr None [] fresh_db = Inr d' \<and> db_wf d'"
proof -
  have "add_ok self_ctr None [] fresh_db"
    by (simp add: add_ok_def key_ok_def MaxKeySize_def self_ctr_def Dependencies_def cfg_depends_def demo_defs)
  then obtain d' where d': "addContainer_tx self_ctr None [] fresh_db = Inr d'"
    using addContainer_tx_if[OF _ db_wf_fresh] by blast
  moreover have "strip_networks self_ctr = self_ctr" "cfg_Pod (ctr_config self_ctr) = []"
    by (simp_all add: strip_networks_def self_ctr_def demo_defs)
  ultimately show ?thesis using addContainer_tx_wf[of self_ctr None "[]" fresh_db d'] db_wf_fresh by auto
qed

lemma self_depends:
  assumes "addContainer_tx self_ctr None [] fresh_db = Inr d'"
  shows "depends (ctrs d') ''c1'' (ctr_ID self_ctr)" "sessions (ctrs d') (ctr_ID self_ctr) = {}"
proof -
  obtain b where a: "ctr_added self_ctr None b fresh_db d'" using addContainer_refines[OF assms] by blast
  note a = ctr_addedD(7,8)[OF a]
  have id: "ctr_ID self_ctr = ''c1''" "''c1'' \<in> set (Dependencies self_ctr)"
    by (simp_all add: self_ctr_def demo_defs Dependencies_def cfg_depends_def)
  show "depends (ctrs d') ''c1'' (ctr_ID self_ctr)" "sessions (ctrs d') (ctr_ID self_ctr) = {}"
    using id by (simp_all add: a(2) rel_upd rel_new_bkt[OF a(1)])
qed


end
