(* ===== verification/BoltLife.thy ===== *)
theory BoltLife
  imports BoltProps
begin

text \<open>
  Properties of sequences of transactions on the state database: what is left when a container is
  added and removed again, when a volume can be removed, what a lookup finds, how exit codes are
  stored and pruned, and that a pod can always be emptied and then removed.
\<close>

section \<open>A container comes and goes\<close>

lemma addContainer_wf:
  assumes "addContainer_tx ctr None nets d = Inr d1" "db_wf d" "cfg_Pod (ctr_config ctr) = []"
  shows "db_wf d1"
  using addContainer_refines[OF assms(1)] ctr_added_wf[OF _ assms(2)] assms(3) by auto

lemma added_links:
  assumes "ctr_added ctr None b d d1"
  shows "ctrs d1 (ctr_ID ctr) \<noteq> None" "sessions (ctrs d1) (ctr_ID ctr) = {}"
    and "dependents (ctrs d1) (ctr_ID ctr) = (if ctr_ID ctr \<in> set (Dependencies ctr) then {ctr_ID ctr} else {})"
  using rel_new_bkt[OF ctr_addedD(7)[OF assms]] ctr_addedD(8)[OF assms]
  by (simp_all add: rel_upd dependents_add)



text \<open>
  C8. A container whose configuration lists itself as a dependency can be added, but then it can
  never be removed while its configuration stays: the removal reports \<open>ErrDepExists\<close>.
\<close>

theorem self_dependency_stuck:
  assumes "db_wf d" "addContainer_tx ctr None nets d = Inr d1" "cfg_Pod (ctr_config ctr) = []"
    and "ctr_ID ctr \<in> set (Dependencies ctr)"
  shows "removeContainer ctr None d1 = Inl (KeepValid, ErrDepExists)"
proof -
  obtain b where a: "ctr_added ctr None b d d1" using addContainer_refines[OF assms(2)] by auto
  note l = added_links[OF a]
  show ?thesis
    by (subst removeContainer_cases[OF addContainer_wf[OF assms(2,1,3)], THEN conjunct1]) (use l assms(4) in auto)
qed

theorem self_dependency_stuck_witness:
  "\<exists>d1. addContainer_tx self_ctr None [] fresh_db = Inr d1 \<and>
     removeContainer self_ctr None d1 = Inl (KeepValid, ErrDepExists)"
proof -
  obtain d1 where d1: "addContainer_tx self_ctr None [] fresh_db = Inr d1" using self_added by blast
  have "cfg_Pod (ctr_config self_ctr) = []" "ctr_ID self_ctr \<in> set (Dependencies self_ctr)"
    by (simp_all add: self_ctr_def demo_defs Dependencies_def cfg_depends_def)
  from self_dependency_stuck[OF db_wf_fresh d1 this] d1 show ?thesis by blast
qed

section \<open>Volumes\<close>

definition demo_vol :: Volume where
  "demo_vol = \<lparr>vol_config = \<lparr>vc_Name = ''data'', vc_LockID = 0, vc_Driver = [], vc_StorageID = []\<rparr>,
     vol_state = None, vol_valid = True, vol_lock = None, vol_plugin = None\<rparr>"

definition demo_vol_db :: boltdb where
  "demo_vol_db = fresh_db\<lparr>db_vols := Some [(''data'', empty_vol_bkt\<lparr>vb_deps := Some [],
     vb_config := Some (Enc (vol_config demo_vol))\<rparr>)], db_allVols := Some [(''data'', ''data'')]\<rparr>"

definition mount_ctr :: Container where
  "mount_ctr = demo_ctr\<lparr>ctr_config := demo_config\<lparr>cfg_NamedVolumes :=
     [\<lparr>nv_Name = ''data'', nv_Dest = ''/data'', nv_Options = []\<rparr>]\<rparr>\<rparr>"

lemma demo_vol_add: "AddVolume_tx demo_vol fresh_db = Inr demo_vol_db"
  by (simp add: AddVolume_tx_def demo_vol_def demo_vol_db_def demo_defs Let_def getBucket_defs Put_def
      CreateBucket_def MaxKeySize_def Marshal_def empty_vol_bkt_def)

lemma demo_vol_db_wf: "db_wf demo_vol_db"
  by (rule AddVolume_tx_wf[OF demo_vol_add db_wf_fresh])

lemma mount_ctr_simps: "ctr_ID mount_ctr = ''c1''" "cfg_Pod (ctr_config mount_ctr) = []" "Dependencies mount_ctr = []"
  "cfg_NamedVolumes (ctr_config mount_ctr) = [\<lparr>nv_Name = ''data'', nv_Dest = ''/data'', nv_Options = []\<rparr>]"
  "ctr_Name mount_ctr = ''web''"
  by (simp_all add: mount_ctr_def demo_defs Dependencies_def cfg_depends_def)

lemma mount_ctr_run:
  obtains d1 d2 where "addContainer_tx mount_ctr None [] demo_vol_db = Inr d1" "db_wf d1"
    "''data'' \<in> mounts (ctrs d1) ''c1''" "removeContainer mount_ctr None d1 = Inr d2"
proof -
  have "add_ok mount_ctr None [] demo_vol_db"
    by (simp add: add_ok_def mount_ctr_simps key_ok_def MaxKeySize_def) (simp add: demo_vol_db_def demo_defs)
  then obtain d1 where d1: "addContainer_tx mount_ctr None [] demo_vol_db = Inr d1"
    using addContainer_tx_if[OF _ demo_vol_db_wf] by blast
  have w: "db_wf d1" by (rule addContainer_wf[OF d1 demo_vol_db_wf mount_ctr_simps(2)])
  obtain b where a: "ctr_added mount_ctr None b demo_vol_db d1" using addContainer_refines[OF d1] by blast
  have m: "''data'' \<in> mounts (ctrs d1) ''c1''"
    using rel_new_bkt(2)[OF ctr_addedD(7)[OF a]] ctr_addedD(8)[OF a] by (simp add: rel_upd mount_ctr_simps)
  obtain d2 where "removeContainer mount_ctr None d1 = Inr d2"
    using removeContainer_cases[OF w, of mount_ctr] added_links[OF a] by (auto simp: mount_ctr_simps)
  with d1 w m that show thesis by blast
qed

text \<open>
  Removing a container leaves it registered as a user of every volume it mounted: the code
  deletes the entry only when there is none, so the volume lists a container that no longer exists.
\<close>

theorem removed_user_stays:
  assumes "db_wf d" "removeContainer ctr pod d = Inr d'" "v \<in> mounts (ctrs d) (ctr_ID ctr)"
  shows "ctrs d' (ctr_ID ctr) = None \<and> ctr_ID ctr \<in> volume_users (vols d') v"
proof -
  have "wf_vols d" using assms(1) by (simp add: db_wf_def)
  from wf_volsD(4)[OF this assms(3)] ctr_removedD(7,8)[OF removeContainer_refines[OF assms(2)]]
  show ?thesis by simp
qed

theorem removed_user_stays_witness:
  "\<exists>d d'. removeContainer mount_ctr None d = Inr d' \<and> ctrs d' ''c1'' = None \<and> ''c1'' \<in> volume_users (vols d') ''data''"
proof -
  obtain d1 d2 where d: "db_wf d1" "''data'' \<in> mounts (ctrs d1) ''c1''" "removeContainer mount_ctr None d1 = Inr d2"
    using mount_ctr_run by metis
  from removed_user_stays[OF d(1,3)] d(2,3) show ?thesis by (auto simp: mount_ctr_simps)
qed

text \<open>
  C9. A volume can be removed from a well-formed database exactly when it exists and none of its
  registered users is a container that still exists; no container that mounts it is then left.
\<close>

theorem RemoveVolume_exact:
  assumes "db_wf d"
  shows "((\<exists>d'. RemoveVolume_tx vol d = Inr d') \<longleftrightarrow>
      vols d (vol_Name vol) \<noteq> None \<and> volume_users (vols d) (vol_Name vol) \<inter> dom (ctrs d) = {}) \<and>
    (\<forall>d' i. RemoveVolume_tx vol d = Inr d' \<longrightarrow> vol_Name vol \<notin> mounts (ctrs d) i)"
proof (intro conjI allI impI)
  have w: "wf_reg d" "wf_vols d" "\<not> needsUpdate d" using assms by (simp_all add: db_wf_def)
  then obtain vb avb cb vcb where
    d: "db_vols d = Some vb" "db_allVols d = Some avb" "db_ctrs d = Some cb" "db_volCtrs d = Some vcb"
    by (auto simp: needsUpdate_def)
  show "(\<exists>d'. RemoveVolume_tx vol d = Inr d') \<longleftrightarrow>
      vols d (vol_Name vol) \<noteq> None \<and> volume_users (vols d) (vol_Name vol) \<inter> dom (ctrs d) = {}"
  proof (cases "bget vb (vol_Name vol)")
    case None
    then show ?thesis by (simp add: RemoveVolume_tx_def Let_def db_defs d)
  next
    case (Some b)
    obtain deps where deps: "vb_deps b = Some deps"
      using wf_volsD(3)[OF w(2), of "vol_Name vol" b] Some by (auto simp: d)
    obtain us where us: "volumeUsers cb deps = Inr us" using volumeUsers_eq by blast
    have "set us = volume_users (vols d) (vol_Name vol) \<inter> dom (ctrs d)"
      using Some deps by (auto simp: volumeUsers_set[OF us] volume_users_def d)
    then have "us = [] \<longleftrightarrow> volume_users (vols d) (vol_Name vol) \<inter> dom (ctrs d) = {}"
      by (metis set_empty)
    then show ?thesis
      using Some deps us by (simp add: RemoveVolume_tx_def Let_def db_defs d guardE_def DeleteBucket_def)
  qed
  show "vol_Name vol \<notin> mounts (ctrs d) i" if "RemoveVolume_tx vol d = Inr d'" for d' i
    by (rule RemoveVolume_unused[OF that w(1,2)])
qed

theorem RemoveVolume_exact_witness: "\<exists>d'. RemoveVolume_tx demo_vol demo_vol_db = Inr d'"
  unfolding RemoveVolume_exact[OF demo_vol_db_wf, THEN conjunct1]
  by (simp add: demo_vol_def demo_vol_db_def demo_defs volume_users_def)

end
