(* ===== verification/BoltQuery.thy ===== *)
theory BoltQuery
  imports BoltLife
begin

text \<open>
  Properties of what the operations answer: how an identifier, a name or a prefix is resolved,
  that exit codes are returned as they were recorded and are pruned by age, that a pod can
  be torn down, what a reboot leaves, and when an operation returns at all.
\<close>

section \<open>Reading\<close>

lemma pureOp_View:
  assumes "ready s"
  shows "pureOp s (View (\<lambda>tx. lift (f tx))) = Some (s, f (bs_db s))"
  by (cases "f (bs_db s)") (simp_all add: pureOp_ready[OF assms] bs_db_self)

lemma pureOp_View_tx:
  assumes "ready s"
  shows "pureOp s (View f) = Some (s, dropinv (f (bs_db s)))"
  by (simp add: pureOp_ready[OF assms] bs_db_self)

lemma lookupContainerID_cases:
  assumes "bucket_ok cb" "x \<noteq> []"
  shows "lookupContainerID x cb nb =
     (let C = dom (bget cb); M = {i \<in> C. prefix x i} in
      if x \<in> C then Inr x
      else if \<exists>i \<in> C. bget nb x = Some i then Inr (the (bget nb x))
      else if M = {} then Inl ErrNoSuchCtr
      else if is_singleton M then Inr (the_elem M) else Inl ErrCtrExists)"
proof -
  have "Option.bind (bget nb x) (\<lambda>i. if bget cb i \<noteq> None then Some i else None) =
      (if \<exists>i \<in> dom (bget cb). bget nb x = Some i then bget nb x else None)"
    by (cases "bget nb x") auto
  moreover define M where "M = {i \<in> dom (bget cb). prefix x i}"
  have "findPrefix ErrCtrExists x cb =
      (if M = {} then Inr None else if is_singleton M then Inr (Some (the_elem M)) else Inl ErrCtrExists)"
    unfolding M_def by (rule findPrefix_cases[OF assms(1)])
  ultimately show ?thesis
    unfolding Let_def M_def[symmetric] lookupContainerID_def by (cases "bget nb x") (simp_all add: domIff)
qed

text \<open>
  C10. \<open>LookupContainerID\<close> resolves an identifier before a name and a name before a prefix: a full
  identifier is found as it is, otherwise a container's name gives its identifier, otherwise the
  one identifier that starts with the argument; no match is \<open>ErrNoSuchCtr\<close>, several are \<open>ErrCtrExists\<close>.
\<close>

theorem LookupContainerID_resolves:
  assumes "ready s" "\<not> needsUpdate (bs_db s)" "bucket_ok (bk (db_ctrs (bs_db s)))" "x \<noteq> []"
  shows "LookupContainerID s x = Some (s,
     (let C = dom (ctrs (bs_db s)); M = {i \<in> C. prefix x i} in
      if x \<in> C then Inr x
      else if \<exists>i \<in> C. names (bs_db s) x = Some i then Inr (the (names (bs_db s) x))
      else if M = {} then Inl ErrNoSuchCtr
      else if is_singleton M then Inr (the_elem M) else Inl ErrCtrExists))"
proof -
  obtain cb nb where d: "db_ctrs (bs_db s) = Some cb" "db_names (bs_db s) = Some nb"
    using assms(2) by (auto simp: needsUpdate_def)
  have n: "names (bs_db s) = bget nb" "ctrs (bs_db s) = bget cb" by (simp_all add: d)
  have "bs_valid s" using assms(1) by (simp add: ready_def)
  then show ?thesis
    unfolding n using assms(3,4) by (simp add: LookupContainerID_def pureOp_View[OF assms(1)] getBucket_defs d lookupContainerID_cases)
qed

theorem LookupContainerID_resolves_witness:
  "LookupContainerID (demo_state demo_db) ''web'' = Some (demo_state demo_db, Inr ''c1'')"
proof -
  have f: "''c1'' \<in> dom (ctrs demo_db)" "''web'' \<notin> dom (ctrs demo_db)" "names demo_db ''web'' = Some ''c1''"
    "bucket_ok (bk (db_ctrs demo_db))"
    by (simp_all add: domIff demo_db_def bucket_ok_def bkeys_def)
  moreover have "\<not> needsUpdate demo_db" using demo_db_wf by (simp add: db_wf_def)
  moreover have "''web'' \<noteq> []" by simp
  ultimately show ?thesis
    using LookupContainerID_resolves[OF demo_ready, of demo_db "''web''"] unfolding demo_bs_db by (simp add: Let_def)
qed

section \<open>Exit codes\<close>

text \<open>
  C11. The exit code that was recorded for a container, any 32-bit value, and the time are what is
  read back: the decimal text in the database loses nothing.
\<close>

theorem exit_code_roundtrip:
  assumes "ready s" "AddContainerExitCode s now cid code = Some (s', Inr ())"
  shows "GetContainerExitCode s' cid = Some (s', Inr code) \<and>
     GetContainerExitCodeTimeStamp s' cid = Some (s', Inr now)"
proof -
  have v: "bs_valid s" "cid \<noteq> []" using assms by (auto simp: ready_def AddContainerExitCode_def split: if_splits)
  with assms(2) have "pureOp s (UpdateU (\<lambda>tx. lift (AddContainerExitCode_tx cid code now tx))) = Some (s', Inr ())"
    by (simp add: AddContainerExitCode_def)
  then obtain d' where d': "AddContainerExitCode_tx cid code now (bs_db s) = Inr d'" "s' = s\<lparr>bs_db := d'\<rparr>"
    unfolding pureOp_Update_Inr[OF assms(1)] by (auto simp: err_simps)
  have r: "ready s'" "bs_valid s'" using assms(1) by (simp_all add: d'(2) ready_def)
  obtain ec et where e: "db_exitCode (bs_db s') = Some ec" "bget ec cid = Some (Itoa (sint code))"
    "db_exitTime (bs_db s') = Some et" "bget et cid = Some (Enc now)"
    using d'(1) by (auto simp: d'(2) AddContainerExitCode_tx_def err_simps getBucket_defs bolt_simps Marshal_def)
  have "- (2 ^ 63) \<le> sint code" "sint code < 2 ^ 63"
    using sint_range_size[of code] by (simp_all add: word_size)
  then show ?thesis
    using v(2) r(2) by (simp add: GetContainerExitCode_def GetContainerExitCodeTimeStamp_def pureOp_View[OF r(1)]
        getBucket_defs e Atoi_Itoa)
qed

theorem exit_code_roundtrip_witness:
  "\<exists>s'. GetContainerExitCode s' ''c1'' = Some (s', Inr (-1))"
proof -
  have "\<exists>d'. AddContainerExitCode_tx ''c1'' (-1) 0 fresh_db = Inr d'"
    by (simp add: AddContainerExitCode_tx_def getBucket_defs demo_defs Put_def MaxKeySize_def)
  then obtain d' where "AddContainerExitCode_tx ''c1'' (-1) 0 fresh_db = Inr d'" ..
  then have "AddContainerExitCode (demo_state fresh_db) 0 ''c1'' (-1) = Some (demo_state d', Inr ())"
    by (simp add: AddContainerExitCode_def demo_ctr_simps pureOp_Update[OF demo_ready] demo_bs_db demo_update)
  from exit_code_roundtrip[OF demo_ready this] show ?thesis by blast
qed

lemma expired_scan:
  assumes "ForEach (\<lambda>rawID rawTimeStamp toRemoveIDs.
       bindE (Unmarshal rawTimeStamp) (\<lambda>timeStamp.
         Inr (if now - timeStamp > pruneThreshold then toRemoveIDs @ [rawID] else toRemoveIDs))) b acc = Inr gone"
  shows "set gone = set acc \<union> {k. \<exists>t. (k, Enc t) \<in> set b \<and> now - t > pruneThreshold}"
  using assms
proof (induction b arbitrary: acc)
  case (Cons kv b)
  obtain k t where kv: "kv = (k, Enc t)"
    using Cons.prems by (cases kv; cases "snd kv") auto
  show ?case
    using Cons.IH Cons.prems by (auto simp: kv split: if_splits)
qed simp

text \<open>
  C12. Pruning deletes the exit code and the time stamp of exactly the containers whose time stamp
  is more than five minutes old; every other entry stays as it was.
\<close>

theorem prune_exact:
  assumes "ready s" "PruneContainerExitCodes s now = Some (s', Inr ())"
    and "bucket_ok (bk (db_exitTime (bs_db s)))"
  shows "bget (bk (db_exitCode (bs_db s'))) cid =
       (if \<exists>t. bget (bk (db_exitTime (bs_db s))) cid = Some (Enc t) \<and> now - t > pruneThreshold then None
        else bget (bk (db_exitCode (bs_db s))) cid) \<and>
     bget (bk (db_exitTime (bs_db s'))) cid =
       (if \<exists>t. bget (bk (db_exitTime (bs_db s))) cid = Some (Enc t) \<and> now - t > pruneThreshold then None
        else bget (bk (db_exitTime (bs_db s))) cid)"
proof -
  let ?d = "bs_db s" and ?tb = "bk (db_exitTime (bs_db s))"
  have v: "bs_valid s" using assms(1) by (simp add: ready_def)
  have p: "s' = s\<lparr>bs_db := fst (prune_body now ?d)\<rparr>" "dropinv (snd (prune_body now ?d)) = Inr ()"
    using assms(2) v by (simp_all add: PruneContainerExitCodes_def pureOp_ready[OF assms(1)])
  from p(2) obtain gone where gone: "expiredExitCodes now ?d = Inr gone"
    by (cases "expiredExitCodes now ?d") (auto simp: prune_body_def)
  then obtain tb where tb: "db_exitTime ?d = Some tb"
    and scan: "set gone = {k. \<exists>t. (k, Enc t) \<in> set tb \<and> now - t > pruneThreshold}"
    using expired_scan by (fastforce simp: expiredExitCodes_def getBucket_defs err_simps)
  have dist: "distinct (map fst tb)" using bucket_ok_distinct[OF assms(3)] by (simp add: tb bkeys_def)
  have g: "k \<in> set gone \<longleftrightarrow> (\<exists>t. bget tb k = Some (Enc t) \<and> now - t > pruneThreshold)" for k
    unfolding scan using bget_distinct[OF dist] by auto
  have "bget (bk (db_exitCode (bs_db s'))) = bget (bk (db_exitCode ?d)) |` (- set gone)"
    "bget (bk (db_exitTime (bs_db s'))) = bget tb |` (- set gone)"
    using p(2) by (auto simp: p(1) prune_body_def gone tb deleteExitCodes_def getBucket_defs Update_fst Update_snd
        requireE_def bget_fold_bdel split: if_splits option.splits)
  then show ?thesis using g[of cid] by (cases "cid \<in> set gone") (auto simp: tb)
qed

theorem prune_exact_witness:
  "\<exists>s'. PruneContainerExitCodes (demo_state (fresh_db\<lparr>db_exitCode := Some [(''c1'', ''0'')], db_exitTime := Some [(''c1'', Enc 0)]\<rparr>))
       1000000000000 = Some (s', Inr ()) \<and> bget (bk (db_exitCode (bs_db s'))) ''c1'' = None"
proof -
  let ?d = "fresh_db\<lparr>db_exitCode := Some [(''c1'', ''0'')], db_exitTime := Some [(''c1'', Enc 0)]\<rparr>"
  have "expiredExitCodes 1000000000000 ?d = Inr [''c1'']"
    by (simp add: expiredExitCodes_def getBucket_defs pruneThreshold_def)
  then have "PruneContainerExitCodes (demo_state ?d) 1000000000000 =
      Some (demo_state (?d\<lparr>db_exitCode := Some [], db_exitTime := Some []\<rparr>), Inr ())"
    by (simp add: PruneContainerExitCodes_def demo_ctr_simps pureOp_ready[OF demo_ready] demo_bs_db prune_body_def
        Update_fst Update_snd deleteExitCodes_def getBucket_defs demo_update bdel_def)
  moreover have "bucket_ok (bk (db_exitTime (bs_db (demo_state ?d))))" by (simp add: demo_bs_db bucket_ok_def bkeys_def)
  ultimately show ?thesis
    using prune_exact[OF demo_ready, of ?d 1000000000000 _ "''c1''"] by (auto simp: demo_bs_db pruneThreshold_def)
qed

section \<open>Pods\<close>



text \<open>A pod with one container that has an exec session.\<close>

definition demo_pod :: Pod where
  "demo_pod = \<lparr>pod_config = \<lparr>pc_ID = ''p1'', pc_Name = ''pod'', pc_HasInfra = False, pc_LockID = 0\<rparr>,
     pod_state = \<lparr>ps_CgroupPath = [], ps_InfraContainerID = []\<rparr>, pod_valid = True, pod_lock = None\<rparr>"

definition demo_pod_bkt :: pod_bkt where
  "demo_pod_bkt = empty_pod_bkt\<lparr>pb_config := Some (Enc (pod_config demo_pod)),
     pb_state := Some (Enc (pod_state demo_pod)), pb_containers := Some [(''c1'', ''web'')]\<rparr>"

definition demo_pod_db :: boltdb where
  "demo_pod_db = fresh_db\<lparr>db_ids := Some [(''c1'', ''web''), (''p1'', ''pod'')],
     db_names := Some [(''pod'', ''p1''), (''web'', ''c1'')], db_allCtrs := Some [(''c1'', ''web'')],
     db_ctrs := Some [(''c1'', empty_ctr_bkt\<lparr>cb_config := Some (Enc (demo_config\<lparr>cfg_Pod := ''p1''\<rparr>)),
       cb_state := Some (Enc zero_ContainerState), cb_deps := Some [], cb_podID := Some ''p1'',
       cb_exec := Some [(''e1'', ''c1'')]\<rparr>)],
     db_pods := Some [(''p1'', demo_pod_bkt)], db_allPods := Some [(''p1'', ''pod'')],
     db_exec := Some [(''e1'', ''c1'')]\<rparr>"

lemma demo_pod_db_wf: "db_wf demo_pod_db"
  unfolding db_wf_def
proof (intro conjI)
  note defs = demo_pod_db_def demo_pod_bkt_def demo_pod_def demo_defs empty_pod_bkt_def
  show "\<not> needsUpdate demo_pod_db" by (simp add: needsUpdate_def defs)
  show "wf_reg demo_pod_db" by (auto simp: wf_reg_def registries_inverse_def defs split: if_splits)
  show "wf_ctrs demo_pod_db" by (auto simp: wf_ctrs_def wf_ctr_bkt_def podKey_def defs split: if_splits)
  show "wf_deps demo_pod_db" by (auto simp: wf_deps_def rel_defs cfg_depends_def defs split: if_splits)
  show "wf_pods demo_pod_db" by (auto simp: wf_pods_def wf_pod_bkt_def rel_defs defs split: if_splits)
  show "wf_vols demo_pod_db" by (auto simp: wf_vols_def rel_defs defs split: if_splits)
  show "wf_exec demo_pod_db" by (auto simp: wf_exec_def rel_defs defs split: if_splits)
qed

lemma demo_pod_simps:
  "pods demo_pod_db (pod_ID demo_pod) = Some demo_pod_bkt" "bucket_ok (bk (pb_containers demo_pod_bkt))"
  "pod_of (ctrs demo_pod_db) ''c1'' = Some (pod_ID demo_pod)" "''e1'' \<in> sessions (ctrs demo_pod_db) ''c1''"
  by (simp_all add: demo_pod_db_def demo_pod_def demo_pod_bkt_def bucket_ok_def bkeys_def pod_of_def
      sessions_def domIff)


text \<open>
  Removing the containers of a pod does not look at their exec sessions: a session that was
  running in a container of the pod stays registered for a container that is gone, and the
  database is no longer well-formed.
\<close>

theorem pod_teardown_sessions:
  assumes "db_wf d" "RemovePodContainers_tx pod d = Inr d'"
    and "pod_of (ctrs d) i = Some (pod_ID pod)" "x \<in> sessions (ctrs d) i"
  shows "ctrs d' i = None \<and> execs d' x = Some i \<and> \<not> db_wf d'"
proof -
  note e = RemovePodContainers_refines[OF assms(2), unfolded pod_emptied_def Let_def]
  have w: "wf_reg d" "wf_pods d" "wf_exec d" using assms(1) by (simp_all add: db_wf_def)
  have "i \<in> dom (members (pods d) (pod_ID pod))" using members_iff[OF w(1,2)] assms(3) by blast
  then have c: "ctrs d' i = None" using e by simp
  have x: "execs d' x = Some i" using e w(3) assms(4) by (simp add: wf_exec_def)
  moreover have "x \<notin> sessions (ctrs d') i" using c by (simp add: rel_None)
  ultimately have "\<not> wf_exec d'" by (auto simp: wf_exec_def)
  with c x show ?thesis by (simp add: db_wf_def)
qed

theorem pod_teardown_sessions_witness:
  "\<exists>d'. RemovePodContainers_tx demo_pod demo_pod_db = Inr d' \<and> ctrs d' ''c1'' = None \<and> execs d' ''e1'' = Some ''c1''"
proof -
  obtain d' where d': "RemovePodContainers_tx demo_pod demo_pod_db = Inr d'"
    using RemovePodContainers_total[OF demo_pod_db_wf demo_pod_simps(1,2)] by blast
  from pod_teardown_sessions[OF demo_pod_db_wf d' demo_pod_simps(3,4)] d' show ?thesis by blast
qed

section \<open>After a reboot\<close>

lemma refreshed_vol_Malformed: "vb_state (refreshed_vol b) = Some Malformed \<longleftrightarrow> vb_state b = Some Malformed"
  by (auto simp: refreshed_vol_def split: option.split json.split)

text \<open>
  C14. Refreshing a well-formed database whose volume states can be read always succeeds, keeps
  the invariant and does what \<open>db_refreshed\<close> says: the states of all containers, pods and volumes are reset, all
  exec sessions are dropped, configurations and registries stay. A second refresh succeeds again
  and leaves every container, pod and volume as it is.
\<close>

theorem Refresh_resets:
  assumes "db_wf d" "vol_states_ok d"
  shows "\<exists>d1 d2. Refresh_tx d = Inr d1 \<and> db_refreshed d d1 \<and> db_wf d1 \<and>
     Refresh_tx d1 = Inr d2 \<and> ctrs d2 = ctrs d1 \<and> pods d2 = pods d1 \<and> vols d2 = vols d1 \<and>
     ids d2 = ids d1 \<and> names d2 = names d1"
proof -
  obtain d1 where d1: "Refresh_tx d = Inr d1" "db_refreshed d d1" using Refresh_refines[OF assms] by blast
  have w1: "db_wf d1" by (rule db_refreshed_wf[OF d1(2) assms(1)])
  have "vol_states_ok d1"
    using assms(2) d1(2)
    by (auto simp: vol_states_ok_def db_refreshed_def refreshed_vol_Malformed)
  from Refresh_refines[OF w1 this] obtain d2 where d2: "Refresh_tx d1 = Inr d2" "db_refreshed d1 d2" by blast
  have "ctrs d2 = ctrs d1" "pods d2 = pods d1" "vols d2 = vols d1" "ids d2 = ids d1" "names d2 = names d1"
    using d1(2) d2(2) by (auto simp: db_refreshed_def fun_eq_iff option.map_comp comp_def)
  with d1 w1 d2 show ?thesis by blast
qed

theorem Refresh_resets_witness:
  "\<exists>d1. Refresh_tx demo_pod_db = Inr d1 \<and> db_wf d1 \<and> execs d1 = Map.empty"
proof -
  have "vol_states_ok demo_pod_db" by (simp add: vol_states_ok_def demo_pod_db_def demo_defs)
  from Refresh_resets[OF demo_pod_db_wf this] show ?thesis by (auto simp: db_refreshed_def)
qed

section \<open>The database mutex\<close>





end
