(* ===== verification/BoltAcyclic.thy ===== *)
theory BoltAcyclic
  imports BoltReach
begin

text \<open>
  The dependencies of the stored containers have no cycle of two or more containers. A container
  can only name dependencies that are stored when it is added, or itself, and no other
  operation adds one: the dependencies of the database before an operation contain those of
  the database after it, except for the container an operation adds.
\<close>

section \<open>Operations that add no dependency\<close>

definition fewer_deps :: "boltdb \<Rightarrow> boltdb \<Rightarrow> bool" where
  "fewer_deps d d' \<longleftrightarrow> (\<forall>i j. depends (ctrs d') i j \<longrightarrow> depends (ctrs d) i j)"

lemma fewer_deps_same: "db_ctrs d' = db_ctrs d \<Longrightarrow> fewer_deps d d'"
  by (simp add: fewer_deps_def)

lemma fewer_deps_upd:
  assumes "db_ctrs d = Some cb" "bget cb i = Some b" "cb_config b' = cb_config b"
  shows "fewer_deps d (d\<lparr>db_ctrs := Some (bins i b' cb)\<rparr>)"
    and "fewer_deps d (d\<lparr>db_exec := e, db_ctrs := Some (bins i b' cb)\<rparr>)"
  using assms by (auto simp: fewer_deps_def bolt_simps depends_def config_of_def split: if_splits)

lemma fewer_deps_kept: "fewer_deps d d" "fewer_deps d (d\<lparr>db_exec := e\<rparr>)"
  by (simp_all add: fewer_deps_same)

lemma fewer_deps_UpdateU: "(\<And>d'. f d = Inr d' \<Longrightarrow> fewer_deps d d') \<Longrightarrow> fewer_deps d (fst (UpdateU f d))"
  by (auto simp: Update_fst fewer_deps_def split: sum.split)

lemma SaveContainer_fewer: "SaveContainer_tx c d = Inr d' \<Longrightarrow> fewer_deps d d'"
  by (auto simp: SaveContainer_tx_def Let_def db_defs err_simps intro!: fewer_deps_upd split: if_splits)

lemma networkModify_fewer: "networkModify_tx c net opts new d = Inr d' \<Longrightarrow> fewer_deps d d'"
  by (auto simp: networkModify_tx_def db_defs err_simps intro!: fewer_deps_upd)

lemma NetworkDisconnect_fewer: "NetworkDisconnect_tx c net d = Inr d' \<Longrightarrow> fewer_deps d d'"
  by (auto simp: NetworkDisconnect_tx_def Let_def db_defs err_simps split: option.splits intro!: fewer_deps_upd)

lemma AddExecSession_fewer: "AddExecSession_tx c es d = Inr d' \<Longrightarrow> fewer_deps d d'"
  by (auto simp: AddExecSession_tx_def Let_def db_defs err_simps intro!: fewer_deps_upd)

lemma RemoveExecSession_fewer:
  assumes "RemoveExecSession_tx es d = Inr d'"
  shows "fewer_deps d d'"
proof (cases "bget (bk (db_ctrs d)) (es_ContainerId es)")
  case None
  with assms show ?thesis by (auto simp: RemoveExecSession_tx_def Let_def db_defs err_simps intro!: fewer_deps_kept)
next
  case b: (Some b)
  show ?thesis
  proof (cases "cb_exec b")
    case None
    with assms b show ?thesis
      by (auto simp: RemoveExecSession_tx_def Let_def db_defs err_simps intro!: fewer_deps_kept)
  next
    case (Some e)
    with assms b show ?thesis
      by (cases "bget e (es_Id es)")
        (auto simp: RemoveExecSession_tx_def Let_def db_defs err_simps intro!: fewer_deps_upd fewer_deps_kept)
  qed
qed

lemma RemoveContainerExecSessions_fewer: "RemoveContainerExecSessions_tx c d = Inr d' \<Longrightarrow> fewer_deps d d'"
  by (auto simp: RemoveContainerExecSessions_tx_def Let_def db_defs err_simps split: option.splits
      intro!: fewer_deps_upd fewer_deps_kept)

lemma GetNetworks_fewer: "fewer_deps d (fst (GetNetworks_body rt c d))"
proof -
  have "fewer_deps d d'" if "convertNetworks rt c ns d = Inr (d', r)" for ns d' r
    using that by (auto simp: convertNetworks_def db_defs err_simps Let_def case_prod_beta intro!: fewer_deps_upd)
  then show ?thesis
    by (auto simp: GetNetworks_body_def Update_def fewer_deps_same split: sum.splits prod.splits)
qed

lemma same_ctrs:
  "AddContainerExitCode_tx cid code now d = Inr d' \<Longrightarrow> db_ctrs d' = db_ctrs d"
  "AddPod_tx p d = Inr d' \<Longrightarrow> db_ctrs d' = db_ctrs d"
  "RemovePod_tx p d = Inr d' \<Longrightarrow> db_ctrs d' = db_ctrs d"
  "SavePod_tx p d = Inr d' \<Longrightarrow> db_ctrs d' = db_ctrs d"
  "RewritePodConfig_tx p pc d = Inr d' \<Longrightarrow> db_ctrs d' = db_ctrs d"
  "AddVolume_tx v d = Inr d' \<Longrightarrow> db_ctrs d' = db_ctrs d"
  "RemoveVolume_tx v d = Inr d' \<Longrightarrow> db_ctrs d' = db_ctrs d"
  "SaveVolume_tx v d = Inr d' \<Longrightarrow> db_ctrs d' = db_ctrs d"
  "RewriteVolumeConfig_tx v vc d = Inr d' \<Longrightarrow> db_ctrs d' = db_ctrs d"
  by (auto simp: AddContainerExitCode_tx_def AddPod_tx_def RemovePod_tx_def SavePod_tx_def
      RewritePodConfig_tx_def AddVolume_tx_def RemoveVolume_tx_def SaveVolume_tx_def
      RewriteVolumeConfig_tx_def Let_def err_simps)

lemmas same_ctrs_fewer = same_ctrs[THEN fewer_deps_same]

lemma same_ctrs_bodies:
  "db_ctrs (fst (checkRuntimeConfig rc so d)) = db_ctrs d" "db_ctrs (fst (prune_body now d)) = db_ctrs d"
  by (auto simp: checkRuntimeConfig_def populateFields_def prune_body_def deleteExitCodes_def err_simps
      Update_fst split: sum.split)

lemma removeContainer_fewer: "removeContainer c p d = Inr d' \<Longrightarrow> fewer_deps d d'"
  using ctr_removedD[OF removeContainer_refines[of c p d d']]
  by (auto simp: fewer_deps_def depends_upd rel_no_bkt split: if_splits)

lemma RemovePodContainers_fewer: "RemovePodContainers_tx p d = Inr d' \<Longrightarrow> fewer_deps d d'"
  using RemovePodContainers_refines[of p d d'] by (auto simp: pod_emptied_def Let_def fewer_deps_def rel_restrict)

lemma Refresh_fewer: "Refresh_tx d = Inr d' \<Longrightarrow> db_wf d \<Longrightarrow> fewer_deps d d'"
  using Refresh_refines[of d] Refresh_tx_vol_states[of d d']
  by (auto simp: db_wf_def db_refreshed_def fewer_deps_def rel_refreshed)

lemma rewriteConfig_fewer:
  assumes "rewriteConfig_tx c cfg d = Inr d'" "db_wf d"
    and "\<forall>old. config_of (ctrs d) (ctr_ID c) = Some old \<longrightarrow> same_links old cfg"
  shows "fewer_deps d d'"
proof -
  from assms(1) obtain b where b: "ctrs d (ctr_ID c) = Some b"
    and d': "d' = d\<lparr>db_ctrs := Some (bins (ctr_ID c) (b\<lparr>cb_config := Some (Enc (cfg\<lparr>cfg_rewrite := False\<rparr>))\<rparr>) (bk (db_ctrs d)))\<rparr>"
    by (auto simp: rewriteConfig_tx_def db_defs err_simps MarshalConfig_def Marshal_def)
  obtain old where old: "config_of (ctrs d) (ctr_ID c) = Some old" using wf_config[OF assms(2)] b by blast
  then have "cb_config b = Some (Enc old)" using b by (auto simp: config_of_Some)
  from rel_rewrite(1)[where m = "ctrs d", OF b this, of "cfg\<lparr>cfg_rewrite := False\<rparr>"] assms(3) old
  show ?thesis by (simp add: fewer_deps_def d' bolt_simps)
qed

lemma rewriteConfig_ctrs:
  "rewriteConfig_tx c cfg d1 = Inr d1' \<Longrightarrow> db_ctrs d1 = db_ctrs d \<Longrightarrow>
   \<exists>d'. rewriteConfig_tx c cfg d = Inr d' \<and> db_ctrs d' = db_ctrs d1'"
  by (auto simp: rewriteConfig_tx_def db_defs err_simps)

lemma SafeRewrite_fewer:
  assumes "SafeRewrite_tx c old new cfg d = Inr d'" "db_wf d"
    and "\<forall>x. config_of (ctrs d) (ctr_ID c) = Some x \<longrightarrow> same_links x cfg"
  shows "fewer_deps d d'"
proof -
  from assms(1) obtain d1 where "rewriteConfig_tx c cfg d1 = Inr d'" "db_ctrs d1 = db_ctrs d"
    using rename_tx_ctrs by (auto simp: SafeRewrite_tx_def err_simps split: if_splits)
  from rewriteConfig_ctrs[OF this] obtain d2 where "rewriteConfig_tx c cfg d = Inr d2" "db_ctrs d2 = db_ctrs d'" by blast
  with rewriteConfig_fewer[OF this(1) assms(2,3)] show ?thesis by (simp add: fewer_deps_def)
qed

section \<open>No cycles\<close>

definition dep_edges :: "boltdb \<Rightarrow> (string \<times> string) set" where
  "dep_edges d = {(i, j). depends (ctrs d) i j \<and> i \<noteq> j}"

lemma fewer_deps_acyclic: "fewer_deps d d' \<Longrightarrow> acyclic (dep_edges d) \<Longrightarrow> acyclic (dep_edges d')"
  by (rule acyclic_subset) (auto simp: fewer_deps_def dep_edges_def)

lemma acyclic_new_source:
  assumes "acyclic r" "\<And>a. (a, x) \<notin> r" "x \<notin> S"
  shows "acyclic (r \<union> {x} \<times> S)"
proof -
  have step: "a \<noteq> x \<Longrightarrow> (a, b) \<in> (r \<union> {x} \<times> S)\<^sup>+ \<Longrightarrow> b \<noteq> x \<and> (a, b) \<in> r\<^sup>+" for a b
  proof (rotate_tac 1, induction b rule: trancl_induct)
    case (step y z)
    then show ?case using assms(2) by (auto intro: trancl_into_trancl)
  qed (use assms(2) in auto)
  have new: "(x, b) \<in> (r \<union> {x} \<times> S)\<^sup>+ \<Longrightarrow> b \<noteq> x" for b
    by (induction b rule: trancl_induct) (use assms(2,3) in auto)
  have "(a, a) \<notin> (r \<union> {x} \<times> S)\<^sup>+" for a
    using step[of a a] new[of a] assms(1) by (cases "a = x") (auto simp: acyclic_def)
  then show ?thesis by (simp add: acyclic_def)
qed

lemma addContainer_acyclic:
  assumes "addContainer_tx c p nets d = Inr d'" "db_wf d" "acyclic (dep_edges d)"
  shows "acyclic (dep_edges d')"
proof -
  obtain b where a: "ctr_added c p b d d'" using addContainer_refines[OF assms(1)] by blast
  let ?i = "ctr_ID c"
  have dep: "depends (ctrs d') j k \<longleftrightarrow> (if j = ?i then k \<in> set (Dependencies c) else depends (ctrs d) j k)" for j k
    by (simp add: ctr_addedD(8)[OF a] depends_upd rel_new_bkt(1)[OF ctr_addedD(7)[OF a]])
  have "ctrs d ?i = None" using wf_reg_free[of d, OF _ ctr_addedD(1)[OF a]] assms(2) by (simp add: db_wf_def)
  then have "\<not> depends (ctrs d) j ?i" "\<not> depends (ctrs d) ?i j" for j
    using assms(2) by (auto simp: db_wf_def wf_deps_def dependents_def depends_def config_of_def)
  then have "dep_edges d' = dep_edges d \<union> {?i} \<times> (set (Dependencies c) - {?i})" "\<And>a. (a, ?i) \<notin> dep_edges d"
    by (auto simp: dep_edges_def dep)
  with acyclic_new_source[OF assms(3)] show ?thesis by simp
qed

lemma addContainer_UpdateU_acyclic:
  assumes "db_wf d" "acyclic (dep_edges d)"
  shows "acyclic (dep_edges (fst (UpdateU (addContainer_tx c p nets) d)))"
  using addContainer_acyclic[OF _ assms] assms(2) by (auto simp: Update_fst split: sum.split)

lemma op_tx_acyclic:
  assumes "db_wf d" "allowed op d" "acyclic (dep_edges d)"
  shows "acyclic (dep_edges (fst (op_tx op d)))"
proof (cases "(\<exists>c. op = OpAddContainer c) \<or> (\<exists>p c. op = OpAddContainerToPod p c)")
  case True
  then show ?thesis using addContainer_UpdateU_acyclic[OF assms(1,3)] by auto
next
  case False
  have "fewer_deps d (fst (op_tx op d))"
  proof (cases op)
    case (OpGetNetworks rt c)
    then show ?thesis using GetNetworks_fewer[of d rt c] by (simp add: forget_def case_prod_beta)
  qed (use assms(1,2) False in \<open>auto simp: err_simps intro!: fewer_deps_UpdateU
      intro: fewer_deps_same[OF same_ctrs_bodies(1)] fewer_deps_same[OF same_ctrs_bodies(2)]
        SaveContainer_fewer networkModify_fewer NetworkDisconnect_fewer AddExecSession_fewer
        RemoveExecSession_fewer RemoveContainerExecSessions_fewer removeContainer_fewer
        RemovePodContainers_fewer Refresh_fewer rewriteConfig_fewer SafeRewrite_fewer
        same_ctrs_fewer\<close>)
  then show ?thesis using fewer_deps_acyclic assms(3) by blast
qed

text \<open>The invariant with acyclic dependencies, over the reachable states.\<close>

lemma reachable_acyclic:
  assumes "reachable s"
  shows "db_wf (bs_db s)" "acyclic (dep_edges (bs_db s))"
proof -
  have "db_wf (bs_db s) \<and> acyclic (dep_edges (bs_db s))"
    using assms
  proof (induction rule: reachable.induct)
    case (opened s)
    then have "bs_db s = fresh_db" by (auto simp: NewBoltState_def needsUpdate_def blank_db_def)
    moreover have "dep_edges fresh_db = {}"
      by (auto simp: dep_edges_def depends_def config_of_def createBuckets_def blank_db_def CreateBucketIfNotExists_def)
    ultimately show ?case using db_wf_fresh by (simp add: acyclic_def)
  next
    case (step s op s' r)
    then show ?case
      using run_op_bracket[OF step(3)] op_tx_acyclic[of "bs_db s" op] run_op_wf[OF step(3)]
      by (auto simp: withDBCon_def getDBCon_def closeDBCon_def Let_def split: if_splits option.splits prod.splits)
  qed (simp_all add: Close_def)
  then show "db_wf (bs_db s)" "acyclic (dep_edges (bs_db s))" by simp_all
qed

end
