(* ===== verification/NetIP.thy ===== *)
theory NetIP
  imports Strconv GoStrings
begin

text \<open>
  \<^verbatim>\<open>net.ParseIP\<close> and \<^verbatim>\<open>IP.String\<close> of the Go standard library: an address is its eight 16-bit groups,
  an IPv4 address being the last two groups behind the prefix \<^verbatim>\<open>::ffff:0:0\<close>.
\<close>

section \<open>Parsing\<close>

definition v4Field :: "string \<Rightarrow> nat option" where
  "v4Field w =
     (if w = [] \<or> length w > 3 \<or> (length w > 1 \<and> hd w = CHR ''0'') then None
      else case readNat w of Some n \<Rightarrow> if n \<le> 255 then Some n else None | None \<Rightarrow> None)"

definition parseIPv4 :: "string \<Rightarrow> nat list option" where
  "parseIPv4 s =
     (case map v4Field (Split CHR ''.'' s) of
        [Some a, Some b, Some c, Some d] \<Rightarrow> Some [a * 256 + b, c * 256 + d]
      | _ \<Rightarrow> None)"

definition hexVal :: "char \<Rightarrow> nat option" where
  "hexVal c =
     (let n = of_char c :: nat in
      if 48 \<le> n \<and> n \<le> 57 then Some (n - 48)
      else if 97 \<le> n \<and> n \<le> 102 then Some (n - 87)
      else if 65 \<le> n \<and> n \<le> 70 then Some (n - 55) else None)"

definition hexPrefix :: "string \<Rightarrow> string" where
  "hexPrefix s = takeWhile (\<lambda>c. hexVal c \<noteq> None) s"

definition hexNum :: "string \<Rightarrow> nat" where
  "hexNum w = fold (\<lambda>c acc. acc * 16 + the (hexVal c)) w 0"

text \<open>
  The loop over the groups of an IPv6 address: the groups read so far, the position of the
  ellipsis if there was one, and the rest of the text. Every round reads at least one group.
\<close>

fun v6Groups :: "nat \<Rightarrow> nat list \<Rightarrow> nat option \<Rightarrow> string \<Rightarrow> (nat list \<times> nat option \<times> string) option" where
  "v6Groups 0 gs ell s = Some (gs, ell, s)"
| "v6Groups (Suc fuel) gs ell s =
     (if length gs \<ge> 8 then Some (gs, ell, s)
      else
        let w = hexPrefix s; rest = drop (length w) s in
        if w = [] \<or> length w > 4 then None
        else if rest \<noteq> [] \<and> hd rest = CHR ''.'' then
          (if (ell = None \<and> length gs \<noteq> 6) \<or> length gs > 6 then None
           else map_option (\<lambda>v4. (gs @ v4, ell, [])) (parseIPv4 s))
        else
          let gs' = gs @ [hexNum w] in
          case rest of
            [] \<Rightarrow> Some (gs', ell, [])
          | c # rest' \<Rightarrow>
              if c \<noteq> CHR '':'' \<or> rest' = [] then None
              else if hd rest' = CHR '':'' then
                (if ell \<noteq> None then None
                 else if tl rest' = [] then Some (gs', Some (length gs'), [])
                 else v6Groups fuel gs' (Some (length gs')) (tl rest'))
              else v6Groups fuel gs' ell rest')"

definition parseIPv6 :: "string \<Rightarrow> nat list option" where
  "parseIPv6 s =
     (let lead = prefix ''::'' s; s' = (if lead then drop 2 s else s) in
      if lead \<and> s' = [] then Some (replicate 8 0)
      else case v6Groups 9 [] (if lead then Some 0 else None) s' of
             None \<Rightarrow> None
           | Some (gs, ell, rest) \<Rightarrow>
               if rest \<noteq> [] then None
               else (case ell of
                       None \<Rightarrow> if length gs = 8 then Some gs else None
                     | Some k \<Rightarrow> if length gs < 8
                                then Some (take k gs @ replicate (8 - length gs) 0 @ drop k gs) else None))"

definition ParseIP :: "string \<Rightarrow> nat list option" where
  "ParseIP s =
     (case dropWhile (\<lambda>c. c \<noteq> CHR ''.'' \<and> c \<noteq> CHR '':'' \<and> c \<noteq> CHR ''%'') s of
        c # _ \<Rightarrow>
          if c = CHR ''.'' then map_option (\<lambda>v4. [0, 0, 0, 0, 0, 65535] @ v4) (parseIPv4 s)
          else if c = CHR '':'' then parseIPv6 s else None
      | [] \<Rightarrow> None)"

section \<open>Printing\<close>

definition hexDigit :: "nat \<Rightarrow> char" where
  "hexDigit d = char_of (if d < 10 then 48 + d else 87 + d)"

fun showHex :: "nat \<Rightarrow> string" where
  "showHex n = (if n < 16 then [hexDigit n] else showHex (n div 16) @ [hexDigit (n mod 16)])"

declare showHex.simps [simp del]

definition zeroRun :: "nat list \<Rightarrow> nat" where
  "zeroRun gs = length (takeWhile (\<lambda>g. g = 0) gs)"

text \<open>Start and length of the first longest run of zero groups.\<close>

definition longestRun :: "nat list \<Rightarrow> nat \<times> nat" where
  "longestRun gs =
     fold (\<lambda>i (k, n). if zeroRun (drop i gs) > n then (i, zeroRun (drop i gs)) else (k, n)) [0..<length gs] (0, 0)"

definition IP_String :: "nat list \<Rightarrow> string" where
  "IP_String gs =
     (if take 6 gs = [0, 0, 0, 0, 0, 65535] then
        Join ''.'' (map showNat (concat (map (\<lambda>g. [g div 256, g mod 256]) (drop 6 gs))))
      else
        let (k, n) = longestRun gs in
        if n < 2 then Join '':'' (map showHex gs)
        else Join '':'' (map showHex (take k gs)) @ ''::'' @ Join '':'' (map showHex (drop (k + n) gs)))"

end
