(* ===== verification/PublishPorts.thy ===== *)
theory PublishPorts
  imports NetIP Types
begin

text \<open>
  The ports of the command line (\<^verbatim>\<open>src/pkg/specgenutil/util.go\<close>): the flag \<^verbatim>\<open>--publish\<close> has the form
  \<^verbatim>\<open>[[hostip:]hostport[-endPort]:]containerport[-endPort][/protocol]\<close> and becomes a port mapping with a range,
  the flag \<^verbatim>\<open>--expose\<close> becomes a map from ports to protocols.
\<close>

datatype port_error =
    ProtocolTwice | NotBracketed | NoColonAfterIP | TwoIPv6 | NeedHostPort | V6Format | PortFormat
  | EmptyCtrPort | EmptyProtocol | EmptyHostIP | BadIP | LengthMismatch
  | RangeFormat | NegativePort | NoRangeEnd | EndNotHigher | BadNumber error | PortOutOfRange
  | BadProtocol string | SctpNotAllowed | NoProtocols | CtrPortZero | CtrRangeExceeds | HostRangeExceeds
  | ConflictingPorts "16 word" string | RandomPortError | NoOpenPort "16 word" | ExposeZero
  | IndexPanic

section \<open>Ports and ranges\<close>

definition parseAndValidatePort :: "string \<Rightarrow> port_error + 16 word" where
  "parseAndValidatePort port =
     (case Atoi port of
        Inl e \<Rightarrow> Inl (BadNumber e)
      | Inr num \<Rightarrow> if num < 1 \<or> num > 65535 then Inl PortOutOfRange else Inr (word_of_int num))"

definition parseAndValidateRange :: "string \<Rightarrow> port_error + 16 word \<times> 16 word" where
  "parseAndValidateRange portRange =
     (let splitRange = Split CHR ''-'' portRange in
      if length splitRange > 2 then Inl RangeFormat
      else if splitRange ! 0 = [] then Inl NegativePort
      else bindE (parseAndValidatePort (splitRange ! 0)) (\<lambda>startPort.
        if length splitRange = 2 then
          (if splitRange ! 1 = [] then Inl NoRangeEnd
           else bindE (parseAndValidatePort (splitRange ! 1)) (\<lambda>endPort.
             if endPort \<le> startPort then Inl EndNotHigher
             else Inr (startPort, endPort - startPort + 1)))
        else Inr (startPort, 1)))"

definition zero_PortMapping :: PortMapping where
  "zero_PortMapping = \<lparr>HostIP = [], ContainerPort = 0, HostPort = 0, Range = 0, Protocol = []\<rparr>"

definition parseSplitPort ::
  "string option \<Rightarrow> string option \<Rightarrow> string \<Rightarrow> string option \<Rightarrow> port_error + PortMapping" where
  "parseSplitPort hostIP hostPort ctrPort protocol =
     (if ctrPort = [] then Inl EmptyCtrPort
      else bindE (parseAndValidateRange ctrPort) (\<lambda>(ctrStart, ctrLen).
      let newPort = zero_PortMapping\<lparr>ContainerPort := ctrStart, Range := ctrLen\<rparr> in
      bindE (case protocol of
               None \<Rightarrow> Inr newPort
             | Some p \<Rightarrow> if p = [] then Inl EmptyProtocol else Inr (newPort\<lparr>Protocol := p\<rparr>)) (\<lambda>newPort.
      bindE (case hostIP of
               None \<Rightarrow> Inr newPort
             | Some ip \<Rightarrow>
                 if ip = [] then Inl EmptyHostIP
                 else if ip \<noteq> ''0.0.0.0'' then
                   (case ParseIP ip of
                      None \<Rightarrow> Inl BadIP
                    | Some testIP \<Rightarrow> Inr (newPort\<lparr>HostIP := IP_String testIP\<rparr>))
                 else Inr newPort) (\<lambda>newPort.
      case hostPort of
        None \<Rightarrow> Inr newPort
      | Some hp \<Rightarrow>
          if hp = [] then Inr (newPort\<lparr>HostPort := 0\<rparr>)
          else bindE (parseAndValidateRange hp) (\<lambda>(hostStart, hostLen).
            if hostLen \<noteq> ctrLen then Inl LengthMismatch
            else Inr (newPort\<lparr>HostPort := hostStart\<rparr>))))))"

section \<open>The flag \<^verbatim>\<open>--publish\<close>\<close>

text \<open>An IPv6 address in brackets: whether there is one, the address, and the rest.\<close>

definition splitBrackets :: "string \<Rightarrow> port_error + string option \<times> string" where
  "splitBrackets remainder =
     (case Split CHR '']'' remainder of
        [_] \<Rightarrow> Inr (None, remainder)
      | [a, b] \<Rightarrow>
          if \<not> HasPrefix a ''['' then Inl NotBracketed
          else if \<not> HasPrefix b '':'' then Inl NoColonAfterIP
          else Inr (Some (TrimPrefix a ''[''), TrimPrefix b '':'')
      | _ \<Rightarrow> Inl TwoIPv6)"

definition parsePublish :: "string \<Rightarrow> port_error + PortMapping" where
  "parsePublish p =
     bindE (case Split CHR ''/'' p of
              [r] \<Rightarrow> Inr (r, None)
            | [r, proto] \<Rightarrow> Inr (r, Some proto)
            | _ \<Rightarrow> Inl ProtocolTwice) (\<lambda>(remainder, proto).
     bindE (splitBrackets remainder) (\<lambda>(v6, remainder).
       case Split CHR '':'' remainder of
         [c] \<Rightarrow> if v6 \<noteq> None then Inl NeedHostPort else parseSplitPort None None c proto
       | [h, c] \<Rightarrow> parseSplitPort v6 (Some h) c proto
       | [ip, h, c] \<Rightarrow> if v6 \<noteq> None then Inl V6Format else parseSplitPort (Some ip) (Some h) c proto
       | _ \<Rightarrow> Inl PortFormat))"

definition CreatePortBindings :: "string list \<Rightarrow> port_error + PortMapping list" where
  "CreatePortBindings ports = foldE (\<lambda>p acc. bindE (parsePublish p) (\<lambda>m. Inr (acc @ [m]))) ports []"

section \<open>The flag \<^verbatim>\<open>--expose\<close>\<close>

definition exposePort :: "string \<Rightarrow> 16 word \<Rightarrow> (16 word \<rightharpoonup> string) \<Rightarrow> 16 word \<rightharpoonup> string" where
  "exposePort proto portNum toReturn =
     (case toReturn portNum of
        None \<Rightarrow> toReturn(portNum \<mapsto> proto)
      | Some protocols \<Rightarrow>
          toReturn(portNum \<mapsto> Join '','' (Split CHR '','' protocols @ Split CHR '','' proto)))"

definition CreateExpose :: "string list \<Rightarrow> port_error + (16 word \<rightharpoonup> string)" where
  "CreateExpose expose =
     foldE (\<lambda>e toReturn.
       let splitProto = Split CHR ''/'' e in
       if length splitProto > 2 then Inl ProtocolTwice
       else
         let proto = (if length splitProto = 2 then splitProto ! 1 else ''tcp'') in
         bindE (parseAndValidateRange (splitProto ! 0)) (\<lambda>(start, len).
           Inr (fold (\<lambda>index. exposePort proto (start + of_nat index)) [0..<unat len] toReturn)))
       expose Map.empty"

section \<open>Correctness\<close>

definition valid_range :: "16 word \<Rightarrow> 16 word \<Rightarrow> bool" where
  "valid_range start len \<longleftrightarrow> 1 \<le> unat start \<and> 1 \<le> unat len \<and> unat start + unat len \<le> 65536"

lemma unat_word_of_port:
  assumes "0 \<le> n" "n \<le> 65535"
  shows "unat (word_of_int n :: 16 word) = nat n"
proof -
  have "uint (word_of_int n :: 16 word) = n" using assms by (simp add: uint_word_of_int)
  then show ?thesis by (simp add: unat_eq_nat_uint)
qed

lemma parseAndValidatePort_Inr:
  assumes "parseAndValidatePort s = Inr p"
  obtains n where "Atoi s = Inr n" "1 \<le> n" "n \<le> 65535" "p = word_of_int n" "unat p = nat n"
proof (cases "Atoi s")
  case (Inl e)
  with assms show ?thesis by (simp add: parseAndValidatePort_def)
next
  case (Inr n)
  with assms have n: "1 \<le> n" "n \<le> 65535" "p = word_of_int n"
    unfolding parseAndValidatePort_def by (simp_all split: if_splits)
  moreover have "unat p = nat n" unfolding n(3) by (rule unat_word_of_port) (use n in auto)
  ultimately show ?thesis using Inr that by blast
qed

lemma parseAndValidateRange_valid:
  assumes "parseAndValidateRange s = Inr (start, len)"
  shows "valid_range start len"
proof (cases "length (Split CHR ''-'' s) = 2")
  case True
  from assms True obtain e where e: "parseAndValidatePort (Split CHR ''-'' s ! 0) = Inr start"
    "parseAndValidatePort (Split CHR ''-'' s ! 1) = Inr e" "start < e" "len = e - start + 1"
    by (auto simp: parseAndValidateRange_def Let_def err_simps split: if_splits)
  have b: "1 \<le> unat start" "unat e \<le> 65535"
    using parseAndValidatePort_Inr[OF e(1), of "1 \<le> unat start"] parseAndValidatePort_Inr[OF e(2), of "unat e \<le> 65535"]
    by simp_all
  have "unat (e - start) = unat e - unat start" using e(3) by (simp add: unat_sub)
  moreover have "unat start < unat e" using e(3) by (simp add: word_less_nat_alt)
  ultimately have "unat len = unat e - unat start + 1"
    using b by (simp add: e(4) unat_word_ariths)
  with b \<open>unat start < unat e\<close> show ?thesis by (simp add: valid_range_def)
next
  case False
  with assms have "parseAndValidatePort (Split CHR ''-'' s ! 0) = Inr start" "len = 1"
    by (auto simp: parseAndValidateRange_def Let_def err_simps split: if_splits)
  moreover from this have "1 \<le> unat start" "unat start \<le> 65535"
    using parseAndValidatePort_Inr[of _ start "1 \<le> unat start"] parseAndValidatePort_Inr[of _ start "unat start \<le> 65535"]
    by simp_all
  ultimately show ?thesis by (simp add: valid_range_def)
qed

lemma parseSplitPort_valid:
  assumes "parseSplitPort hostIP hostPort ctrPort protocol = Inr m"
  shows "valid_range (ContainerPort m) (Range m)" "HostPort m = 0 \<or> valid_range (HostPort m) (Range m)"
proof -
  have "parseAndValidateRange ctrPort = Inr (ContainerPort m, Range m)"
    and "HostPort m = 0 \<or> parseAndValidateRange (the hostPort) = Inr (HostPort m, Range m)"
    using assms unfolding parseSplitPort_def zero_PortMapping_def Let_def
    by (cases "parseAndValidateRange ctrPort"; cases protocol; cases hostIP; cases hostPort;
        cases "parseAndValidateRange (the hostPort)"; cases "ParseIP (the hostIP)"; clarsimp split: if_splits)+
  then show "valid_range (ContainerPort m) (Range m)" "HostPort m = 0 \<or> valid_range (HostPort m) (Range m)"
    using parseAndValidateRange_valid by blast+
qed

lemma parsePublish_valid:
  assumes "parsePublish p = Inr m"
  shows "valid_range (ContainerPort m) (Range m) \<and> (HostPort m = 0 \<or> valid_range (HostPort m) (Range m))"
proof -
  obtain v6 rest proto where
    "(case Split CHR '':'' rest of
         [c] \<Rightarrow> if v6 \<noteq> None then Inl NeedHostPort else parseSplitPort None None c proto
       | [h, c] \<Rightarrow> parseSplitPort v6 (Some h) c proto
       | [ip, h, c] \<Rightarrow> if v6 \<noteq> None then Inl V6Format else parseSplitPort (Some ip) (Some h) c proto
       | _ \<Rightarrow> Inl PortFormat) = Inr m"
    using assms unfolding parsePublish_def bindE_eq_Inr case_prod_beta by blast
  then obtain hostIP hostPort ctrPort where "parseSplitPort hostIP hostPort ctrPort proto = Inr m"
    by (simp split: list.splits if_splits)
  from parseSplitPort_valid[OF this] show ?thesis by simp
qed

subsection \<open>The text of a mapping\<close>

definition showRange :: "16 word \<Rightarrow> 16 word \<Rightarrow> string" where
  "showRange start len =
     (if len = 1 then Itoa (uint start) else Itoa (uint start) @ ''-'' @ Itoa (uint start + uint len - 1))"

definition publishString :: "PortMapping \<Rightarrow> string" where
  "publishString m =
     (if HostIP m = [] then [] else if CHR '':'' \<in> set (HostIP m) then ''['' @ HostIP m @ '']:'' else HostIP m @ '':'') @
     (if HostPort m = 0 then [] else showRange (HostPort m) (Range m)) @ '':'' @
     showRange (ContainerPort m) (Range m) @ (if Protocol m = [] then [] else ''/'' @ Protocol m)"

text \<open>A mapping that can be written on the command line.\<close>

definition publishable :: "PortMapping \<Rightarrow> bool" where
  "publishable m \<longleftrightarrow>
     valid_range (ContainerPort m) (Range m) \<and> (HostPort m = 0 \<or> valid_range (HostPort m) (Range m)) \<and>
     CHR ''/'' \<notin> set (Protocol m) \<and>
     (HostIP m = [] \<or> HostIP m \<noteq> ''0.0.0.0'' \<and> map_option IP_String (ParseIP (HostIP m)) = Some (HostIP m) \<and>
        CHR ''/'' \<notin> set (HostIP m) \<and> CHR '']'' \<notin> set (HostIP m))"

lemma showNat_digits: "c \<in> set (showNat n) \<Longrightarrow> digitVal c \<noteq> None"
proof (induction n rule: showNat.induct)
  case (1 n)
  then show ?case by (subst (asm) showNat.simps) (auto split: if_splits)
qed

lemma not_digit [simp]: "digitVal CHR ''-'' = None" "digitVal CHR '':'' = None" "digitVal CHR ''/'' = None"
  "digitVal CHR '']'' = None"
  by (simp_all add: digitVal_def)

lemma sep_notin_showNat:
  assumes "digitVal c = None"
  shows "c \<notin> set (showNat n)"
  using showNat_digits[of c n] assms by blast

lemma Itoa_uint: "Itoa (uint p) = showNat (unat p)"
  by (simp add: Itoa_def)

lemma parse_show_port:
  assumes "1 \<le> n" "n \<le> 65535"
  shows "parseAndValidatePort (showNat n) = Inr (of_nat n)"
proof -
  have "showNat n = Itoa (int n)" by (simp add: Itoa_def)
  then have "Atoi (showNat n) = Inr (int n)" using assms by (simp add: Atoi_Itoa)
  with assms show ?thesis by (simp add: parseAndValidatePort_def)
qed

lemma showNat_not_Nil [simp]: "showNat n \<noteq> []"
  by (subst showNat.simps) simp

lemma parse_showRange:
  assumes "valid_range start len"
  shows "parseAndValidateRange (showRange start len) = Inr (start, len)"
proof -
  have v: "1 \<le> unat start" "unat start + unat len \<le> 65536" "1 \<le> unat len" using assms by (simp_all add: valid_range_def)
  show ?thesis
  proof (cases "len = 1")
    case True
    with v show ?thesis
      by (simp add: showRange_def Itoa_uint parseAndValidateRange_def sep_notin_showNat parse_show_port)
  next
    case False
    then have "unat len \<noteq> 1" by (metis unat_1 word_unat_eq_iff)
    with v have l: "2 \<le> unat len" by simp
    let ?e = "unat start + unat len - 1"
    have "uint start + uint len - 1 = int ?e" using v by (simp add: of_nat_diff)
    then have s: "showRange start len = showNat (unat start) @ CHR ''-'' # showNat ?e"
      using False by (simp add: showRange_def Itoa_uint) (simp add: Itoa_def)
    have e: "unat (of_nat ?e :: 16 word) = ?e" by (subst unat_of_nat) (use v in simp)
    have "start < of_nat ?e" using v l e by (simp add: word_less_nat_alt)
    moreover have "of_nat ?e - start + 1 = len"
      using v by (simp add: of_nat_diff)
    ultimately show ?thesis
      using v l by (simp add: parseAndValidateRange_def s Split_append sep_notin_showNat parse_show_port)
  qed
qed

lemma showRange_sep:
  assumes "digitVal c = None" "c \<noteq> CHR ''-''"
  shows "c \<notin> set (showRange start len)"
proof -
  have "c \<notin> set (Itoa i)" for i
    using assms sep_notin_showNat[OF assms(1)] by (auto simp: Itoa_def)
  then show ?thesis using assms(2) by (simp add: showRange_def)
qed

lemma showRange_not_Nil [simp]: "showRange start len \<noteq> []"
  by (simp add: showRange_def Itoa_uint)

lemma parse_publishString:
  assumes "publishable m"
  shows "parsePublish (publishString m) = Inr m"
proof -
  have valid: "valid_range (ContainerPort m) (Range m)" "HostPort m = 0 \<or> valid_range (HostPort m) (Range m)"
    and sep: "CHR ''/'' \<notin> set (Protocol m)"
    and ip: "HostIP m = [] \<or> HostIP m \<noteq> ''0.0.0.0'' \<and> map_option IP_String (ParseIP (HostIP m)) = Some (HostIP m) \<and>
        CHR ''/'' \<notin> set (HostIP m) \<and> CHR '']'' \<notin> set (HostIP m)"
    using assms by (simp_all add: publishable_def)
  define host where "host = (if HostPort m = 0 then [] else showRange (HostPort m) (Range m))"
  define ctr where "ctr = showRange (ContainerPort m) (Range m)"
  define proto where "proto = (if Protocol m = [] then None else Some (Protocol m))"
  have hc: "c \<notin> set host" "c \<notin> set ctr" if "c \<in> {CHR ''/'', CHR '':'', CHR '']''}" for c
    using showRange_sep that by (auto simp: host_def ctr_def)
  have fin: "parseSplitPort (if HostIP m = [] then None else Some (HostIP m)) (Some host) ctr proto = Inr m"
    using valid ip by (cases m) (auto simp: parseSplitPort_def Let_def parse_showRange zero_PortMapping_def
        host_def ctr_def proto_def)
  define addr where "addr = (if HostIP m = [] then [] else if CHR '':'' \<in> set (HostIP m)
    then ''['' @ HostIP m @ '']:'' else HostIP m @ '':'')"
  define r where "r = addr @ host @ CHR '':'' # ctr"
  have r: "CHR ''/'' \<notin> set r" using hc[of "CHR ''/''"] ip by (auto simp: r_def addr_def)
  have p: "publishString m = r @ (if Protocol m = [] then [] else CHR ''/'' # Protocol m)"
    by (simp add: publishString_def r_def addr_def host_def ctr_def)
  have s1: "Split CHR ''/'' (publishString m) = (case proto of None \<Rightarrow> [r] | Some p \<Rightarrow> [r, p])"
    using r sep unfolding p by (simp add: proto_def Split_append)
  have hcs: "Split CHR '':'' (host @ CHR '':'' # ctr) = [host, ctr]" using hc[of "CHR '':''"] by (simp add: Split_append)
  consider "HostIP m = []" | "HostIP m \<noteq> []" "CHR '':'' \<notin> set (HostIP m)" | "HostIP m \<noteq> []" "CHR '':'' \<in> set (HostIP m)" by blast
  then show ?thesis
  proof cases
    case 1
    have "CHR '']'' \<notin> set r" using hc[of "CHR '']''"] 1 by (simp add: r_def addr_def)
    then have "splitBrackets r = Inr (None, r)" by (simp add: splitBrackets_def)
    with s1 fin hcs 1 show ?thesis by (cases proto) (simp_all add: parsePublish_def r_def addr_def)
  next
    case 2
    have "CHR '']'' \<notin> set r" using hc[of "CHR '']''"] 2 ip by (simp add: r_def addr_def)
    then have "splitBrackets r = Inr (None, r)" by (simp add: splitBrackets_def)
    moreover have "Split CHR '':'' r = [HostIP m, host, ctr]" using 2 hcs by (simp add: Split_append r_def addr_def)
    ultimately show ?thesis using s1 fin 2 by (cases proto) (simp_all add: parsePublish_def)
  next
    case 3
    have "CHR '']'' \<notin> set (''['' @ HostIP m)" "CHR '']'' \<notin> set (CHR '':'' # host @ CHR '':'' # ctr)"
      using hc[of "CHR '']''"] 3 ip by simp_all
    then have "splitBrackets r = Inr (Some (HostIP m), host @ CHR '':'' # ctr)"
      using 3 Split_append[of "CHR '']''" "''['' @ HostIP m" "CHR '':'' # host @ CHR '':'' # ctr"]
      by (simp add: splitBrackets_def TrimPrefix_def r_def addr_def)
    with s1 fin hcs 3 show ?thesis by (cases proto) (simp_all add: parsePublish_def)
  qed
qed

end
