(* ===== verification/PortMap.thy ===== *)
theory PortMap
  imports PublishPorts Ports
begin

text \<open>
  The port mappings of a container (\<^verbatim>\<open>src/pkg/specgen/generate/ports.go\<close>): the mappings of the
  specification are validated, grouped by address and protocol, sorted and joined to ranges;
  mappings without a host port and exposed ports get random host ports.

  An array \<^verbatim>\<open>[65536]bool\<close> is a function on 16-bit words, so every index of type \<^verbatim>\<open>uint16\<close> is in bounds.
  The ports that the operating system hands out (\<open>GetRandomPort\<close> of \<^verbatim>\<open>src/utils/ports.go\<close> opens a socket) are the
  parameter \<open>rnd\<close>: the answer of the \<open>k\<close>-th call. Go does not specify the order in
  which a map is iterated: the orders are parameters as well.
\<close>

type_synonym usedPorts = "16 word \<Rightarrow> bool"

record PortAcc =
  pa_ports :: "PortMapping list"
  pa_allHost :: usedPorts
  pa_allCtr :: usedPorts
  pa_curHost :: usedPorts
  pa_calls :: nat

section \<open>Joining two mappings\<close>

definition usePort :: "PortMapping \<Rightarrow> nat \<Rightarrow> PortAcc \<Rightarrow> PortAcc" where
  "usePort port i st =
     (let h = HostPort port + of_nat i; c = ContainerPort port + of_nat i in
      st\<lparr>pa_allHost := (pa_allHost st)(h := True), pa_curHost := (pa_curHost st)(h := True),
         pa_allCtr := (pa_allCtr st)(c := True)\<rparr>)"

definition addPortToUsedPorts :: "PortMapping \<Rightarrow> PortAcc \<Rightarrow> PortAcc" where
  "addPortToUsedPorts port st =
     (let st' = fold (usePort port) [0..<unat (Range port)] st
      in st'\<lparr>pa_ports := pa_ports st' @ [port]\<rparr>)"

definition joinTwoPortsToRangePortIfPossible ::
  "PortAcc \<Rightarrow> PortMapping option \<Rightarrow> PortMapping \<Rightarrow> port_error + PortAcc \<times> PortMapping" where
  "joinTwoPortsToRangePortIfPossible st previousPort port =
     (case previousPort of
        None \<Rightarrow> Inr (st, port)
      | Some prev \<Rightarrow>
          let portDiff = HostPort port - HostPort prev; newRange = Range port + portDiff in
          if HostPort prev + Range prev \<ge> HostPort port \<and> portDiff = ContainerPort port - ContainerPort prev
          then Inr (st, if newRange > Range prev then prev\<lparr>Range := newRange\<rparr> else prev)
          else if HostPort prev + Range prev \<ge> HostPort port \<and> HostPort prev + Range prev - 1 > HostPort port
          then Inl (ConflictingPorts (HostPort port) (Protocol port))
          else Inr (addPortToUsedPorts prev st, port))"

text \<open>At most fifteen random ports are tried.\<close>

fun tryRandomPort ::
  "(nat \<Rightarrow> port_error + nat) \<Rightarrow> usedPorts \<Rightarrow> PortMapping \<Rightarrow> nat \<Rightarrow> nat \<Rightarrow> port_error + PortMapping \<times> nat" where
  "tryRandomPort rnd hostPorts port 0 calls = Inl (NoOpenPort (ContainerPort port))"
| "tryRandomPort rnd hostPorts port (Suc n) calls =
     (case rnd calls of
        Inl e \<Rightarrow> Inl e
      | Inr ranPort \<Rightarrow>
          if ranPort + unat (Range port) > 65535 then tryRandomPort rnd hostPorts port n (calls + 1)
          else if list_ex (\<lambda>j. hostPorts (of_nat (ranPort + j))) [0..<unat (Range port)]
          then tryRandomPort rnd hostPorts port n (calls + 1)
          else Inr (port\<lparr>HostPort := of_nat ranPort\<rparr>, calls + 1))"

definition getRandomHostPort ::
  "(nat \<Rightarrow> port_error + nat) \<Rightarrow> usedPorts \<Rightarrow> PortMapping \<Rightarrow> nat \<Rightarrow> port_error + PortMapping \<times> nat" where
  "getRandomHostPort rnd hostPorts port calls = tryRandomPort rnd hostPorts port 15 calls"

definition addRandomPort :: "(nat \<Rightarrow> port_error + nat) \<Rightarrow> PortMapping \<Rightarrow> PortAcc \<Rightarrow> port_error + PortAcc" where
  "addRandomPort rnd port st =
     bindE (getRandomHostPort rnd (pa_curHost st) port (pa_calls st)) (\<lambda>(newPort, calls).
       Inr (addPortToUsedPorts newPort (st\<lparr>pa_calls := calls\<rparr>)))"

definition joinTwoContainerPortsToRangePortIfPossible ::
  "(nat \<Rightarrow> port_error + nat) \<Rightarrow> PortAcc \<Rightarrow> PortMapping option \<Rightarrow> PortMapping \<Rightarrow> port_error + PortAcc \<times> PortMapping" where
  "joinTwoContainerPortsToRangePortIfPossible rnd st previousPort port =
     (case previousPort of
        None \<Rightarrow> Inr (st, port)
      | Some prev \<Rightarrow>
          if ContainerPort prev + Range prev > ContainerPort port then
            let newRange = ContainerPort port - ContainerPort prev + Range port
            in Inr (st, if newRange > Range prev then prev\<lparr>Range := newRange\<rparr> else prev)
          else bindE (addRandomPort rnd prev st) (\<lambda>st'. Inr (st', port)))"

section \<open>Validation\<close>

text \<open>The result of \<open>checkProtocol\<close> has no duplicates; its order, that of a Go map, does not matter to the callers.\<close>

definition checkProtocol :: "string \<Rightarrow> bool \<Rightarrow> port_error + string list" where
  "checkProtocol protocol allowSCTP =
     (let splitProto = map ToLower (Split CHR '','' protocol) in
      bindE (foldE (\<lambda>p _.
               if p = ''tcp'' \<or> p = [] \<or> p = ''udp'' then Inr ()
               else if p = ''sctp'' then guardE allowSCTP SctpNotAllowed
               else Inl (BadProtocol p)) splitProto ()) (\<lambda>_.
      let finalProto = (if ''tcp'' \<in> set splitProto \<or> [] \<in> set splitProto then [''tcp''] else []) @
                       filter (\<lambda>p. p \<in> set splitProto) [''udp'', ''sctp'']
      in if finalProto = [] then Inl NoProtocols else Inr finalProto))"

record tempMapping =
  hostPort :: "16 word"
  containerPort :: "16 word"
  rangePort :: "16 word"

type_synonym portMap = "string \<Rightarrow> string \<Rightarrow> tempMapping list"

definition validatePort :: "PortMapping \<Rightarrow> portMap \<Rightarrow> port_error + portMap" where
  "validatePort port pm =
     bindE (checkProtocol (Protocol port) True) (\<lambda>protocols.
     if HostIP port \<noteq> [] \<and> ParseIP (HostIP port) = None then Inl BadIP
     else
       let portRange = (if Range port = 0 then 1 else Range port);
           p = \<lparr>hostPort = HostPort port, containerPort = ContainerPort port, rangePort = portRange\<rparr> in
       if ContainerPort port = 0 then Inl CtrPortZero
       else if unat (portRange - 1) + unat (ContainerPort port) > 65535 then Inl CtrRangeExceeds
       else if unat (portRange - 1) + unat (HostPort port) > 65535 then Inl HostRangeExceeds
       else Inr (pm(HostIP port := (\<lambda>proto. pm (HostIP port) proto @ (if proto \<in> set protocols then [p] else [])))))"

section \<open>One address and protocol\<close>

text \<open>The order of the sort: by host port and container port, host port 0 last.\<close>

definition portLess :: "tempMapping \<Rightarrow> tempMapping \<Rightarrow> bool" where
  "portLess i j =
     (if hostPort i = hostPort j then containerPort i < containerPort j
      else if hostPort i = 0 then False
      else if hostPort j = 0 then True
      else hostPort i < hostPort j)"

fun insertTemp :: "tempMapping \<Rightarrow> tempMapping list \<Rightarrow> tempMapping list" where
  "insertTemp t [] = [t]"
| "insertTemp t (u # us) = (if portLess u t then u # insertTemp t us else t # u # us)"

definition sortTemps :: "tempMapping list \<Rightarrow> tempMapping list" where
  "sortTemps ts = foldr insertTemp ts []"

definition mkPort :: "string \<Rightarrow> string \<Rightarrow> tempMapping \<Rightarrow> PortMapping" where
  "mkPort hostIP protocol t =
     \<lparr>HostIP = hostIP, ContainerPort = containerPort t, HostPort = hostPort t, Range = rangePort t, Protocol = protocol\<rparr>"

definition joinNext ::
  "string \<Rightarrow> string \<Rightarrow> tempMapping \<Rightarrow> PortAcc \<times> PortMapping option \<Rightarrow> port_error + PortAcc \<times> PortMapping option" where
  "joinNext hostIP protocol t = (\<lambda>(st, previousPort).
     bindE (joinTwoPortsToRangePortIfPossible st previousPort (mkPort hostIP protocol t)) (\<lambda>(st', p).
       Inr (st', Some p)))"

definition joinFixed :: "string \<Rightarrow> string \<Rightarrow> tempMapping list \<Rightarrow> PortAcc \<Rightarrow> port_error + PortAcc" where
  "joinFixed hostIP protocol ts st =
     bindE (foldE (joinNext hostIP protocol) ts (st, None)) (\<lambda>(st', previousPort).
       Inr (case previousPort of None \<Rightarrow> st' | Some p \<Rightarrow> addPortToUsedPorts p st'))"

definition joinNextFree ::
  "(nat \<Rightarrow> port_error + nat) \<Rightarrow> string \<Rightarrow> string \<Rightarrow> tempMapping \<Rightarrow> PortAcc \<times> PortMapping option
     \<Rightarrow> port_error + PortAcc \<times> PortMapping option" where
  "joinNextFree rnd hostIP protocol t = (\<lambda>(st, previousPort).
     bindE (joinTwoContainerPortsToRangePortIfPossible rnd st previousPort
              ((mkPort hostIP protocol t)\<lparr>HostPort := 0\<rparr>)) (\<lambda>(st', p).
       Inr (st', Some p)))"

definition joinFree ::
  "(nat \<Rightarrow> port_error + nat) \<Rightarrow> string \<Rightarrow> string \<Rightarrow> tempMapping list \<Rightarrow> PortAcc \<Rightarrow> port_error + PortAcc" where
  "joinFree rnd hostIP protocol ts st =
     bindE (foldE (joinNextFree rnd hostIP protocol) ts (st, None)) (\<lambda>(st', previousPort).
       case previousPort of None \<Rightarrow> Inr st' | Some p \<Rightarrow> addRandomPort rnd p st')"

section \<open>All mappings\<close>

record PortState =
  pst_ports :: "PortMapping list"
  pst_host :: "string \<Rightarrow> usedPorts"
  pst_ctr :: "string \<Rightarrow> usedPorts"
  pst_calls :: nat

definition mapProtocol ::
  "(nat \<Rightarrow> port_error + nat) \<Rightarrow> portMap \<Rightarrow> string \<Rightarrow> string \<Rightarrow> PortState \<Rightarrow> port_error + PortState" where
  "mapProtocol rnd pm hostIP protocol st =
     (if pm hostIP protocol = [] then Inr st
      else
        let ports = sortTemps (pm hostIP protocol);
            acc = \<lparr>pa_ports = pst_ports st, pa_allHost = pst_host st protocol, pa_allCtr = pst_ctr st protocol,
                   pa_curHost = (\<lambda>_. False), pa_calls = pst_calls st\<rparr> in
        bindE (joinFixed hostIP protocol (takeWhile (\<lambda>t. hostPort t \<noteq> 0) ports) acc) (\<lambda>acc.
        bindE (joinFree rnd hostIP protocol (dropWhile (\<lambda>t. hostPort t \<noteq> 0) ports) acc) (\<lambda>acc.
          Inr \<lparr>pst_ports = pa_ports acc, pst_host = (pst_host st)(protocol := pa_allHost acc),
               pst_ctr = (pst_ctr st)(protocol := pa_allCtr acc), pst_calls = pa_calls acc\<rparr>)))"

text \<open>
  An exposed port: every protocol for which the container port is not mapped yet gets a random
  host port; the others stay in the map. The array the code marks the new host port in is a local copy of the
  one in the map, and it is the one of the container ports.
\<close>

definition exposeProtocol ::
  "(nat \<Rightarrow> port_error + nat) \<Rightarrow> 16 word \<Rightarrow> string \<Rightarrow> PortState \<times> string list \<Rightarrow> port_error + PortState \<times> string list" where
  "exposeProtocol rnd port protocol = (\<lambda>(st, newProtocols).
     if \<not> pst_ctr st protocol port then
       bindE (getRandomHostPort rnd (pst_ctr st protocol)
                (zero_PortMapping\<lparr>ContainerPort := port, Protocol := protocol, Range := 1\<rparr>) (pst_calls st)) (\<lambda>(p, calls).
         Inr (st\<lparr>pst_ports := pst_ports st @ [p], pst_calls := calls\<rparr>, newProtocols))
     else Inr (st, newProtocols @ [protocol]))"

definition exposePortStep ::
  "(nat \<Rightarrow> port_error + nat) \<Rightarrow> 16 word \<Rightarrow> PortState \<times> (16 word \<rightharpoonup> string list)
     \<Rightarrow> port_error + PortState \<times> (16 word \<rightharpoonup> string list)" where
  "exposePortStep rnd port = (\<lambda>(st, exposePorts).
     case exposePorts port of
       None \<Rightarrow> Inr (st, exposePorts)
     | Some protocols \<Rightarrow>
         bindE (foldE (exposeProtocol rnd port) protocols (st, [])) (\<lambda>(st', newProtocols).
           Inr (st', exposePorts(port := (if newProtocols = [] then None else Some newProtocols)))))"

definition ParsePortMapping ::
  "(nat \<Rightarrow> port_error + nat) \<Rightarrow> (string \<times> string list) list \<Rightarrow> 16 word list \<Rightarrow> PortMapping list
     \<Rightarrow> (16 word \<rightharpoonup> string list) \<Rightarrow> port_error + PortMapping list \<times> (16 word \<rightharpoonup> string list)" where
  "ParsePortMapping rnd order exposeOrder portMappings exposePorts =
     bindE (foldE validatePort portMappings (\<lambda>_ _. [])) (\<lambda>pm.
     bindE (foldE (\<lambda>(hostIP, protocols). foldE (mapProtocol rnd pm hostIP) protocols) order
              \<lparr>pst_ports = [], pst_host = (\<lambda>_ _. False), pst_ctr = (\<lambda>_ _. False), pst_calls = 0\<rparr>) (\<lambda>st.
     bindE (foldE (exposePortStep rnd) exposeOrder (st, exposePorts)) (\<lambda>(st, exposePorts).
       Inr (pst_ports st, exposePorts))))"

section \<open>The mappings of a specification\<close>

definition appendProtocolsNoDuplicates :: "string list \<Rightarrow> string list \<Rightarrow> string list" where
  "appendProtocolsNoDuplicates protos protocols =
     fold (\<lambda>proto ps. if proto \<in> set ps then ps else ps @ [proto]) protocols protos"

definition exposeOne :: "16 word \<times> string \<Rightarrow> (16 word \<rightharpoonup> string list) \<Rightarrow> port_error + (16 word \<rightharpoonup> string list)" where
  "exposeOne = (\<lambda>(port, proto) toExpose.
     if port = 0 then Inl ExposeZero
     else bindE (checkProtocol proto False) (\<lambda>protocols.
       Inr (toExpose(port \<mapsto> appendProtocolsNoDuplicates
         (case toExpose port of None \<Rightarrow> [] | Some ps \<Rightarrow> ps) protocols))))"

text \<open>
  The exposed ports of the image and of the specification are given in the order of iteration.
  The returned map is the one \<open>ParsePortMapping\<close> changed when exposed ports are published.
\<close>

definition createPortMappings ::
  "(nat \<Rightarrow> port_error + nat) \<Rightarrow> (string \<times> string list) list \<Rightarrow> 16 word list \<Rightarrow> (16 word \<times> string) list
     \<Rightarrow> bool \<Rightarrow> PortMapping list \<Rightarrow> port_error + PortMapping list \<times> (16 word \<rightharpoonup> string list)" where
  "createPortMappings rnd order exposeOrder exposes publishExposed mappings =
     bindE (foldE exposeOne exposes Map.empty) (\<lambda>toExpose.
       if publishExposed then ParsePortMapping rnd order exposeOrder mappings toExpose
       else bindE (ParsePortMapping rnd order [] mappings Map.empty) (\<lambda>(finalMappings, _).
              Inr (finalMappings, toExpose)))"

section \<open>What a mapping forwards\<close>

abbreviation forwards :: "PortMapping \<Rightarrow> (string \<times> string \<times> nat \<times> nat) set" where
  "forwards m \<equiv> set (expandPort m)"

definition forwardsAll :: "PortMapping list \<Rightarrow> (string \<times> string \<times> nat \<times> nat) set" where
  "forwardsAll ms = (\<Union>m \<in> set ms. forwards m)"

definition valid_mapping :: "PortMapping \<Rightarrow> bool" where
  "valid_mapping m \<longleftrightarrow> valid_range (HostPort m) (Range m) \<and> valid_range (ContainerPort m) (Range m)"

lemma forwards_iff:
  "x \<in> forwards m \<longleftrightarrow>
     (\<exists>i < unat (Range m). x = (HostIP m, Protocol m, unat (HostPort m) + i, unat (ContainerPort m) + i))"
  by (auto simp: expandPort_def)

lemma forwardsAll_simps [simp]:
  "forwardsAll [] = {}" "forwardsAll (m # ms) = forwards m \<union> forwardsAll ms"
  "forwardsAll (ms @ ns) = forwardsAll ms \<union> forwardsAll ns"
  by (auto simp: forwardsAll_def)

lemma fold_usePort_ports [simp]:
  "pa_ports (fold (usePort p) is st) = pa_ports st" "pa_calls (fold (usePort p) is st) = pa_calls st"
  by (induction "is" arbitrary: st) (simp_all add: usePort_def Let_def)

lemma addPort_ports [simp]:
  "pa_ports (addPortToUsedPorts p st) = pa_ports st @ [p]" "pa_calls (addPortToUsedPorts p st) = pa_calls st"
  by (simp_all add: addPortToUsedPorts_def Let_def)

text \<open>The arithmetic of a join: no operation on 16-bit words wraps around when the mappings are valid and sorted.\<close>

lemma join_arith:
  assumes "valid_mapping a" "valid_mapping b" "HostPort a \<le> HostPort b"
  shows "HostPort a + Range a \<ge> HostPort b \<longleftrightarrow>
           unat (HostPort a) + unat (Range a) < 65536 \<and> unat (HostPort b) \<le> unat (HostPort a) + unat (Range a)"
    and "unat (HostPort b - HostPort a) = unat (HostPort b) - unat (HostPort a)"
    and "unat (Range b + (HostPort b - HostPort a)) = unat (Range b) + (unat (HostPort b) - unat (HostPort a))"
proof -
  have v: "1 \<le> unat (HostPort a)" "unat (HostPort a) + unat (Range a) \<le> 65536"
    "1 \<le> unat (HostPort b)" "unat (HostPort b) + unat (Range b) \<le> 65536"
    using assms(1,2) by (simp_all add: valid_mapping_def valid_range_def)
  have le: "unat (HostPort a) \<le> unat (HostPort b)" using assms(3) by (simp add: word_le_nat_alt)
  have "unat (HostPort a + Range a) = (unat (HostPort a) + unat (Range a)) mod 65536"
    by (simp add: unat_word_ariths)
  then show "HostPort a + Range a \<ge> HostPort b \<longleftrightarrow>
      unat (HostPort a) + unat (Range a) < 65536 \<and> unat (HostPort b) \<le> unat (HostPort a) + unat (Range a)"
    using v by (cases "unat (HostPort a) + unat (Range a) = 65536") (simp_all add: word_le_nat_alt)
  show d: "unat (HostPort b - HostPort a) = unat (HostPort b) - unat (HostPort a)"
    using assms(3) by (simp add: unat_sub)
  show "unat (Range b + (HostPort b - HostPort a)) = unat (Range b) + (unat (HostPort b) - unat (HostPort a))"
    using v le d by (simp add: unat_word_ariths)
qed

lemma join_containers:
  assumes "valid_mapping a" "valid_mapping b" "HostPort a \<le> HostPort b"
    and "HostPort a + Range a \<ge> HostPort b" "HostPort b - HostPort a = ContainerPort b - ContainerPort a"
  shows "unat (ContainerPort b) = unat (ContainerPort a) + (unat (HostPort b) - unat (HostPort a))"
proof -
  let ?d = "HostPort b - HostPort a"
  note ar = join_arith[OF assms(1-3)]
  have v: "unat (ContainerPort a) + unat (Range a) \<le> 65536" "1 \<le> unat (ContainerPort b)"
    using assms(1,2) by (simp_all add: valid_mapping_def valid_range_def)
  have c: "ContainerPort b = ContainerPort a + ?d" using assms(5) by (simp add: algebra_simps)
  have "unat (ContainerPort b) = (unat (ContainerPort a) + unat ?d) mod 65536"
    unfolding c by (simp add: unat_word_ariths)
  moreover have "unat (ContainerPort a) + unat ?d \<le> 65536"
  proof -
    have "unat (HostPort b) \<le> unat (HostPort a) + unat (Range a)" using ar(1) assms(4) by blast
    then show ?thesis using ar(2) v(1) by linarith
  qed
  ultimately show ?thesis
    using v(2) ar(2) by (cases "unat (ContainerPort a) + unat ?d = 65536") simp_all
qed

text \<open>Two mappings that meet or overlap and have the same offset forward what one longer mapping forwards.\<close>

lemma join_forwards:
  assumes "HostIP p = HostIP a" "Protocol p = Protocol a" "HostPort p = HostPort a" "ContainerPort p = ContainerPort a"
    and "HostIP b = HostIP a" "Protocol b = Protocol a"
    and "unat (HostPort b) = unat (HostPort a) + d" "unat (ContainerPort b) = unat (ContainerPort a) + d"
    and "d \<le> unat (Range a)" "unat (Range p) = max (unat (Range a)) (unat (Range b) + d)"
  shows "forwards p = forwards a \<union> forwards b"
proof (intro set_eqI iffI)
  fix x assume "x \<in> forwards p"
  then obtain i where i: "i < unat (Range p)"
    "x = (HostIP a, Protocol a, unat (HostPort a) + i, unat (ContainerPort a) + i)" by (auto simp: forwards_iff assms(1-4))
  show "x \<in> forwards a \<union> forwards b"
  proof (cases "i < unat (Range a)")
    case False
    with i(1) assms(9,10) have "i - d < unat (Range b)" "d \<le> i" by linarith+
    with i(2) assms(5-8) have "x \<in> forwards b" unfolding forwards_iff by (intro exI[of _ "i - d"]) simp
    then show ?thesis by simp
  qed (use i(2) forwards_iff in blast)
next
  fix x assume "x \<in> forwards a \<union> forwards b"
  then show "x \<in> forwards p"
  proof
    assume "x \<in> forwards b"
    then obtain i where "i < unat (Range b)"
      "x = (HostIP a, Protocol a, unat (HostPort a) + (d + i), unat (ContainerPort a) + (d + i))"
      by (auto simp: forwards_iff assms(5-8))
    then show ?thesis unfolding forwards_iff assms(1-4) using assms(10) by (intro exI[of _ "d + i"]) auto
  qed (auto simp: forwards_iff assms(1-4,10))
qed

text \<open>One step of the loop: nothing is lost, nothing is added.\<close>

lemma join_step:
  assumes "joinTwoPortsToRangePortIfPossible st (Some a) b = Inr (st', p)"
    and "valid_mapping a" "valid_mapping b" "HostPort a \<le> HostPort b"
    and "HostIP b = HostIP a" "Protocol b = Protocol a"
  shows "forwardsAll (pa_ports st') \<union> forwards p = forwardsAll (pa_ports st) \<union> forwards a \<union> forwards b \<and>
     valid_mapping p \<and> HostPort p \<le> HostPort b \<and> HostIP p = HostIP a \<and> Protocol p = Protocol a \<and>
     (pa_ports st' = pa_ports st \<or> pa_ports st' = pa_ports st @ [a]) \<and> pa_calls st' = pa_calls st \<and>
     forwards p \<subseteq> forwards a \<union> forwards b"
proof -
  let ?r = "Range b + (HostPort b - HostPort a)"
  note ar = join_arith[OF assms(2-4)]
  obtain d where d: "unat (HostPort b) = unat (HostPort a) + d"
    using assms(4) unfolding word_le_nat_alt by (metis le_Suc_ex)
  consider (join) "HostPort a + Range a \<ge> HostPort b" "HostPort b - HostPort a = ContainerPort b - ContainerPort a"
      "st' = st" "p = (if ?r > Range a then a\<lparr>Range := ?r\<rparr> else a)"
    | (add) "st' = addPortToUsedPorts a st" "p = b"
    using assms(1) by (auto simp: joinTwoPortsToRangePortIfPossible_def Let_def split: if_splits)
  then show ?thesis
  proof cases
    case join
    have c: "unat (ContainerPort b) = unat (ContainerPort a) + d"
      using join_containers[OF assms(2-4) join(1,2)] by (simp add: d)
    have h: "d \<le> unat (Range a)" using ar(1) join(1) d by simp
    have r: "unat (Range p) = max (unat (Range a)) (unat (Range b) + d)"
      using ar(3) by (simp add: join(4) word_less_nat_alt d)
    have f: "HostIP p = HostIP a" "Protocol p = Protocol a" "HostPort p = HostPort a" "ContainerPort p = ContainerPort a"
      by (simp_all add: join(4))
    have "valid_mapping p"
      using assms(2,3) d c unfolding valid_mapping_def valid_range_def f r by linarith
    then show ?thesis using join_forwards[OF f assms(5,6) d c h r] join(3) f assms(4) by auto
  next
    case add
    then show ?thesis using assms(3,5,6) by auto
  qed
qed

section \<open>The loop over the mappings with a host port\<close>

lemma mkPort_simps [simp]:
  "HostIP (mkPort ip pr t) = ip" "Protocol (mkPort ip pr t) = pr" "HostPort (mkPort ip pr t) = hostPort t"
  "ContainerPort (mkPort ip pr t) = containerPort t" "Range (mkPort ip pr t) = rangePort t"
  by (simp_all add: mkPort_def)

lemma joinNext_eq_Inr:
  "joinNext ip pr t (st, prev) = Inr r \<longleftrightarrow>
     (\<exists>st' p. joinTwoPortsToRangePortIfPossible st prev (mkPort ip pr t) = Inr (st', p) \<and> r = (st', Some p))"
  by (auto simp: joinNext_def bindE_eq_Inr)

lemma joinNextFree_eq_Inr:
  "joinNextFree rnd ip pr t (st, prev) = Inr r \<longleftrightarrow>
     (\<exists>st' p. joinTwoContainerPortsToRangePortIfPossible rnd st prev ((mkPort ip pr t)\<lparr>HostPort := 0\<rparr>) = Inr (st', p) \<and>
        r = (st', Some p))"
  by (auto simp: joinNextFree_def bindE_eq_Inr)

lemma joinFixed_loop:
  assumes "foldE (joinNext ip pr) ts (st, Some a) = Inr (st', q)"
    and "valid_mapping a" "HostIP a = ip" "Protocol a = pr" "\<forall>t \<in> set ts. valid_mapping (mkPort ip pr t)"
    and "\<forall>t \<in> set ts. HostPort a \<le> hostPort t" "sorted_wrt (\<lambda>t u. hostPort t \<le> hostPort u) ts"
  shows "\<exists>p. q = Some p \<and> valid_mapping p \<and> pa_calls st' = pa_calls st \<and>
     forwardsAll (pa_ports st') \<union> forwards p =
       forwardsAll (pa_ports st) \<union> forwards a \<union> forwardsAll (map (mkPort ip pr) ts) \<and>
     (\<forall>m \<in> set (pa_ports st'). m \<in> set (pa_ports st) \<or> valid_mapping m)"
  using assms
proof (induction ts arbitrary: st a)
  case (Cons t ts)
  from Cons.prems(1) obtain st1 p where
    j: "joinTwoPortsToRangePortIfPossible st (Some a) (mkPort ip pr t) = Inr (st1, p)"
    and rest: "foldE (joinNext ip pr) ts (st1, Some p) = Inr (st', q)"
    by (auto simp: bindE_eq_Inr joinNext_eq_Inr)
  have "valid_mapping (mkPort ip pr t)" "HostPort a \<le> HostPort (mkPort ip pr t)" using Cons.prems(5,6) by simp_all
  note s = join_step[OF j Cons.prems(2) this, simplified, OF Cons.prems(3,4)[symmetric]]
  have "\<forall>u \<in> set ts. HostPort p \<le> hostPort u" using s Cons.prems(7) by fastforce
  with s Cons.prems have "\<exists>r. q = Some r \<and> valid_mapping r \<and> pa_calls st' = pa_calls st1 \<and>
     forwardsAll (pa_ports st') \<union> forwards r =
       forwardsAll (pa_ports st1) \<union> forwards p \<union> forwardsAll (map (mkPort ip pr) ts) \<and>
     (\<forall>m \<in> set (pa_ports st'). m \<in> set (pa_ports st1) \<or> valid_mapping m)"
    by (intro Cons.IH[OF rest]) simp_all
  then obtain r where r: "q = Some r" "valid_mapping r" "pa_calls st' = pa_calls st1"
    "forwardsAll (pa_ports st') \<union> forwards r = forwardsAll (pa_ports st1) \<union> forwards p \<union> forwardsAll (map (mkPort ip pr) ts)"
    "\<forall>m \<in> set (pa_ports st'). m \<in> set (pa_ports st1) \<or> valid_mapping m" by blast
  have "\<forall>m \<in> set (pa_ports st1). m \<in> set (pa_ports st) \<or> valid_mapping m" using s Cons.prems(2) by auto
  with r(5) have "\<forall>m \<in> set (pa_ports st'). m \<in> set (pa_ports st) \<or> valid_mapping m" by blast
  moreover have "forwardsAll (pa_ports st') \<union> forwards r =
      forwardsAll (pa_ports st) \<union> forwards a \<union> forwardsAll (map (mkPort ip pr) (t # ts))"
    unfolding r(4) s[THEN conjunct1] by (simp add: Un_assoc Cons.prems(3,4))
  ultimately show ?case using r(1-3) s by simp
qed auto

lemma joinFixed_forwards:
  assumes "joinFixed ip pr ts st = Inr st'" "\<forall>t \<in> set ts. valid_mapping (mkPort ip pr t)"
    and "sorted_wrt (\<lambda>t u. hostPort t \<le> hostPort u) ts"
  shows "forwardsAll (pa_ports st') = forwardsAll (pa_ports st) \<union> forwardsAll (map (mkPort ip pr) ts)"
    and "\<forall>m \<in> set (pa_ports st'). m \<in> set (pa_ports st) \<or> valid_mapping m" "pa_calls st' = pa_calls st"
proof -
  have "forwardsAll (pa_ports st') = forwardsAll (pa_ports st) \<union> forwardsAll (map (mkPort ip pr) ts) \<and>
    (\<forall>m \<in> set (pa_ports st'). m \<in> set (pa_ports st) \<or> valid_mapping m) \<and> pa_calls st' = pa_calls st"
  proof (cases ts)
    case Nil
    with assms(1) show ?thesis by (simp add: joinFixed_def)
  next
    case (Cons t us)
    with assms(1) obtain st1 q where l: "foldE (joinNext ip pr) us (st, Some (mkPort ip pr t)) = Inr (st1, q)"
      and st': "st' = (case q of None \<Rightarrow> st1 | Some p \<Rightarrow> addPortToUsedPorts p st1)"
      by (auto simp: joinFixed_def bindE_eq_Inr joinTwoPortsToRangePortIfPossible_def joinNext_eq_Inr)
    have "\<exists>p. q = Some p \<and> valid_mapping p \<and> pa_calls st1 = pa_calls st \<and>
       forwardsAll (pa_ports st1) \<union> forwards p =
         forwardsAll (pa_ports st) \<union> forwards (mkPort ip pr t) \<union> forwardsAll (map (mkPort ip pr) us) \<and>
       (\<forall>m \<in> set (pa_ports st1). m \<in> set (pa_ports st) \<or> valid_mapping m)"
      by (rule joinFixed_loop[OF l]) (use assms(2,3) Cons in simp_all)
    then obtain p where p: "q = Some p" "valid_mapping p" "pa_calls st1 = pa_calls st"
      "forwardsAll (pa_ports st1) \<union> forwards p =
         forwardsAll (pa_ports st) \<union> forwards (mkPort ip pr t) \<union> forwardsAll (map (mkPort ip pr) us)"
      "\<forall>m \<in> set (pa_ports st1). m \<in> set (pa_ports st) \<or> valid_mapping m"
      by blast
    then show ?thesis by (simp add: st' Cons Un_assoc)
  qed
  then show "forwardsAll (pa_ports st') = forwardsAll (pa_ports st) \<union> forwardsAll (map (mkPort ip pr) ts)"
    "\<forall>m \<in> set (pa_ports st'). m \<in> set (pa_ports st) \<or> valid_mapping m" "pa_calls st' = pa_calls st"
    by blast+
qed

text \<open>An error of the loop is a real conflict: one host port is mapped to two container ports.\<close>

lemma join_error:
  assumes "joinTwoPortsToRangePortIfPossible st (Some a) b = Inl e"
    and "valid_mapping a" "valid_mapping b" "HostPort a \<le> HostPort b"
  shows "\<exists>c1 c2. c1 \<noteq> c2 \<and> (HostIP a, Protocol a, unat (HostPort b), c1) \<in> forwards a \<and>
     (HostIP b, Protocol b, unat (HostPort b), c2) \<in> forwards b"
proof -
  note ar = join_arith[OF assms(2-4)]
  obtain d where d: "unat (HostPort b) = unat (HostPort a) + d"
    using assms(4) unfolding word_le_nat_alt by (metis le_Suc_ex)
  from assms(1) have c: "HostPort a + Range a \<ge> HostPort b" "HostPort a + Range a - 1 > HostPort b"
    "HostPort b - HostPort a \<noteq> ContainerPort b - ContainerPort a"
    by (auto simp: joinTwoPortsToRangePortIfPossible_def Let_def split: if_splits)
  have v: "1 \<le> unat (Range a)" "1 \<le> unat (Range b)" using assms(2,3) by (simp_all add: valid_mapping_def valid_range_def)
  have "unat (HostPort a) + unat (Range a) < 65536" using ar(1) c(1) by blast
  then have s: "unat (HostPort a + Range a) = unat (HostPort a) + unat (Range a)" by (simp add: unat_word_ariths)
  then have "1 \<le> HostPort a + Range a" using v by (simp add: word_le_nat_alt)
  then have "unat (HostPort a + Range a - 1) = unat (HostPort a) + unat (Range a) - 1" using s by (simp add: unat_sub)
  then have lt: "d < unat (Range a)" using c(2) d by (simp add: word_less_nat_alt)
  have "unat (ContainerPort a) + d \<noteq> unat (ContainerPort b)"
  proof
    assume "unat (ContainerPort a) + d = unat (ContainerPort b)"
    then have "(of_nat (unat (ContainerPort b)) :: 16 word) = of_nat (unat (ContainerPort a)) + of_nat d" by (metis of_nat_add)
    moreover have "(of_nat (unat (HostPort b)) :: 16 word) = of_nat (unat (HostPort a)) + of_nat d" by (simp only: d of_nat_add)
    ultimately show False using c(3) by simp
  qed
  then show ?thesis
    using lt v(2) d by (intro exI[of _ "unat (ContainerPort a) + d"] exI[of _ "unat (ContainerPort b)"]) (auto simp: forwards_iff)
qed

lemma joinFixed_loop_error:
  assumes "foldE (joinNext ip pr) ts (st, Some a) = Inl e"
    and "valid_mapping a" "HostIP a = ip" "Protocol a = pr" "\<forall>t \<in> set ts. valid_mapping (mkPort ip pr t)"
    and "\<forall>t \<in> set ts. HostPort a \<le> hostPort t" "sorted_wrt (\<lambda>t u. hostPort t \<le> hostPort u) ts"
    and "forwards a \<subseteq> F" "forwardsAll (map (mkPort ip pr) ts) \<subseteq> F"
  shows "\<exists>h c1 c2. c1 \<noteq> c2 \<and> (ip, pr, h, c1) \<in> F \<and> (ip, pr, h, c2) \<in> F"
  using assms
proof (induction ts arbitrary: st a)
  case (Cons t ts)
  have v: "valid_mapping (mkPort ip pr t)" "HostPort a \<le> HostPort (mkPort ip pr t)" using Cons.prems(5,6) by simp_all
  show ?case
  proof (cases "joinTwoPortsToRangePortIfPossible st (Some a) (mkPort ip pr t)")
    case (Inl e')
    from join_error[OF this Cons.prems(2) v] Cons.prems(3,4,8,9) show ?thesis by (simp add: subset_iff) blast
  next
    case (Inr r)
    then obtain st1 p where j: "joinTwoPortsToRangePortIfPossible st (Some a) (mkPort ip pr t) = Inr (st1, p)"
      by (cases r) simp
    note s = join_step[OF j Cons.prems(2) v, simplified, OF Cons.prems(3,4)[symmetric]]
    have "joinNext ip pr t (st, Some a) = Inr (st1, Some p)" by (simp add: joinNext_eq_Inr j)
    then have rest: "foldE (joinNext ip pr) ts (st1, Some p) = Inl e" using Cons.prems(1) by simp
    have le: "\<forall>u \<in> set ts. HostPort p \<le> hostPort u" using s Cons.prems(7) by fastforce
    have "forwards p \<subseteq> F" using s Cons.prems(3,4,8,9) by auto
    show ?thesis
      by (rule Cons.IH[OF rest]) (use s Cons.prems le \<open>forwards p \<subseteq> F\<close> in simp_all)
  qed
qed simp

lemma joinFixed_error:
  assumes "joinFixed ip pr ts st = Inl e" "\<forall>t \<in> set ts. valid_mapping (mkPort ip pr t)"
    and "sorted_wrt (\<lambda>t u. hostPort t \<le> hostPort u) ts"
  shows "\<exists>h c1 c2. c1 \<noteq> c2 \<and> (ip, pr, h, c1) \<in> forwardsAll (map (mkPort ip pr) ts) \<and>
     (ip, pr, h, c2) \<in> forwardsAll (map (mkPort ip pr) ts)"
proof (cases ts)
  case Nil
  with assms(1) show ?thesis by (simp add: joinFixed_def)
next
  case (Cons t us)
  have "joinNext ip pr t (st, None) = Inr (st, Some (mkPort ip pr t))"
    by (simp add: joinNext_eq_Inr joinTwoPortsToRangePortIfPossible_def)
  with assms(1) Cons have "foldE (joinNext ip pr) us (st, Some (mkPort ip pr t)) = Inl e"
    by (auto simp: joinFixed_def bindE_eq_Inl)
  then show ?thesis
    by (rule joinFixed_loop_error) (use assms(2,3) Cons in simp_all)
qed

section \<open>The loop over the mappings without a host port\<close>

definition reaches :: "PortMapping \<Rightarrow> (string \<times> string \<times> nat) set" where
  "reaches m = (\<lambda>(ip, pr, h, c). (ip, pr, c)) ` forwards m"

definition reachesAll :: "PortMapping list \<Rightarrow> (string \<times> string \<times> nat) set" where
  "reachesAll ms = (\<Union>m \<in> set ms. reaches m)"

lemma reaches_iff:
  "x \<in> reaches m \<longleftrightarrow> (\<exists>i < unat (Range m). x = (HostIP m, Protocol m, unat (ContainerPort m) + i))"
  by (auto simp: reaches_def expandPort_def image_image)

lemma reaches_HostPort [simp]: "reaches (m\<lparr>HostPort := h\<rparr>) = reaches m"
  by (auto simp: reaches_iff)

lemma reachesAll_simps [simp]:
  "reachesAll [] = {}" "reachesAll (m # ms) = reaches m \<union> reachesAll ms"
  "reachesAll (ms @ ns) = reachesAll ms \<union> reachesAll ns"
  by (auto simp: reachesAll_def)

lemma reachesAll_forwards: "reachesAll ms = (\<lambda>(ip, pr, h, c). (ip, pr, c)) ` forwardsAll ms"
  by (simp add: reachesAll_def reaches_def forwardsAll_def image_UN)

text \<open>A random port is free on the whole range, and the range ends before the last port.\<close>

lemma tryRandomPort_free:
  assumes "tryRandomPort rnd hostPorts port n calls = Inr (p, calls')"
  shows "\<exists>r k. rnd k = Inr r \<and> p = port\<lparr>HostPort := of_nat r\<rparr> \<and> r + unat (Range port) \<le> 65535 \<and>
     (\<forall>j < unat (Range port). \<not> hostPorts (of_nat (r + j)))"
  using assms
proof (induction rnd hostPorts port n calls rule: tryRandomPort.induct)
  case (2 rnd hostPorts port n calls)
  from 2(3) obtain r where r: "rnd calls = Inr r" by (auto split: sum.splits)
  consider (again) "tryRandomPort rnd hostPorts port n (calls + 1) = Inr (p, calls')"
      "r + unat (Range port) > 65535 \<or> list_ex (\<lambda>j. hostPorts (of_nat (r + j))) [0..<unat (Range port)]"
    | (ok) "p = port\<lparr>HostPort := of_nat r\<rparr>" "r + unat (Range port) \<le> 65535"
      "\<not> list_ex (\<lambda>j. hostPorts (of_nat (r + j))) [0..<unat (Range port)]"
    using 2(3) r by (auto split: if_splits)
  then show ?case
  proof cases
    case again
    then show ?thesis using 2(1,2)[OF r] by blast
  next
    case ok
    have "\<forall>j < unat (Range port). \<not> hostPorts (of_nat (r + j))"
      using ok(3) by (auto simp: list_ex_iff)
    then show ?thesis using ok(1,2) r by blast
  qed
qed simp

lemma addRandomPort_adds:
  assumes "addRandomPort rnd a st = Inr st'" "\<forall>k r. rnd k = Inr r \<longrightarrow> 1 \<le> r" "valid_range (ContainerPort a) (Range a)"
  shows "\<exists>h. pa_ports st' = pa_ports st @ [a\<lparr>HostPort := h\<rparr>] \<and> valid_mapping (a\<lparr>HostPort := h\<rparr>)"
proof -
  from assms(1) obtain p calls where p: "tryRandomPort rnd (pa_curHost st) a 15 (pa_calls st) = Inr (p, calls)"
    "st' = addPortToUsedPorts p (st\<lparr>pa_calls := calls\<rparr>)"
    by (auto simp: addRandomPort_def getRandomHostPort_def bindE_eq_Inr)
  from tryRandomPort_free[OF p(1)] assms(2) obtain r where
    r: "1 \<le> r" "p = a\<lparr>HostPort := of_nat r\<rparr>" "r + unat (Range a) \<le> 65535" by blast
  have "unat (of_nat r :: 16 word) = r" using r(3) by (subst unat_of_nat) simp
  with r assms(3) have "valid_mapping (a\<lparr>HostPort := of_nat r\<rparr>)" by (simp add: valid_mapping_def valid_range_def)
  with p(2) r(2) show ?thesis by auto
qed

lemma join_free_step:
  assumes "joinTwoContainerPortsToRangePortIfPossible rnd st (Some a) b = Inr (st', p)"
    and "valid_range (ContainerPort a) (Range a)" "valid_range (ContainerPort b) (Range b)"
    and "ContainerPort a \<le> ContainerPort b" "HostIP b = HostIP a" "Protocol b = Protocol a"
    and "\<forall>k r. rnd k = Inr r \<longrightarrow> 1 \<le> r"
  shows "reachesAll (pa_ports st') \<union> reaches p = reachesAll (pa_ports st) \<union> reaches a \<union> reaches b \<and>
     valid_range (ContainerPort p) (Range p) \<and> ContainerPort p \<le> ContainerPort b \<and>
     HostIP p = HostIP a \<and> Protocol p = Protocol a \<and>
     (\<exists>new. pa_ports st' = pa_ports st @ new \<and> list_all valid_mapping new)"
proof (cases "ContainerPort a + Range a > ContainerPort b")
  case True
  let ?r = "ContainerPort b - ContainerPort a + Range b"
  obtain d where d: "unat (ContainerPort b) = unat (ContainerPort a) + d"
    using assms(4) unfolding word_le_nat_alt by (metis le_Suc_ex)
  have v: "unat (ContainerPort a) + unat (Range a) \<le> 65536" "unat (ContainerPort b) + unat (Range b) \<le> 65536"
    "1 \<le> unat (ContainerPort a)"
    using assms(2,3) by (simp_all add: valid_range_def)
  have "unat (ContainerPort a + Range a) = (unat (ContainerPort a) + unat (Range a)) mod 65536"
    by (simp add: unat_word_ariths)
  then have h: "d \<le> unat (Range a)"
    using True v d by (cases "unat (ContainerPort a) + unat (Range a) = 65536") (simp_all add: word_less_nat_alt)
  have "unat (ContainerPort b - ContainerPort a) = d" using assms(4) d by (simp add: unat_sub)
  then have r': "unat ?r = unat (Range b) + d" using v d by (simp add: unat_word_ariths)
  have p: "st' = st" "p = (if ?r > Range a then a\<lparr>Range := ?r\<rparr> else a)"
    using assms(1) True by (auto simp: joinTwoContainerPortsToRangePortIfPossible_def Let_def)
  have r: "unat (Range p) = max (unat (Range a)) (unat (Range b) + d)"
    using r' by (simp add: p(2) word_less_nat_alt)
  have f: "HostIP p = HostIP a" "Protocol p = Protocol a" "HostPort p = HostPort a" "ContainerPort p = ContainerPort a"
    by (simp_all add: p(2))
  have "reaches p = reaches a \<union> reaches b"
    using join_forwards[of "p\<lparr>HostPort := ContainerPort p\<rparr>" "a\<lparr>HostPort := ContainerPort a\<rparr>"
        "b\<lparr>HostPort := ContainerPort b\<rparr>" d] f assms(5,6) d h r
    unfolding reaches_HostPort[where m = p and h = "ContainerPort p", symmetric] reaches_HostPort[where m = a and h = "ContainerPort a", symmetric]
      reaches_HostPort[where m = b and h = "ContainerPort b", symmetric]
    by (simp only: reaches_def image_Un[symmetric]) simp
  moreover have "valid_range (ContainerPort p) (Range p)"
    using assms(2,3) d unfolding valid_range_def f r by linarith
  ultimately show ?thesis using p(1) f assms(4) by auto
next
  case False
  then obtain st1 where s: "addRandomPort rnd a st = Inr st1" "st' = st1" "p = b"
    using assms(1) by (auto simp: joinTwoContainerPortsToRangePortIfPossible_def bindE_eq_Inr)
  from addRandomPort_adds[OF s(1) assms(7,2)] obtain h where
    "pa_ports st1 = pa_ports st @ [a\<lparr>HostPort := h\<rparr>]" "valid_mapping (a\<lparr>HostPort := h\<rparr>)" by blast
  then show ?thesis using s(2,3) assms(3,5,6) by auto
qed

lemma joinFree_loop:
  assumes "foldE (joinNextFree rnd ip pr) ts (st, Some a) = Inr (st', q)"
    and "valid_range (ContainerPort a) (Range a)" "HostIP a = ip" "Protocol a = pr"
    and "\<forall>t \<in> set ts. valid_range (containerPort t) (rangePort t)"
    and "\<forall>t \<in> set ts. ContainerPort a \<le> containerPort t" "sorted_wrt (\<lambda>t u. containerPort t \<le> containerPort u) ts"
    and "\<forall>k r. rnd k = Inr r \<longrightarrow> 1 \<le> r"
  shows "\<exists>p new. q = Some p \<and> valid_range (ContainerPort p) (Range p) \<and>
     reachesAll (pa_ports st') \<union> reaches p = reachesAll (pa_ports st) \<union> reaches a \<union> reachesAll (map (mkPort ip pr) ts) \<and>
     pa_ports st' = pa_ports st @ new \<and> list_all valid_mapping new"
  using assms
proof (induction ts arbitrary: st a)
  case (Cons t ts)
  let ?b = "(mkPort ip pr t)\<lparr>HostPort := 0\<rparr>"
  from Cons.prems(1) obtain st1 p where
    j: "joinTwoContainerPortsToRangePortIfPossible rnd st (Some a) ?b = Inr (st1, p)"
    and rest: "foldE (joinNextFree rnd ip pr) ts (st1, Some p) = Inr (st', q)"
    by (auto simp: bindE_eq_Inr joinNextFree_eq_Inr)
  have "valid_range (ContainerPort ?b) (Range ?b)" "ContainerPort a \<le> ContainerPort ?b" using Cons.prems(5,6) by simp_all
  note s = join_free_step[OF j Cons.prems(2) this _ _ Cons.prems(8), simplified, OF Cons.prems(3,4)[symmetric]]
  from s obtain new where new: "pa_ports st1 = pa_ports st @ new" "list_all valid_mapping new" by blast
  have "\<forall>u \<in> set ts. ContainerPort p \<le> containerPort u" using s Cons.prems(7) by fastforce
  with s Cons.prems have "\<exists>r new. q = Some r \<and> valid_range (ContainerPort r) (Range r) \<and>
     reachesAll (pa_ports st') \<union> reaches r = reachesAll (pa_ports st1) \<union> reaches p \<union> reachesAll (map (mkPort ip pr) ts) \<and>
     pa_ports st' = pa_ports st1 @ new \<and> list_all valid_mapping new"
    by (intro Cons.IH[OF rest]) simp_all
  then obtain r new' where r: "q = Some r" "valid_range (ContainerPort r) (Range r)"
    "reachesAll (pa_ports st') \<union> reaches r = reachesAll (pa_ports st1) \<union> reaches p \<union> reachesAll (map (mkPort ip pr) ts)"
    "pa_ports st' = pa_ports st1 @ new'" "list_all valid_mapping new'" by blast
  have "reachesAll (pa_ports st') \<union> reaches r =
      reachesAll (pa_ports st) \<union> reaches a \<union> reachesAll (map (mkPort ip pr) (t # ts))"
    unfolding r(3) s[THEN conjunct1] by (simp add: Un_assoc Cons.prems(3,4))
  moreover have "pa_ports st' = pa_ports st @ (new @ new')" "list_all valid_mapping (new @ new')"
    using r(4,5) new by simp_all
  ultimately show ?case using r(1,2) by blast
qed auto

lemma joinFree_reaches:
  assumes "joinFree rnd ip pr ts st = Inr st'" "\<forall>t \<in> set ts. valid_range (containerPort t) (rangePort t)"
    and "sorted_wrt (\<lambda>t u. containerPort t \<le> containerPort u) ts" "\<forall>k r. rnd k = Inr r \<longrightarrow> 1 \<le> r"
  shows "\<exists>new. pa_ports st' = pa_ports st @ new \<and> list_all valid_mapping new \<and> (ts = [] \<longrightarrow> new = []) \<and>
     reachesAll (pa_ports st') = reachesAll (pa_ports st) \<union> reachesAll (map (mkPort ip pr) ts)"
proof (cases ts)
  case Nil
  with assms(1) show ?thesis by (simp add: joinFree_def)
next
  case (Cons t us)
  let ?a = "(mkPort ip pr t)\<lparr>HostPort := 0\<rparr>"
  from assms(1) Cons obtain st1 q where l: "foldE (joinNextFree rnd ip pr) us (st, Some ?a) = Inr (st1, q)"
    and st': "(case q of None \<Rightarrow> Inr st1 | Some p \<Rightarrow> addRandomPort rnd p st1) = Inr st'"
    by (auto simp: joinFree_def bindE_eq_Inr joinTwoContainerPortsToRangePortIfPossible_def joinNextFree_eq_Inr)
  have "\<exists>p new. q = Some p \<and> valid_range (ContainerPort p) (Range p) \<and>
     reachesAll (pa_ports st1) \<union> reaches p = reachesAll (pa_ports st) \<union> reaches ?a \<union> reachesAll (map (mkPort ip pr) us) \<and>
     pa_ports st1 = pa_ports st @ new \<and> list_all valid_mapping new"
    by (rule joinFree_loop[OF l]) (use assms(2-4) Cons in simp_all)
  then obtain p new where p: "q = Some p" "valid_range (ContainerPort p) (Range p)"
    "reachesAll (pa_ports st1) \<union> reaches p = reachesAll (pa_ports st) \<union> reachesAll (map (mkPort ip pr) ts)"
    "pa_ports st1 = pa_ports st @ new" "list_all valid_mapping new"
    by (auto simp: Cons Un_assoc)
  from st' p(1) have "addRandomPort rnd p st1 = Inr st'" by simp
  from addRandomPort_adds[OF this assms(4) p(2)] obtain h where
    h: "pa_ports st' = pa_ports st1 @ [p\<lparr>HostPort := h\<rparr>]" "valid_mapping (p\<lparr>HostPort := h\<rparr>)" by blast
  have "reachesAll (pa_ports st') = reachesAll (pa_ports st1) \<union> reaches p" by (simp add: h(1))
  then show ?thesis using p(3-5) h Cons by (intro exI[of _ "new @ [p\<lparr>HostPort := h\<rparr>]"]) simp
qed

section \<open>Sorting\<close>

lemma mset_sortTemps [simp]: "mset (sortTemps ts) = mset ts"
proof -
  have ins: "mset (insertTemp t us) = add_mset t (mset us)" for t us by (induction us) auto
  show ?thesis by (induction ts) (auto simp: sortTemps_def ins)
qed

lemma set_sortTemps [simp]: "set (sortTemps ts) = set ts"
  using mset_eq_setD[OF mset_sortTemps] .

text \<open>The sort key in plain order: host port 0 comes after all others.\<close>

definition portKey :: "tempMapping \<Rightarrow> nat" where
  "portKey t = (if hostPort t = 0 then 65536 else unat (hostPort t)) * 65536 + unat (containerPort t)"

lemma unat_port: "unat (p :: 16 word) < 65536"
proof -
  have "unat p < 2 ^ 16" using unsigned_less[of p] by simp
  then show ?thesis by simp
qed

lemma portLess_key: "portLess i j \<longleftrightarrow> portKey i < portKey j"
proof -
  have b: "unat (containerPort i) < 65536" "unat (containerPort j) < 65536" "unat (hostPort i) < 65536" "unat (hostPort j) < 65536"
    by (rule unat_port)+
  show ?thesis
  proof (cases "hostPort i = hostPort j")
    case True
    then show ?thesis by (simp add: portLess_def portKey_def word_less_nat_alt)
  next
    case False
    then have "unat (hostPort i) \<noteq> unat (hostPort j)" by (simp add: word_unat_eq_iff)
    with False b show ?thesis
      unfolding portLess_def portKey_def word_less_nat_alt unat_eq_0[symmetric] by (simp; linarith)
  qed
qed

lemma sortTemps_sorted: "sorted (map portKey (sortTemps ts))"
proof -
  have ins: "sorted (map portKey us) \<Longrightarrow> sorted (map portKey (insertTemp t us))" for t us
  proof (induction us)
    case (Cons u us)
    have "mset (insertTemp t us) = add_mset t (mset us)" by (induction us) auto
    then have "set (insertTemp t us) = insert t (set us)" by (metis set_mset_add_mset_insert set_mset_mset)
    with Cons show ?case by (auto simp: portLess_key)
  qed simp
  show ?thesis by (induction ts) (auto simp: sortTemps_def ins)
qed

lemma sorted_fixed:
  assumes "sorted (map portKey ts)"
  shows "sorted_wrt (\<lambda>t u. hostPort t \<le> hostPort u) (takeWhile (\<lambda>t. hostPort t \<noteq> 0) ts)"
proof -
  have h: "hostPort t \<le> hostPort u" if "portKey t \<le> portKey u" "hostPort t \<noteq> 0" "hostPort u \<noteq> 0" for t u
    using that unat_port[of "containerPort t"] unat_port[of "containerPort u"]
    by (simp add: portKey_def word_le_nat_alt)
  have s: "sorted_wrt (\<lambda>t u. portKey t \<le> portKey u) (takeWhile (\<lambda>t. hostPort t \<noteq> 0) ts)"
    using assms unfolding sorted_map by (metis sorted_wrt_append takeWhile_dropWhile_id)
  show ?thesis
    by (rule sorted_wrt_mono_rel[OF _ s]) (use h in \<open>auto dest: set_takeWhileD\<close>)
qed

lemma sorted_free:
  assumes "sorted (map portKey ts)"
  shows "\<forall>t \<in> set (dropWhile (\<lambda>t. hostPort t \<noteq> 0) ts). hostPort t = 0"
    and "sorted_wrt (\<lambda>t u. containerPort t \<le> containerPort u) (dropWhile (\<lambda>t. hostPort t \<noteq> 0) ts)"
proof -
  let ?d = "dropWhile (\<lambda>t. hostPort t \<noteq> 0) ts"
  have s: "sorted_wrt (\<lambda>t u. portKey t \<le> portKey u) ?d"
    using assms unfolding sorted_map by (metis sorted_wrt_append takeWhile_dropWhile_id)
  show z: "\<forall>t \<in> set ?d. hostPort t = 0"
  proof (cases ?d)
    case (Cons u us)
    then have u: "hostPort u = 0" using dropWhile_eq_Cons_conv[of "\<lambda>t. hostPort t \<noteq> 0" ts u us] by simp
    have "hostPort t = 0" if "t \<in> set us" for t
    proof (rule ccontr)
      assume "hostPort t \<noteq> 0"
      moreover have "portKey u \<le> portKey t" using s that unfolding Cons by simp
      ultimately show False
        using u unat_port[of "containerPort t"] unat_port[of "hostPort t"] by (simp add: portKey_def)
    qed
    with u show ?thesis unfolding Cons by simp
  next
    case Nil
    show ?thesis unfolding Nil by simp
  qed
  show "sorted_wrt (\<lambda>t u. containerPort t \<le> containerPort u) ?d"
  proof (rule sorted_wrt_mono_rel[OF _ s])
    fix t u assume tu: "t \<in> set ?d" "u \<in> set ?d" "portKey t \<le> portKey u"
    have "hostPort t = 0" "hostPort u = 0" using z tu(1,2) by blast+
    with tu(3) show "containerPort t \<le> containerPort u" by (simp add: portKey_def word_le_nat_alt)
  qed
qed

section \<open>All mappings of an address and protocol\<close>

definition validTemp :: "tempMapping \<Rightarrow> bool" where
  "validTemp t \<longleftrightarrow> valid_range (containerPort t) (rangePort t) \<and> (hostPort t = 0 \<or> valid_range (hostPort t) (rangePort t))"

lemma forwardsAll_set: "set ms = set ns \<Longrightarrow> forwardsAll ms = forwardsAll ns"
  by (simp add: forwardsAll_def)

lemma reachesAll_set: "set ms = set ns \<Longrightarrow> reachesAll ms = reachesAll ns"
  by (simp add: reachesAll_def)

lemma mapProtocol_spec:
  assumes "mapProtocol rnd pm ip pr st = Inr st'" "\<forall>t \<in> set (pm ip pr). validTemp t" "\<forall>k r. rnd k = Inr r \<longrightarrow> 1 \<le> r"
  shows "(\<forall>t \<in> set (pm ip pr). hostPort t \<noteq> 0) \<longrightarrow>
       forwardsAll (pst_ports st') = forwardsAll (pst_ports st) \<union> forwardsAll (map (mkPort ip pr) (pm ip pr))"
    and "reachesAll (pst_ports st') = reachesAll (pst_ports st) \<union> reachesAll (map (mkPort ip pr) (pm ip pr))"
    and "list_all valid_mapping (pst_ports st) \<longrightarrow> list_all valid_mapping (pst_ports st')"
proof -
  let ?ts = "sortTemps (pm ip pr)"
  let ?x = "takeWhile (\<lambda>t. hostPort t \<noteq> 0) ?ts" and ?y = "dropWhile (\<lambda>t. hostPort t \<noteq> 0) ?ts"
  have "((\<forall>t \<in> set (pm ip pr). hostPort t \<noteq> 0) \<longrightarrow>
       forwardsAll (pst_ports st') = forwardsAll (pst_ports st) \<union> forwardsAll (map (mkPort ip pr) (pm ip pr))) \<and>
    reachesAll (pst_ports st') = reachesAll (pst_ports st) \<union> reachesAll (map (mkPort ip pr) (pm ip pr)) \<and>
    (list_all valid_mapping (pst_ports st) \<longrightarrow> list_all valid_mapping (pst_ports st'))"
  proof (cases "pm ip pr = []")
    case True
    with assms(1) show ?thesis by (simp add: mapProtocol_def)
  next
    case False
    define acc where "acc = \<lparr>pa_ports = pst_ports st, pa_allHost = pst_host st pr, pa_allCtr = pst_ctr st pr,
      pa_curHost = (\<lambda>_. False), pa_calls = pst_calls st\<rparr>"
    from False assms(1) obtain acc1 acc2 where
      a: "pa_ports acc = pst_ports st" "joinFixed ip pr ?x acc = Inr acc1" "joinFree rnd ip pr ?y acc1 = Inr acc2"
        "pst_ports st' = pa_ports acc2"
      by (auto simp: mapProtocol_def Let_def bindE_eq_Inr acc_def)
    note so = sortTemps_sorted[of "pm ip pr"]
    have x: "\<forall>t \<in> set ?x. valid_mapping (mkPort ip pr t)"
      using assms(2) set_takeWhileD[of _ "\<lambda>t. hostPort t \<noteq> 0" ?ts] by (auto simp: validTemp_def valid_mapping_def)
    have y: "\<forall>t \<in> set ?y. valid_range (containerPort t) (rangePort t)"
      using assms(2) set_dropWhileD[of _ "\<lambda>t. hostPort t \<noteq> 0" ?ts] by (auto simp: validTemp_def)
    note f = joinFixed_forwards[OF a(2) x sorted_fixed[OF so]]
    obtain new where new: "pa_ports acc2 = pa_ports acc1 @ new" "list_all valid_mapping new" "?y = [] \<longrightarrow> new = []"
      "reachesAll (pa_ports acc2) = reachesAll (pa_ports acc1) \<union> reachesAll (map (mkPort ip pr) ?y)"
      using joinFree_reaches[OF a(3) y sorted_free(2)[OF so] assms(3)] by blast
    have xy: "set ?x \<union> set ?y = set (pm ip pr)" by (metis set_append set_sortTemps takeWhile_dropWhile_id)
    have "reachesAll (map (mkPort ip pr) ?x) \<union> reachesAll (map (mkPort ip pr) ?y) = reachesAll (map (mkPort ip pr) (pm ip pr))"
      unfolding reachesAll_def set_map xy[symmetric] image_Un by (rule Union_Un_distrib[symmetric])
    moreover have "reachesAll (pa_ports acc1) = reachesAll (pst_ports st) \<union> reachesAll (map (mkPort ip pr) ?x)"
      using f(1) a(1) by (simp add: reachesAll_forwards image_Un)
    ultimately have r: "reachesAll (pst_ports st') = reachesAll (pst_ports st) \<union> reachesAll (map (mkPort ip pr) (pm ip pr))"
      unfolding a(4) new(4) by blast
    have "list_all valid_mapping (pst_ports st')" if "list_all valid_mapping (pst_ports st)"
      using that f(2) new(1,2) a(1,4) by (auto simp: list_all_iff)
    moreover have "forwardsAll (pst_ports st') = forwardsAll (pst_ports st) \<union> forwardsAll (map (mkPort ip pr) (pm ip pr))"
      if "\<forall>t \<in> set (pm ip pr). hostPort t \<noteq> 0"
    proof -
      have y: "?y = []" using that xy by (auto simp: dropWhile_eq_Nil_conv)
      have "set ?x = set (pm ip pr)" using xy unfolding y by simp
      then have "forwardsAll (map (mkPort ip pr) ?x) = forwardsAll (map (mkPort ip pr) (pm ip pr))"
        by (intro forwardsAll_set) (simp only: set_map)
      moreover have "pst_ports st' = pa_ports acc1" using new(1,3) y a(4) by (simp only: append_Nil2 simp_thms)
      ultimately show ?thesis using f(1) a(1) by (simp only:)
    qed
    ultimately show ?thesis using r by blast
  qed
  then show "(\<forall>t \<in> set (pm ip pr). hostPort t \<noteq> 0) \<longrightarrow>
       forwardsAll (pst_ports st') = forwardsAll (pst_ports st) \<union> forwardsAll (map (mkPort ip pr) (pm ip pr))"
    "reachesAll (pst_ports st') = reachesAll (pst_ports st) \<union> reachesAll (map (mkPort ip pr) (pm ip pr))"
    "list_all valid_mapping (pst_ports st) \<longrightarrow> list_all valid_mapping (pst_ports st')"
    by blast+
qed

section \<open>The whole translation\<close>

definition protocolsOf :: "PortMapping \<Rightarrow> string set" where
  "protocolsOf m = (case checkProtocol (Protocol m) True of Inl _ \<Rightarrow> {} | Inr ps \<Rightarrow> set ps)"

definition tempOf :: "PortMapping \<Rightarrow> tempMapping" where
  "tempOf m = \<lparr>hostPort = HostPort m, containerPort = ContainerPort m, rangePort = (if Range m = 0 then 1 else Range m)\<rparr>"

text \<open>What the mappings of a specification ask for.\<close>

definition requested :: "PortMapping list \<Rightarrow> (string \<times> string \<times> nat \<times> nat) set" where
  "requested ms = (\<Union>m \<in> set ms. \<Union>pr \<in> protocolsOf m. forwards (mkPort (HostIP m) pr (tempOf m)))"

lemma validatePort_Inr:
  assumes "validatePort m pm = Inr pm'"
  shows "pm' ip pr = pm ip pr @ (if HostIP m = ip \<and> pr \<in> protocolsOf m then [tempOf m] else [])"
    and "validTemp (tempOf m)"
proof -
  define r where "r = (if Range m = 0 then 1 else Range m)"
  from assms obtain ps where ps: "checkProtocol (Protocol m) True = Inr ps" and c: "ContainerPort m \<noteq> 0"
    "unat (r - 1) + unat (ContainerPort m) \<le> 65535" "unat (r - 1) + unat (HostPort m) \<le> 65535"
    and pm': "pm' = pm(HostIP m := (\<lambda>proto. pm (HostIP m) proto @ (if proto \<in> set ps then [tempOf m] else [])))"
    unfolding validatePort_def Let_def r_def[symmetric] tempOf_def by (auto simp: bindE_eq_Inr split: if_splits)
  show "pm' ip pr = pm ip pr @ (if HostIP m = ip \<and> pr \<in> protocolsOf m then [tempOf m] else [])"
    using ps by (auto simp: pm' protocolsOf_def)
  have "1 \<le> unat r" by (simp add: r_def Suc_le_eq unat_gt_0)
  moreover from this have "unat (r - 1) = unat r - 1" by (simp add: unat_sub word_le_nat_alt)
  moreover have "1 \<le> unat (ContainerPort m)" using c(1) by (simp add: Suc_le_eq unat_gt_0)
  moreover have "HostPort m = 0 \<or> 1 \<le> unat (HostPort m)" by (simp add: Suc_le_eq unat_gt_0)
  ultimately show "validTemp (tempOf m)"
    using c(2,3) by (auto simp: validTemp_def tempOf_def valid_range_def r_def)
qed

lemma validatePorts:
  assumes "foldE validatePort ms pm = Inr pm'"
  shows "pm' ip pr = pm ip pr @ map tempOf (filter (\<lambda>m. HostIP m = ip \<and> pr \<in> protocolsOf m) ms)"
    and "\<forall>m \<in> set ms. validTemp (tempOf m)"
proof -
  have "(\<forall>ip pr. pm' ip pr = pm ip pr @ map tempOf (filter (\<lambda>m. HostIP m = ip \<and> pr \<in> protocolsOf m) ms)) \<and>
    (\<forall>m \<in> set ms. validTemp (tempOf m))"
    using assms
  proof (induction ms arbitrary: pm)
    case (Cons m ms)
    then obtain pm1 where pm1: "validatePort m pm = Inr pm1" "foldE validatePort ms pm1 = Inr pm'"
      by (auto simp: bindE_eq_Inr)
    with Cons.IH[OF pm1(2)] validatePort_Inr[OF pm1(1)] show ?case by simp
  qed simp
  then show "pm' ip pr = pm ip pr @ map tempOf (filter (\<lambda>m. HostIP m = ip \<and> pr \<in> protocolsOf m) ms)"
    "\<forall>m \<in> set ms. validTemp (tempOf m)" by blast+
qed

definition start_state :: PortState where
  "start_state = \<lparr>pst_ports = [], pst_host = (\<lambda>_ _. False), pst_ctr = (\<lambda>_ _. False), pst_calls = 0\<rparr>"

lemma mapProtocols_loop:
  assumes "foldE (\<lambda>(ip, prs). foldE (mapProtocol rnd pm ip) prs) order st = Inr st'"
    and "\<forall>ip pr. \<forall>t \<in> set (pm ip pr). validTemp t" "\<forall>k r. rnd k = Inr r \<longrightarrow> 1 \<le> r"
  shows "(\<forall>ip pr. \<forall>t \<in> set (pm ip pr). hostPort t \<noteq> 0) \<longrightarrow> forwardsAll (pst_ports st') =
       forwardsAll (pst_ports st) \<union> (\<Union>(ip, prs) \<in> set order. \<Union>pr \<in> set prs. forwardsAll (map (mkPort ip pr) (pm ip pr)))"
    and "reachesAll (pst_ports st') =
       reachesAll (pst_ports st) \<union> (\<Union>(ip, prs) \<in> set order. \<Union>pr \<in> set prs. reachesAll (map (mkPort ip pr) (pm ip pr)))"
    and "list_all valid_mapping (pst_ports st) \<longrightarrow> list_all valid_mapping (pst_ports st')"
proof -
  have inner: "((\<forall>ip pr. \<forall>t \<in> set (pm ip pr). hostPort t \<noteq> 0) \<longrightarrow> forwardsAll (pst_ports b) =
        forwardsAll (pst_ports a) \<union> (\<Union>pr \<in> set prs. forwardsAll (map (mkPort ip pr) (pm ip pr)))) \<and>
      reachesAll (pst_ports b) = reachesAll (pst_ports a) \<union> (\<Union>pr \<in> set prs. reachesAll (map (mkPort ip pr) (pm ip pr))) \<and>
      (list_all valid_mapping (pst_ports a) \<longrightarrow> list_all valid_mapping (pst_ports b))"
    if "foldE (mapProtocol rnd pm ip) prs a = Inr b" for ip prs a b
    using that
  proof (induction prs arbitrary: a)
    case (Cons pr prs)
    then obtain c where c: "mapProtocol rnd pm ip pr a = Inr c" "foldE (mapProtocol rnd pm ip) prs c = Inr b"
      by (auto simp: bindE_eq_Inr)
    have "\<forall>t \<in> set (pm ip pr). validTemp t" using assms(2) by blast
    note m = mapProtocol_spec[OF c(1) this assms(3)]
    show ?case using Cons.IH[OF c(2)] m by (simp add: Un_assoc)
  qed simp
  have "((\<forall>ip pr. \<forall>t \<in> set (pm ip pr). hostPort t \<noteq> 0) \<longrightarrow> forwardsAll (pst_ports st') =
       forwardsAll (pst_ports st) \<union> (\<Union>(ip, prs) \<in> set order. \<Union>pr \<in> set prs. forwardsAll (map (mkPort ip pr) (pm ip pr)))) \<and>
     reachesAll (pst_ports st') =
       reachesAll (pst_ports st) \<union> (\<Union>(ip, prs) \<in> set order. \<Union>pr \<in> set prs. reachesAll (map (mkPort ip pr) (pm ip pr))) \<and>
     (list_all valid_mapping (pst_ports st) \<longrightarrow> list_all valid_mapping (pst_ports st'))"
    using assms(1)
  proof (induction order arbitrary: st)
    case (Cons x order)
    obtain ip prs where x: "x = (ip, prs)" by (cases x)
    with Cons.prems obtain c where c: "foldE (mapProtocol rnd pm ip) prs st = Inr c"
      "foldE (\<lambda>(ip, prs). foldE (mapProtocol rnd pm ip) prs) order c = Inr st'"
      by (auto simp: bindE_eq_Inr)
    show ?case using Cons.IH[OF c(2)] inner[OF c(1)] by (simp add: x Un_assoc)
  qed simp
  then show "(\<forall>ip pr. \<forall>t \<in> set (pm ip pr). hostPort t \<noteq> 0) \<longrightarrow> forwardsAll (pst_ports st') =
       forwardsAll (pst_ports st) \<union> (\<Union>(ip, prs) \<in> set order. \<Union>pr \<in> set prs. forwardsAll (map (mkPort ip pr) (pm ip pr)))"
    "reachesAll (pst_ports st') =
       reachesAll (pst_ports st) \<union> (\<Union>(ip, prs) \<in> set order. \<Union>pr \<in> set prs. reachesAll (map (mkPort ip pr) (pm ip pr)))"
    "list_all valid_mapping (pst_ports st) \<longrightarrow> list_all valid_mapping (pst_ports st')"
    by blast+
qed

text \<open>The iteration visits every address with every protocol.\<close>

definition covers :: "(string \<times> string list) list \<Rightarrow> PortMapping list \<Rightarrow> bool" where
  "covers order ms \<longleftrightarrow>
     (\<forall>m \<in> set ms. \<forall>pr \<in> protocolsOf m. \<exists>(ip, prs) \<in> set order. ip = HostIP m \<and> pr \<in> set prs)"

lemma regroup:
  assumes "covers order ms"
    and "\<And>ip pr. pm ip pr = map tempOf (filter (\<lambda>m. HostIP m = ip \<and> pr \<in> protocolsOf m) ms)"
  shows "(\<Union>(ip, prs) \<in> set order. \<Union>pr \<in> set prs. forwardsAll (map (mkPort ip pr) (pm ip pr))) = requested ms"
proof (intro set_eqI iffI)
  fix x assume "x \<in> (\<Union>(ip, prs) \<in> set order. \<Union>pr \<in> set prs. forwardsAll (map (mkPort ip pr) (pm ip pr)))"
  then obtain ip pr m where "m \<in> set ms" "HostIP m = ip" "pr \<in> protocolsOf m" "x \<in> forwards (mkPort ip pr (tempOf m))"
    by (auto simp: assms(2) forwardsAll_def)
  then show "x \<in> requested ms" unfolding requested_def by blast
next
  fix x assume "x \<in> requested ms"
  then obtain m pr where m: "m \<in> set ms" "pr \<in> protocolsOf m" "x \<in> forwards (mkPort (HostIP m) pr (tempOf m))"
    unfolding requested_def by blast
  with assms(1) obtain prs where o: "(HostIP m, prs) \<in> set order" "pr \<in> set prs" unfolding covers_def by fastforce
  have "x \<in> forwardsAll (map (mkPort (HostIP m) pr) (pm (HostIP m) pr))"
    using m by (auto simp: assms(2) forwardsAll_def)
  with o show "x \<in> (\<Union>(ip, prs) \<in> set order. \<Union>pr \<in> set prs. forwardsAll (map (mkPort ip pr) (pm ip pr)))" by blast
qed

end
