(* ===== verification/PortProps.thy ===== *)
theory PortProps
  imports PortMap
begin

text \<open>
  The properties of the port mappings: what is published is what was asked for, errors are real
  conflicts, and the cases in which one host port is given away twice.
\<close>

section \<open>Nothing is lost, nothing is added\<close>

lemma ParsePortMapping_Inr:
  assumes "ParsePortMapping rnd order [] ms Map.empty = Inr (res, ex)"
  obtains pm st where "foldE validatePort ms (\<lambda>_ _. []) = Inr pm"
    "foldE (\<lambda>(ip, prs). foldE (mapProtocol rnd pm ip) prs) order start_state = Inr st" "res = pst_ports st"
  using assms by (auto simp: ParsePortMapping_def bindE_eq_Inr start_state_def[symmetric])

lemma start_ports [simp]: "pst_ports start_state = []"
  by (simp add: start_state_def)

text \<open>
  C17. When every mapping names a host port, the mappings that \<open>ParsePortMapping\<close> returns forward
  exactly the ports that were requested: validation, grouping, sorting and joining into ranges lose
  nothing and add nothing, also at the upper end of the 16-bit ports.
\<close>

theorem ParsePortMapping_forwards:
  assumes "ParsePortMapping rnd order [] ms Map.empty = Inr (res, ex)" "covers order ms"
    and "\<forall>m \<in> set ms. HostPort m \<noteq> 0" "\<forall>k r. rnd k = Inr r \<longrightarrow> 1 \<le> r"
  shows "forwardsAll res = requested ms"
proof -
  obtain pm st where f: "foldE validatePort ms (\<lambda>_ _. []) = Inr pm"
    "foldE (\<lambda>(ip, prs). foldE (mapProtocol rnd pm ip) prs) order start_state = Inr st" "res = pst_ports st"
    using ParsePortMapping_Inr[OF assms(1)] .
  note v = validatePorts[OF f(1), simplified]
  have "\<forall>ip pr. \<forall>t \<in> set (pm ip pr). validTemp t" "\<forall>ip pr. \<forall>t \<in> set (pm ip pr). hostPort t \<noteq> 0"
    using v(2) assms(3) by (auto simp: v(1)) (simp add: tempOf_def)
  then have "forwardsAll res = (\<Union>(ip, prs) \<in> set order. \<Union>pr \<in> set prs. forwardsAll (map (mkPort ip pr) (pm ip pr)))"
    using mapProtocols_loop(1)[OF f(2) _ assms(4)] by (simp add: f(3))
  also have "\<dots> = requested ms" by (rule regroup[OF assms(2) v(1)])
  finally show ?thesis .
qed

text \<open>Two adjacent mappings, to be joined.\<close>

definition port80 :: PortMapping where
  "port80 = \<lparr>HostIP = [], ContainerPort = 80, HostPort = 8080, Range = 0, Protocol = ''tcp''\<rparr>"

definition port81 :: PortMapping where
  "port81 = \<lparr>HostIP = [], ContainerPort = 81, HostPort = 8081, Range = 1, Protocol = ''TCP''\<rparr>"

lemma port_protocols [simp]: "checkProtocol ''tcp'' True = Inr [''tcp'']" "checkProtocol ''TCP'' True = Inr [''tcp'']"
  by code_simp+

lemma port_run:
  "ParsePortMapping (\<lambda>_. Inl RandomPortError) [([], [''tcp''])] [] [port81, port80] Map.empty =
     Inr ([port80\<lparr>Range := 2\<rparr>], Map.empty)"
  by (simp add: ParsePortMapping_def port80_def port81_def validatePort_def Let_def mapProtocol_def sortTemps_def
      portLess_def joinFixed_def joinFree_def joinNext_def joinTwoPortsToRangePortIfPossible_def mkPort_def
      addPortToUsedPorts_def)

theorem ParsePortMapping_forwards_witness: "forwardsAll [port80\<lparr>Range := 2\<rparr>] = requested [port81, port80]"
proof -
  have "covers [([], [''tcp''])] [port81, port80]"
    by (simp add: covers_def protocolsOf_def port80_def port81_def)
  then show ?thesis
    using ParsePortMapping_forwards[OF port_run] by (simp add: port80_def port81_def)
qed

text \<open>
  C18. Every mapping that is returned is a valid range of host and container ports from 1 to
  65535, and exactly the requested container ports can be reached, whichever random host ports
  the system hands out.
\<close>

theorem ParsePortMapping_valid:
  assumes "ParsePortMapping rnd order [] ms Map.empty = Inr (res, ex)" "covers order ms"
    and "\<forall>k r. rnd k = Inr r \<longrightarrow> 1 \<le> r"
  shows "list_all valid_mapping res \<and> reachesAll res = (\<lambda>(ip, pr, h, c). (ip, pr, c)) ` requested ms"
proof -
  obtain pm st where f: "foldE validatePort ms (\<lambda>_ _. []) = Inr pm"
    "foldE (\<lambda>(ip, prs). foldE (mapProtocol rnd pm ip) prs) order start_state = Inr st" "res = pst_ports st"
    using ParsePortMapping_Inr[OF assms(1)] .
  note v = validatePorts[OF f(1), simplified]
  have vt: "\<forall>ip pr. \<forall>t \<in> set (pm ip pr). validTemp t" using v(2) by (auto simp: v(1))
  have "reachesAll res = (\<Union>(ip, prs) \<in> set order. \<Union>pr \<in> set prs. reachesAll (map (mkPort ip pr) (pm ip pr)))"
    using mapProtocols_loop(2)[OF f(2) vt assms(3)] by (simp add: f(3))
  also have "\<dots> = (\<lambda>(ip, pr, h, c). (ip, pr, c)) ` requested ms"
    unfolding regroup[OF assms(2) v(1), symmetric] reachesAll_forwards image_UN by (simp add: case_prod_beta image_UN)
  finally show ?thesis using mapProtocols_loop(3)[OF f(2) vt assms(3)] by (simp add: f(3))
qed

theorem ParsePortMapping_valid_witness: "list_all valid_mapping [port80\<lparr>Range := 2\<rparr>]"
proof -
  have "covers [([], [''tcp''])] [port81, port80]"
    by (simp add: covers_def protocolsOf_def port80_def port81_def)
  from ParsePortMapping_valid[OF port_run this] show ?thesis by simp
qed

section \<open>Conflicts\<close>

lemma mapProtocol_error:
  assumes "mapProtocol rnd pm ip pr st = Inl (ConflictingPorts h p)" "\<forall>k e. rnd k = Inl e \<longrightarrow> e = RandomPortError"
    and "\<forall>t \<in> set (pm ip pr). validTemp t"
  shows "\<exists>h c1 c2. c1 \<noteq> c2 \<and> (ip, pr, h, c1) \<in> forwardsAll (map (mkPort ip pr) (pm ip pr)) \<and>
     (ip, pr, h, c2) \<in> forwardsAll (map (mkPort ip pr) (pm ip pr))"
proof -
  let ?x = "takeWhile (\<lambda>t. hostPort t \<noteq> 0) (sortTemps (pm ip pr))"
  have rand: "tryRandomPort rnd hp port n calls \<noteq> Inl (ConflictingPorts h p)" for hp port n calls
    using assms(2) by (induction n arbitrary: calls) (auto split: sum.split)
  then have add: "addRandomPort rnd port acc \<noteq> Inl (ConflictingPorts h p)" for port acc
    by (auto simp: addRandomPort_def getRandomHostPort_def bindE_eq_Inl)
  have free: "joinFree rnd ip pr ts acc \<noteq> Inl (ConflictingPorts h p)" for ts acc
  proof
    assume "joinFree rnd ip pr ts acc = Inl (ConflictingPorts h p)"
    then have "foldE (joinNextFree rnd ip pr) ts (acc, None) = Inl (ConflictingPorts h p)"
      using add by (auto simp: joinFree_def bindE_eq_Inl split: option.splits)
    from foldE_error[OF this] show False
      using add by (auto simp: joinNextFree_def joinTwoContainerPortsToRangePortIfPossible_def bindE_eq_Inl Let_def
          split: option.splits if_splits)
  qed
  from assms(1) free obtain acc e where e: "joinFixed ip pr ?x acc = Inl e"
    by (auto simp: mapProtocol_def Let_def bindE_eq_Inl split: if_splits)
  have x: "\<forall>t \<in> set ?x. valid_mapping (mkPort ip pr t)"
    using assms(3) by (auto simp: validTemp_def valid_mapping_def dest!: set_takeWhileD)
  have sub: "forwardsAll (map (mkPort ip pr) ?x) \<subseteq> forwardsAll (map (mkPort ip pr) (pm ip pr))"
    by (auto simp: forwardsAll_def dest!: set_takeWhileD)
  obtain h c1 c2 where c: "c1 \<noteq> c2" "(ip, pr, h, c1) \<in> forwardsAll (map (mkPort ip pr) ?x)"
    "(ip, pr, h, c2) \<in> forwardsAll (map (mkPort ip pr) ?x)"
    using joinFixed_error[OF e x sorted_fixed[OF sortTemps_sorted]] by (elim exE conjE)
  show ?thesis
    using c(1) subsetD[OF sub c(2)] subsetD[OF sub c(3)] by (intro exI conjI)
qed

text \<open>
  C19. The error for conflicting mappings is only given for a conflict: some host port of one
  address and protocol is requested for two different container ports.
\<close>

theorem conflict_is_real:
  assumes "ParsePortMapping rnd order [] ms Map.empty = Inl (ConflictingPorts h p)"
    and "covers order ms" "\<forall>k e. rnd k = Inl e \<longrightarrow> e = RandomPortError"
  shows "\<exists>ip pr h c1 c2. c1 \<noteq> c2 \<and> (ip, pr, h, c1) \<in> requested ms \<and> (ip, pr, h, c2) \<in> requested ms"
proof -
  have "validatePort m pm \<noteq> Inl (ConflictingPorts h p)" for m pm
  proof
    assume "validatePort m pm = Inl (ConflictingPorts h p)"
    then have "checkProtocol (Protocol m) True = Inl (ConflictingPorts h p)"
      by (auto simp: validatePort_def bindE_eq_Inl Let_def split: if_splits)
    then show False
      by (auto simp: checkProtocol_def Let_def bindE_eq_Inl guardE_def dest!: foldE_error split: if_splits)
  qed
  then have "foldE validatePort ms (\<lambda>_ _. []) \<noteq> Inl (ConflictingPorts h p)" using foldE_error by metis
  with assms(1) obtain pm where pm: "foldE validatePort ms (\<lambda>_ _. []) = Inr pm"
    "foldE (\<lambda>(ip, prs). foldE (mapProtocol rnd pm ip) prs) order start_state = Inl (ConflictingPorts h p)"
    by (auto simp: ParsePortMapping_def bindE_eq_Inl start_state_def[symmetric])
  from foldE_error[OF pm(2)] obtain ip prs pr st where
    o: "(ip, prs) \<in> set order" "pr \<in> set prs" "mapProtocol rnd pm ip pr st = Inl (ConflictingPorts h p)"
    using foldE_error by (metis (no_types, lifting) case_prod_conv old.prod.exhaust)
  note v = validatePorts[OF pm(1), simplified]
  have "\<forall>t \<in> set (pm ip pr). validTemp t" using v(2) by (auto simp: v(1))
  from mapProtocol_error[OF o(3) assms(3) this] o(1,2) show ?thesis
    unfolding regroup[OF assms(2) v(1), symmetric] by blast
qed

lemmas port_run_defs = ParsePortMapping_def validatePort_def Let_def mapProtocol_def sortTemps_def
  portLess_def joinFixed_def joinFree_def joinNext_def joinTwoPortsToRangePortIfPossible_def mkPort_def

theorem conflict_is_real_witness:
  "\<exists>ip pr h c1 c2. c1 \<noteq> c2 \<and>
     (ip, pr, h, c1) \<in> requested [port80\<lparr>Range := 3\<rparr>, port81\<lparr>ContainerPort := 443\<rparr>] \<and>
     (ip, pr, h, c2) \<in> requested [port80\<lparr>Range := 3\<rparr>, port81\<lparr>ContainerPort := 443\<rparr>]"
proof -
  have "ParsePortMapping (\<lambda>_. Inl RandomPortError) [([], [''tcp''])] []
      [port80\<lparr>Range := 3\<rparr>, port81\<lparr>ContainerPort := 443\<rparr>] Map.empty = Inl (ConflictingPorts 8081 ''tcp'')"
    by (simp add: port_run_defs port80_def port81_def)
  moreover have "covers [([], [''tcp''])] [port80\<lparr>Range := 3\<rparr>, port81\<lparr>ContainerPort := 443\<rparr>]"
    by (simp add: covers_def protocolsOf_def port80_def port81_def)
  ultimately show ?thesis by (rule conflict_is_real) simp
qed

text \<open>
  A conflict at the last host port of the first mapping is not found: two mappings of the
  same host port to different container ports are both accepted when the first one has length 1, although
  the comment says that overlapping ranges are an error.
\<close>

theorem conflict_missed:
  assumes "HostPort a = HostPort b" "Range a = 1" "ContainerPort a \<noteq> ContainerPort b"
  shows "joinTwoPortsToRangePortIfPossible st (Some a) b = Inr (addPortToUsedPorts a st, b)"
  using assms by (auto simp: joinTwoPortsToRangePortIfPossible_def)

theorem conflict_missed_witness:
  "ParsePortMapping (\<lambda>_. Inl RandomPortError) [([], [''tcp''])] []
     [port80\<lparr>Range := 1\<rparr>, port81\<lparr>HostPort := 8080\<rparr>] Map.empty =
   Inr ([port80\<lparr>Range := 1\<rparr>, port80\<lparr>ContainerPort := 81, Range := 1\<rparr>], Map.empty)"
proof -
  define a where "a = port80\<lparr>Range := 1\<rparr>"
  define b where "b = port80\<lparr>ContainerPort := 81, Range := 1\<rparr>"
  have j: "joinTwoPortsToRangePortIfPossible st (Some a) b = Inr (addPortToUsedPorts a st, b)" for st
    by (rule conflict_missed) (simp_all add: a_def b_def port80_def)
  have m: "mkPort [] ''tcp'' \<lparr>hostPort = 8080, containerPort = 80, rangePort = 1\<rparr> = a"
    "mkPort [] ''tcp'' \<lparr>hostPort = 8080, containerPort = 81, rangePort = 1\<rparr> = b"
    by (simp_all add: mkPort_def a_def b_def port80_def)
  have n: "joinTwoPortsToRangePortIfPossible st None p = Inr (st, p)" for st p
    by (simp add: joinTwoPortsToRangePortIfPossible_def)
  show ?thesis
    by (simp add: ParsePortMapping_def validatePort_def Let_def mapProtocol_def sortTemps_def portLess_def joinFixed_def
        joinFree_def joinNext_def m n j port80_def port81_def)
      (simp add: a_def b_def port80_def)
qed

section \<open>Random ports\<close>

text \<open>
  C20. A random host port is only taken when the whole range lies below the last port and no port
  of it is in use, and at most fifteen ports are tried.
\<close>

theorem getRandomHostPort_free:
  assumes "getRandomHostPort rnd hostPorts port calls = Inr (p, calls')"
  shows "unat (HostPort p) + unat (Range port) \<le> 65535 \<and>
     (\<forall>j < unat (Range port). \<not> hostPorts (HostPort p + of_nat j)) \<and> p = port\<lparr>HostPort := HostPort p\<rparr> \<and>
     calls < calls' \<and> calls' \<le> calls + 15"
proof -
  from tryRandomPort_free[OF assms[unfolded getRandomHostPort_def]] obtain r where
    r: "p = port\<lparr>HostPort := of_nat r\<rparr>" "r + unat (Range port) \<le> 65535"
      "\<forall>j < unat (Range port). \<not> hostPorts (of_nat (r + j))" by blast
  have "calls < calls' \<and> calls' \<le> calls + n" if "tryRandomPort rnd hostPorts port n calls = Inr (p, calls')" for n calls
    using that by (induction n arbitrary: calls) (fastforce split: sum.splits if_splits)+
  then have "calls < calls' \<and> calls' \<le> calls + 15" using assms by (simp add: getRandomHostPort_def)
  moreover have "unat (HostPort p) = r" using r(1,2) by (simp add: unat_of_nat)
  ultimately show ?thesis using r by simp
qed

lemma tryRandomPort_numeral:
  "tryRandomPort rnd hostPorts port (numeral n) calls =
     (case rnd calls of
        Inl e \<Rightarrow> Inl e
      | Inr ranPort \<Rightarrow>
          if ranPort + unat (Range port) > 65535 then tryRandomPort rnd hostPorts port (pred_numeral n) (calls + 1)
          else if list_ex (\<lambda>j. hostPorts (of_nat (ranPort + j))) [0..<unat (Range port)]
          then tryRandomPort rnd hostPorts port (pred_numeral n) (calls + 1)
          else Inr (port\<lparr>HostPort := of_nat ranPort\<rparr>, calls + 1))"
  by (simp only: numeral_eq_Suc tryRandomPort.simps)

theorem getRandomHostPort_free_witness:
  "\<exists>p. getRandomHostPort (\<lambda>k. Inr (40000 + k)) (\<lambda>h. h = 40000) port81 0 = Inr (p, 2) \<and> unat (HostPort p) + unat (Range port81) \<le> 65535"
proof -
  have "\<exists>p. getRandomHostPort (\<lambda>k. Inr (40000 + k)) (\<lambda>h. h = 40000) port81 0 = Inr (p, 2)"
    by (simp add: getRandomHostPort_def port81_def tryRandomPort_numeral)
  then obtain p where "getRandomHostPort (\<lambda>k. Inr (40000 + k)) (\<lambda>h. h = 40000) port81 0 = Inr (p, 2)" ..
  with getRandomHostPort_free[OF this] show ?thesis by blast
qed

text \<open>
  Two exposed ports get the same host port when the system hands out the same free port twice:
  the port is marked as used in a copy of the array, although the comment says it is marked so that it is not
  generated again.
\<close>

theorem exposed_ports_collide:
  assumes "p \<noteq> q" "r \<le> 65534"
  shows "ParsePortMapping (\<lambda>_. Inr r) [] [p, q] [] [p \<mapsto> [''tcp''], q \<mapsto> [''tcp'']] =
     Inr ([\<lparr>HostIP = [], ContainerPort = p, HostPort = of_nat r, Range = 1, Protocol = ''tcp''\<rparr>,
           \<lparr>HostIP = [], ContainerPort = q, HostPort = of_nat r, Range = 1, Protocol = ''tcp''\<rparr>], Map.empty)"
  using assms by (auto simp: ParsePortMapping_def exposePortStep_def exposeProtocol_def getRandomHostPort_def
      tryRandomPort_numeral zero_PortMapping_def fun_eq_iff)

theorem exposed_ports_collide_witness:
  "ParsePortMapping (\<lambda>_. Inr 40000) [] [80, 81] [] [80 \<mapsto> [''tcp''], 81 \<mapsto> [''tcp'']] =
     Inr ([\<lparr>HostIP = [], ContainerPort = 80, HostPort = 40000, Range = 1, Protocol = ''tcp''\<rparr>,
           \<lparr>HostIP = [], ContainerPort = 81, HostPort = 40000, Range = 1, Protocol = ''tcp''\<rparr>], Map.empty)"
  using exposed_ports_collide[of 80 81 40000] by simp

section \<open>The command line\<close>

lemma CreatePortBindings_set:
  assumes "foldE (\<lambda>p acc. bindE (parsePublish p) (\<lambda>m. Inr (acc @ [m]))) ps acc = Inr ms"
  shows "\<forall>m \<in> set ms. m \<in> set acc \<or> (\<exists>p. parsePublish p = Inr m)"
  using assms
proof (induction ps arbitrary: acc)
  case (Cons p ps)
  then obtain m where m: "parsePublish p = Inr m"
    "foldE (\<lambda>p acc. bindE (parsePublish p) (\<lambda>m. Inr (acc @ [m]))) ps (acc @ [m]) = Inr ms"
    by (auto simp: bindE_eq_Inr)
  show ?case using Cons.IH[OF m(2)] m(1) by auto
qed simp

text \<open>
  C21. A mapping is read back from its text: every mapping with valid ranges, an address in canonical form or
  none, and any protocol without a slash is what \<open>CreatePortBindings\<close> makes of
  \<^verbatim>\<open>[ip:]host[-end]:container[-end][/protocol]\<close>, with IPv6 addresses in brackets.
\<close>

theorem publish_roundtrip:
  assumes "list_all publishable ms"
  shows "CreatePortBindings (map publishString ms) = Inr ms"
proof -
  have "foldE (\<lambda>p acc. bindE (parsePublish p) (\<lambda>m. Inr (acc @ [m]))) (map publishString ms) acc = Inr (acc @ ms)" for acc
    using assms by (induction ms arbitrary: acc) (simp_all add: parse_publishString)
  then show ?thesis by (simp add: CreatePortBindings_def)
qed

lemma port81_publishable: "publishable port81"
  by (simp add: publishable_def port81_def valid_range_def)

theorem publish_roundtrip_witness: "CreatePortBindings [publishString port81] = Inr [port81]"
  using publish_roundtrip[of "[port81]"] port81_publishable by simp

text \<open>
  C22. The mappings of the command line pass the validation of the ranges: none is refused for a port 0 or a
  range that exceeds the last port.
\<close>

theorem bindings_in_range:
  assumes "CreatePortBindings args = Inr ms" "m \<in> set ms"
  shows "validatePort m pm \<notin> {Inl CtrPortZero, Inl CtrRangeExceeds, Inl HostRangeExceeds}"
proof -
  obtain p where "parsePublish p = Inr m"
    using CreatePortBindings_set[OF assms(1)[unfolded CreatePortBindings_def]] assms(2) by auto
  note v = parsePublish_valid[OF this]
  have r: "Range m \<noteq> 0" "ContainerPort m \<noteq> 0" using v by (auto simp: valid_range_def)
  then have "unat (Range m - 1) = unat (Range m) - 1" by (simp add: unat_minus_one)
  then have "unat (Range m - 1) + unat (ContainerPort m) \<le> 65535" "unat (Range m - 1) + unat (HostPort m) \<le> 65535"
    using v unat_port[of "Range m"] by (auto simp: valid_range_def)
  moreover have "checkProtocol (Protocol m) True \<noteq> Inl e" if "e \<in> {CtrPortZero, CtrRangeExceeds, HostRangeExceeds}" for e
  proof
    assume "checkProtocol (Protocol m) True = Inl e"
    then show False
      using that by (auto simp: checkProtocol_def Let_def bindE_eq_Inl guardE_def dest!: foldE_error split: if_splits)
  qed
  ultimately show ?thesis using r by (auto simp: validatePort_def bindE_eq_Inl Let_def split: if_splits)
qed

theorem bindings_in_range_witness:
  "\<exists>ms. CreatePortBindings [publishString port81] = Inr ms \<and>
     (\<exists>m \<in> set ms. validatePort m (\<lambda>_ _. []) \<notin> {Inl CtrPortZero, Inl CtrRangeExceeds, Inl HostRangeExceeds})"
proof -
  have "CreatePortBindings [publishString port81] = Inr [port81]"
    by (simp add: CreatePortBindings_def parse_publishString[OF port81_publishable])
  with bindings_in_range[OF this, of port81 "\<lambda>_ _. []"] show ?thesis by simp
qed

end
