(* ===== verification/LockInterface.thy ===== *)
theory LockInterface
  imports Libpod_Prelude
begin

text \<open>
  The interface of the lock managers (\<^verbatim>\<open>src/libpod/lock/lock.go\<close>): a manager hands out locks by number,
  a lock that was handed out is not handed out again before it is freed. The three implementations
  (memory, files, shared memory) interpret the locale; what a user of the interface may rely on is
  proved here once.
\<close>

locale lock_manager =
  fixes lm_ok :: "'s \<Rightarrow> bool"
    and lm_used :: "'s \<Rightarrow> nat set"
    and lm_size :: "'s \<Rightarrow> nat"
    and lm_alloc :: "'s \<Rightarrow> ('s \<times> nat) option"
    and lm_given :: "'s \<Rightarrow> nat \<Rightarrow> 's option"
    and lm_free :: "'s \<Rightarrow> nat \<Rightarrow> 's option"
    and lm_clear :: "'s \<Rightarrow> 's option"
  assumes used_size: "lm_ok s \<Longrightarrow> lm_used s \<subseteq> {..<lm_size s}"
    and alloc_None: "lm_ok s \<Longrightarrow> lm_alloc s = None \<longleftrightarrow> lm_used s = {..<lm_size s}"
    and alloc_Some: "lm_ok s \<Longrightarrow> lm_alloc s = Some (s', i) \<Longrightarrow>
          i \<notin> lm_used s \<and> {..<i} \<subseteq> lm_used s \<and> lm_used s' = insert i (lm_used s) \<and> lm_ok s' \<and> lm_size s' = lm_size s"
    and given_None: "lm_ok s \<Longrightarrow> lm_given s i = None \<longleftrightarrow> lm_size s \<le> i \<or> i \<in> lm_used s"
    and given_Some: "lm_ok s \<Longrightarrow> lm_given s i = Some s' \<Longrightarrow>
          lm_used s' = insert i (lm_used s) \<and> lm_ok s' \<and> lm_size s' = lm_size s"
    and free_used: "lm_ok s \<Longrightarrow> i \<in> lm_used s \<Longrightarrow>
          \<exists>s'. lm_free s i = Some s' \<and> lm_used s' = lm_used s - {i} \<and> lm_ok s' \<and> lm_size s' = lm_size s"
    and clear_all: "lm_ok s \<Longrightarrow> \<exists>s'. lm_clear s = Some s' \<and> lm_used s' = {} \<and> lm_ok s' \<and> lm_size s' = lm_size s"

text \<open>A number of allocations in a row.\<close>

fun allocMany :: "('s \<Rightarrow> ('s \<times> nat) option) \<Rightarrow> nat \<Rightarrow> 's \<Rightarrow> ('s \<times> nat list) option" where
  "allocMany alloc 0 s = Some (s, [])"
| "allocMany alloc (Suc n) s =
     (case alloc s of
        None \<Rightarrow> None
      | Some (s', i) \<Rightarrow> map_option (\<lambda>(s'', is). (s'', i # is)) (allocMany alloc n s'))"

text \<open>A sequence of calls and what they answer: the number of the lock, or \<open>None\<close> for an error.\<close>

datatype lock_op = LAlloc | LGiven nat | LFree nat | LClear

fun lockRun ::
  "('s \<Rightarrow> ('s \<times> nat) option) \<Rightarrow> ('s \<Rightarrow> nat \<Rightarrow> 's option) \<Rightarrow> ('s \<Rightarrow> nat \<Rightarrow> 's option) \<Rightarrow> ('s \<Rightarrow> 's option)
     \<Rightarrow> lock_op list \<Rightarrow> 's \<Rightarrow> nat option list" where
  "lockRun al gi fr cl [] s = []"
| "lockRun al gi fr cl (LAlloc # ops) s =
     (case al s of None \<Rightarrow> None # lockRun al gi fr cl ops s | Some (s', i) \<Rightarrow> Some i # lockRun al gi fr cl ops s')"
| "lockRun al gi fr cl (LGiven i # ops) s =
     (case gi s i of None \<Rightarrow> None # lockRun al gi fr cl ops s | Some s' \<Rightarrow> Some i # lockRun al gi fr cl ops s')"
| "lockRun al gi fr cl (LFree i # ops) s =
     (case fr s i of None \<Rightarrow> None # lockRun al gi fr cl ops s | Some s' \<Rightarrow> Some i # lockRun al gi fr cl ops s')"
| "lockRun al gi fr cl (LClear # ops) s =
     (case cl s of None \<Rightarrow> None # lockRun al gi fr cl ops s | Some s' \<Rightarrow> Some 0 # lockRun al gi fr cl ops s')"

text \<open>The specification: a set of locks in use, the lowest free number is handed out.\<close>

fun specRun :: "nat \<Rightarrow> lock_op list \<Rightarrow> nat set \<Rightarrow> nat option list" where
  "specRun n [] U = []"
| "specRun n (LAlloc # ops) U =
     (if U = {..<n} then None # specRun n ops U
      else Some (LEAST i. i \<notin> U) # specRun n ops (insert (LEAST i. i \<notin> U) U))"
| "specRun n (LGiven i # ops) U =
     (if n \<le> i \<or> i \<in> U then None # specRun n ops U else Some i # specRun n ops (insert i U))"
| "specRun n (LFree i # ops) U = Some i # specRun n ops (U - {i})"
| "specRun n (LClear # ops) U = Some 0 # specRun n ops {}"

text \<open>Only locks in use are freed.\<close>

fun legal :: "nat \<Rightarrow> lock_op list \<Rightarrow> nat set \<Rightarrow> bool" where
  "legal n [] U = True"
| "legal n (LAlloc # ops) U = legal n ops (if U = {..<n} then U else insert (LEAST i. i \<notin> U) U)"
| "legal n (LGiven i # ops) U = legal n ops (if n \<le> i \<or> i \<in> U then U else insert i U)"
| "legal n (LFree i # ops) U = (i \<in> U \<and> legal n ops (U - {i}))"
| "legal n (LClear # ops) U = legal n ops {}"

context lock_manager
begin

lemma used_finite: "lm_ok s \<Longrightarrow> finite (lm_used s)"
  using used_size finite_subset by blast

lemma alloc_unused:
  assumes "lm_ok s" "i < lm_size s" "i \<notin> lm_used s"
  obtains s' j where "lm_alloc s = Some (s', j)"
  using assms alloc_None[OF assms(1)] by (cases "lm_alloc s") auto

text \<open>Numbers that are handed out one after the other are different and were free.\<close>

lemma allocMany_distinct:
  assumes "lm_ok s" "allocMany lm_alloc n s = Some (s', is)"
  shows "distinct is \<and> set is \<inter> lm_used s = {} \<and> lm_used s' = lm_used s \<union> set is \<and> length is = n \<and>
     lm_ok s' \<and> lm_size s' = lm_size s"
  using assms
proof (induction n arbitrary: s "is")
  case (Suc n)
  from Suc.prems(2) obtain t i js where t: "lm_alloc s = Some (t, i)" "allocMany lm_alloc n t = Some (s', js)" "is = i # js"
    by (auto split: option.splits)
  note a = alloc_Some[OF Suc.prems(1) t(1)]
  from Suc.IH[OF _ t(2)] a show ?case by (auto simp: t(3))
qed simp

text \<open>All locks can be handed out, and no more.\<close>

lemma allocMany_capacity:
  assumes "lm_ok s"
  shows "(\<exists>r. allocMany lm_alloc n s = Some r) \<longleftrightarrow> n \<le> lm_size s - card (lm_used s)"
  using assms
proof (induction n arbitrary: s)
  case (Suc n)
  have sub: "card (lm_used s) \<le> lm_size s"
    using card_mono[OF finite_lessThan used_size[OF Suc.prems]] by simp
  show ?case
  proof (cases "lm_alloc s")
    case None
    then have "card (lm_used s) = lm_size s" using alloc_None[OF Suc.prems] by simp
    then show ?thesis by (simp add: None)
  next
    case (Some r)
    obtain t i where r: "r = (t, i)" by (cases r)
    note a = alloc_Some[OF Suc.prems Some[unfolded r]]
    have "lm_used s \<noteq> {..<lm_size s}" using alloc_None[OF Suc.prems] Some by simp
    then have "card (lm_used s) < lm_size s"
      using psubset_card_mono[OF finite_lessThan, of "lm_used s" "lm_size s"] used_size[OF Suc.prems] by auto
    moreover have "card (lm_used t) = Suc (card (lm_used s))" using a used_finite[OF Suc.prems] by simp
    moreover have "lm_ok t" "lm_size t = lm_size s" using a by simp_all
    ultimately show ?thesis using Suc.IH[of t] by (auto simp: Some r)
  qed
qed simp

text \<open>When all locks are in use, the next allocation gives back the lock that is freed.\<close>

lemma free_then_alloc:
  assumes "lm_ok s" "lm_alloc s = None" "i < lm_size s"
  shows "\<exists>s' s''. lm_free s i = Some s' \<and> lm_alloc s' = Some (s'', i)"
proof -
  have full: "lm_used s = {..<lm_size s}" using alloc_None[OF assms(1)] assms(2) by blast
  then have "i \<in> lm_used s" using assms(3) by simp
  from free_used[OF assms(1) this] full obtain s' where
    s': "lm_free s i = Some s'" "lm_used s' = {..<lm_size s} - {i}" "lm_ok s'" "lm_size s' = lm_size s" by auto
  obtain s'' j where j: "lm_alloc s' = Some (s'', j)"
    using alloc_unused[OF s'(3), of i] assms(3) s'(2,4) by auto
  have "j \<notin> lm_used s'" "{..<j} \<subseteq> lm_used s'" using alloc_Some[OF s'(3) j] by auto
  moreover have "j < lm_size s"
    using used_size[of s''] alloc_Some[OF s'(3) j] s'(4) by auto
  ultimately have "j = i" using s'(2) by auto
  with s'(1) j show ?thesis by blast
qed

text \<open>Every implementation behaves as the specification.\<close>

lemma lockRun_spec:
  assumes "lm_ok s" "legal (lm_size s) ops (lm_used s)"
  shows "lockRun lm_alloc lm_given lm_free lm_clear ops s = specRun (lm_size s) ops (lm_used s)"
  using assms
proof (induction ops arbitrary: s)
  case (Cons op ops)
  show ?case
  proof (cases op)
    case LAlloc
    show ?thesis
    proof (cases "lm_alloc s")
      case None
      with alloc_None[OF Cons.prems(1)] Cons show ?thesis by (simp add: LAlloc)
    next
      case (Some r)
      obtain t i where r: "r = (t, i)" by (cases r)
      note a = alloc_Some[OF Cons.prems(1) Some[unfolded r]]
      have "(LEAST i. i \<notin> lm_used s) = i" using a by (intro Least_equality) (auto simp: not_le[symmetric])
      with a alloc_None[OF Cons.prems(1)] Some Cons show ?thesis by (simp add: LAlloc r)
    qed
  next
    case (LGiven i)
    with Cons given_None[OF Cons.prems(1), of i] given_Some[OF Cons.prems(1), of i]
    show ?thesis by (cases "lm_given s i") auto
  next
    case (LFree i)
    with Cons.prems have "i \<in> lm_used s" by simp
    from free_used[OF Cons.prems(1) this] Cons LFree show ?thesis by auto
  next
    case LClear
    from clear_all[OF Cons.prems(1)] Cons LClear show ?thesis by auto
  qed
qed simp

end

end
