(* ===== verification/LockInMemory.thy ===== *)
theory LockInMemory
  imports LockInterface "HOL-Library.Word"
begin

text \<open>
  The lock manager in memory (\<^verbatim>\<open>src/libpod/lock/in_memory_locks.go\<close>): an array of mutexes with a flag that says
  whether they are allocated.
\<close>

record Mutex =
  mx_id :: "32 word"
  mx_locked :: bool
  mx_allocated :: bool

record InMemoryManager =
  im_locks :: "Mutex list"
  im_numLocks :: "32 word"

definition NewInMemoryManager :: "32 word \<Rightarrow> InMemoryManager option" where
  "NewInMemoryManager numLocks =
     (if numLocks = 0 then None
      else Some \<lparr>im_locks = map (\<lambda>i. \<lparr>mx_id = of_nat i, mx_locked = False, mx_allocated = False\<rparr>) [0..<unat numLocks],
                 im_numLocks = numLocks\<rparr>)"

text \<open>The first lock that is not allocated; the list is the rest of the array from index \<open>i\<close>.\<close>

fun allocFirst :: "Mutex list \<Rightarrow> (Mutex list \<times> 32 word) option" where
  "allocFirst [] = None"
| "allocFirst (l # ls) =
     (if \<not> mx_allocated l then Some (l\<lparr>mx_allocated := True\<rparr> # ls, mx_id l)
      else map_option (\<lambda>(ls', i). (l # ls', i)) (allocFirst ls))"

definition IM_AllocateLock :: "InMemoryManager \<Rightarrow> (InMemoryManager \<times> 32 word) option" where
  "IM_AllocateLock m = map_option (\<lambda>(ls, i). (m\<lparr>im_locks := ls\<rparr>, i)) (allocFirst (im_locks m))"

definition IM_RetrieveLock :: "InMemoryManager \<Rightarrow> 32 word \<Rightarrow> Mutex option" where
  "IM_RetrieveLock m lid = (if lid \<ge> im_numLocks m then None else Some (im_locks m ! unat lid))"

definition IM_setAllocated :: "bool \<Rightarrow> InMemoryManager \<Rightarrow> 32 word \<Rightarrow> InMemoryManager" where
  "IM_setAllocated b m lid =
     m\<lparr>im_locks := (im_locks m)[unat lid := (im_locks m ! unat lid)\<lparr>mx_allocated := b\<rparr>]\<rparr>"

definition IM_AllocateAndRetrieveLock :: "InMemoryManager \<Rightarrow> 32 word \<Rightarrow> InMemoryManager option" where
  "IM_AllocateAndRetrieveLock m lid =
     (if lid \<ge> im_numLocks m then None
      else if mx_allocated (im_locks m ! unat lid) then None
      else Some (IM_setAllocated True m lid))"

text \<open>\<open>Free\<close> of a lock that the manager handed out; it is a method of the mutex.\<close>

definition IM_Free :: "InMemoryManager \<Rightarrow> 32 word \<Rightarrow> InMemoryManager" where
  "IM_Free m lid = IM_setAllocated False m lid"

definition IM_FreeAllLocks :: "InMemoryManager \<Rightarrow> InMemoryManager" where
  "IM_FreeAllLocks m = m\<lparr>im_locks := map (\<lambda>l. l\<lparr>mx_allocated := False\<rparr>) (im_locks m)\<rparr>"

section \<open>The interface\<close>

definition im_ok :: "InMemoryManager \<Rightarrow> bool" where
  "im_ok m \<longleftrightarrow> length (im_locks m) = unat (im_numLocks m) \<and> (\<forall>i < length (im_locks m). mx_id (im_locks m ! i) = of_nat i)"

definition im_used :: "InMemoryManager \<Rightarrow> nat set" where
  "im_used m = {i. i < length (im_locks m) \<and> mx_allocated (im_locks m ! i)}"

lemma new_im_ok:
  assumes "NewInMemoryManager n = Some m"
  shows "im_ok m" "im_used m = {}" "length (im_locks m) = unat n"
  using assms by (auto simp: NewInMemoryManager_def im_ok_def im_used_def split: if_splits)

lemma allocFirst_None: "allocFirst ls = None \<longleftrightarrow> (\<forall>i < length ls. mx_allocated (ls ! i))"
  by (induction ls) (auto simp: less_Suc_eq_0_disj split: if_splits)

lemma allocFirst_Some:
  "allocFirst ls = Some (ls', j) \<Longrightarrow>
     \<exists>i < length ls. \<not> mx_allocated (ls ! i) \<and> (\<forall>k < i. mx_allocated (ls ! k)) \<and> j = mx_id (ls ! i) \<and>
       ls' = ls[i := (ls ! i)\<lparr>mx_allocated := True\<rparr>]"
proof (induction ls arbitrary: ls')
  case (Cons l ls)
  show ?case
  proof (cases "mx_allocated l")
    case False
    with Cons.prems show ?thesis by (intro exI[of _ 0]) auto
  next
    case True
    with Cons.prems obtain ls1 where "allocFirst ls = Some (ls1, j)" "ls' = l # ls1" by auto
    with Cons.IH[of ls1] True obtain i where "i < length ls" "\<not> mx_allocated (ls ! i)" "\<forall>k < i. mx_allocated (ls ! k)"
      "j = mx_id (ls ! i)" "ls' = l # ls[i := (ls ! i)\<lparr>mx_allocated := True\<rparr>]" by blast
    with True show ?thesis by (intro exI[of _ "Suc i"]) (auto simp: less_Suc_eq_0_disj)
  qed
qed simp

lemma unat_index:
  assumes "i < unat (n :: 32 word)"
  shows "unat (of_nat i :: 32 word) = i"
proof -
  have "unat n < 2 ^ 32" using unsigned_less[of n] by simp
  then show ?thesis using assms by (subst unat_of_nat) simp
qed

lemma im_set_ok:
  assumes "im_ok m" "i < length (im_locks m)"
  shows "im_ok (m\<lparr>im_locks := (im_locks m)[i := (im_locks m ! i)\<lparr>mx_allocated := b\<rparr>]\<rparr>)"
    and "im_used (m\<lparr>im_locks := (im_locks m)[i := (im_locks m ! i)\<lparr>mx_allocated := b\<rparr>]\<rparr>) =
       (if b then insert i (im_used m) else im_used m - {i})"
  using assms by (auto simp: im_ok_def im_used_def nth_list_update)

lemma im_given:
  assumes "im_ok m"
  shows "(if i < 2 ^ 32 then IM_AllocateAndRetrieveLock m (of_nat i) else None) =
     (if i < length (im_locks m) \<and> i \<notin> im_used m
      then Some (m\<lparr>im_locks := (im_locks m)[i := (im_locks m ! i)\<lparr>mx_allocated := True\<rparr>]\<rparr>) else None)"
proof (cases "i < 2 ^ 32")
  case True
  then have "unat (of_nat i :: 32 word) = i" by (subst unat_of_nat) simp
  with True assms show ?thesis
    by (simp add: IM_AllocateAndRetrieveLock_def IM_setAllocated_def word_le_nat_alt im_ok_def im_used_def)
next
  case False
  have "unat (im_numLocks m) < 2 ^ 32" using unsigned_less[of "im_numLocks m"] by simp
  with False assms show ?thesis by (simp add: im_ok_def)
qed

interpretation inmem: lock_manager im_ok im_used "\<lambda>m. length (im_locks m)"
  "\<lambda>m. map_option (\<lambda>(m', i). (m', unat i)) (IM_AllocateLock m)"
  "\<lambda>m i. if i < 2 ^ 32 then IM_AllocateAndRetrieveLock m (of_nat i) else None"
  "\<lambda>m i. Some (IM_Free m (of_nat i))" "\<lambda>m. Some (IM_FreeAllLocks m)"
proof unfold_locales
  fix m assume ok: "im_ok m"
  have len: "length (im_locks m) = unat (im_numLocks m)" using ok by (simp add: im_ok_def)
  have ix: "unat (of_nat i :: 32 word) = i" if "i < length (im_locks m)" for i using unat_index[of i "im_numLocks m"] that len by simp
  show "im_used m \<subseteq> {..<length (im_locks m)}" by (auto simp: im_used_def)
  show "map_option (\<lambda>(m', i). (m', unat i)) (IM_AllocateLock m) = None \<longleftrightarrow> im_used m = {..<length (im_locks m)}"
    by (auto simp: IM_AllocateLock_def allocFirst_None im_used_def)
  {
    fix m' i assume "map_option (\<lambda>(m', i). (m', unat i)) (IM_AllocateLock m) = Some (m', i)"
    then obtain ls j where a: "allocFirst (im_locks m) = Some (ls, j)" "m' = m\<lparr>im_locks := ls\<rparr>" "i = unat j"
      by (auto simp: IM_AllocateLock_def)
    from allocFirst_Some[OF a(1)] obtain k where k: "k < length (im_locks m)" "\<not> mx_allocated (im_locks m ! k)"
      "\<forall>j < k. mx_allocated (im_locks m ! j)" "j = mx_id (im_locks m ! k)"
      "ls = (im_locks m)[k := (im_locks m ! k)\<lparr>mx_allocated := True\<rparr>]" by blast
    have "i = k" using k(1,4) ok a(3) ix by (simp add: im_ok_def)
    then show "i \<notin> im_used m \<and> {..<i} \<subseteq> im_used m \<and> im_used m' = insert i (im_used m) \<and> im_ok m' \<and>
        length (im_locks m') = length (im_locks m)"
      using k im_set_ok[OF ok k(1), of True] a(2) by (auto simp: im_used_def)
  }
  {
    fix i
    show "(if i < 2 ^ 32 then IM_AllocateAndRetrieveLock m (of_nat i) else None) = None \<longleftrightarrow>
        length (im_locks m) \<le> i \<or> i \<in> im_used m"
      unfolding im_given[OF ok] by auto
  }
  show "\<exists>m'. Some (IM_FreeAllLocks m) = Some m' \<and> im_used m' = {} \<and> im_ok m' \<and> length (im_locks m') = length (im_locks m)"
    using ok by (auto simp: IM_FreeAllLocks_def im_used_def im_ok_def)
  {
    fix i m' assume "(if i < 2 ^ 32 then IM_AllocateAndRetrieveLock m (of_nat i) else None) = Some m'"
    then show "im_used m' = insert i (im_used m) \<and> im_ok m' \<and> length (im_locks m') = length (im_locks m)"
      unfolding im_given[OF ok] using im_set_ok[OF ok, of i True] by (auto split: if_splits)
  }
  {
    fix i assume "i \<in> im_used m"
    then have i: "i < length (im_locks m)" by (simp add: im_used_def)
    then show "\<exists>m'. Some (IM_Free m (of_nat i)) = Some m' \<and> im_used m' = im_used m - {i} \<and> im_ok m' \<and>
        length (im_locks m') = length (im_locks m)"
      using im_set_ok[OF ok i, of False] ix[OF i] by (simp add: IM_Free_def IM_setAllocated_def)
  }
qed

end
