(* ===== verification/LockFile.thy ===== *)
theory LockFile
  imports LockInterface "HOL-Library.Word"
begin

text \<open>
  The lock manager on files (\<^verbatim>\<open>src/libpod/lock/file/file_lock.go\<close>, \<^verbatim>\<open>src/libpod/lock/file_lock_manager.go\<close>): a lock is allocated
  when the file with its number as name exists in the lock directory. The directory is the set of the
  numbers whose file exists. An error of a system call other than that the
  file exists or does not exist is the parameter \<open>os\<close>.
\<close>

record FileLocks =
  fl_valid :: bool
  fl_files :: "32 word \<Rightarrow> bool"

datatype file_error = FileInvalid | FileExists | FileMissing | FileOS int

definition CreateFileLock :: "int option \<Rightarrow> bool \<Rightarrow> file_error + FileLocks" where
  "CreateFileLock os dirExists =
     (if dirExists then Inl FileExists
      else case os of
             Some e \<Rightarrow> Inl (FileOS e)
           | None \<Rightarrow> Inr \<lparr>fl_valid = True, fl_files = (\<lambda>_. False)\<rparr>)"

definition OpenFileLock :: "int option \<Rightarrow> (32 word \<Rightarrow> bool) \<Rightarrow> file_error + FileLocks" where
  "OpenFileLock os files =
     (case os of Some e \<Rightarrow> Inl (FileOS e) | None \<Rightarrow> Inr \<lparr>fl_valid = True, fl_files = files\<rparr>)"

text \<open>The directory is removed, but the locks stay valid.\<close>

definition File_Close :: "int option \<Rightarrow> FileLocks \<Rightarrow> FileLocks \<times> (file_error + unit)" where
  "File_Close os locks =
     (if \<not> fl_valid locks then (locks, Inl FileInvalid)
      else case os of
             Some e \<Rightarrow> (locks, Inl (FileOS e))
           | None \<Rightarrow> (locks\<lparr>fl_files := (\<lambda>_. False)\<rparr>, Inr ()))"

text \<open>
  The loop of \<open>AllocateLock\<close> tries one number after the other and wraps around at the end of the 32-bit
  numbers, so it does not return when all files exist.
\<close>

partial_function (option) fileLoop :: "(32 word \<Rightarrow> bool) \<Rightarrow> 32 word \<Rightarrow> 32 word option" where
  "fileLoop files lid = (if files lid then fileLoop files (lid + 1) else Some lid)"

definition File_AllocateLock :: "int option \<Rightarrow> FileLocks \<Rightarrow> (FileLocks \<times> (file_error + 32 word)) option" where
  "File_AllocateLock os locks =
     (if \<not> fl_valid locks then Some (locks, Inl FileInvalid)
      else map_option (\<lambda>lid.
             case os of
               Some e \<Rightarrow> (locks, Inl (FileOS e))
             | None \<Rightarrow> (locks\<lparr>fl_files := (fl_files locks)(lid := True)\<rparr>, Inr lid))
             (fileLoop (fl_files locks) 0))"

definition File_AllocateGivenLock :: "int option \<Rightarrow> FileLocks \<Rightarrow> 32 word \<Rightarrow> FileLocks \<times> (file_error + unit)" where
  "File_AllocateGivenLock os locks lck =
     (if \<not> fl_valid locks then (locks, Inl FileInvalid)
      else if fl_files locks lck then (locks, Inl FileExists)
      else case os of
             Some e \<Rightarrow> (locks, Inl (FileOS e))
           | None \<Rightarrow> (locks\<lparr>fl_files := (fl_files locks)(lck := True)\<rparr>, Inr ()))"

definition File_DeallocateLock :: "int option \<Rightarrow> FileLocks \<Rightarrow> 32 word \<Rightarrow> FileLocks \<times> (file_error + unit)" where
  "File_DeallocateLock os locks lck =
     (if \<not> fl_valid locks then (locks, Inl FileInvalid)
      else if \<not> fl_files locks lck then (locks, Inl FileMissing)
      else case os of
             Some e \<Rightarrow> (locks, Inl (FileOS e))
           | None \<Rightarrow> (locks\<lparr>fl_files := (fl_files locks)(lck := False)\<rparr>, Inr ()))"

text \<open>
  All files of the directory, in the order \<open>entries\<close> in which it is read, are removed, unless reading
  it gives the error \<open>rd\<close>. The files that cannot be removed stay, and the last error is returned.
\<close>

definition File_DeallocateAllLocks ::
  "int option \<Rightarrow> (32 word \<Rightarrow> int option) \<Rightarrow> 32 word list \<Rightarrow> FileLocks \<Rightarrow> FileLocks \<times> (file_error + unit)" where
  "File_DeallocateAllLocks rd os entries locks =
     (if \<not> fl_valid locks then (locks, Inl FileInvalid)
      else if rd \<noteq> None then (locks, Inl (FileOS (the rd)))
      else
        case fold (\<lambda>f (locks, lastErr).
               case os f of
                 Some e \<Rightarrow> (locks, Some e)
               | None \<Rightarrow> (locks\<lparr>fl_files := (fl_files locks)(f := False)\<rparr>, lastErr)) entries (locks, None) of
          (locks', lastErr) \<Rightarrow> (locks', case lastErr of None \<Rightarrow> Inr () | Some e \<Rightarrow> Inl (FileOS e)))"

section \<open>The loop\<close>

lemma fileLoop_free:
  assumes "\<forall>j. k \<le> j \<and> j < n \<longrightarrow> files (of_nat j)" "\<not> files (of_nat n)" "k \<le> n"
  shows "fileLoop files (of_nat k) = Some (of_nat n)"
  using assms
proof (induction "n - k" arbitrary: k)
  case 0
  then have "k = n" by simp
  with 0 show ?case by (subst fileLoop.simps) simp
next
  case (Suc m)
  then have "fileLoop files (of_nat (Suc k)) = Some (of_nat n)" by (intro Suc.hyps) auto
  moreover have "files (of_nat k)" using Suc by auto
  ultimately show ?case by (subst fileLoop.simps) (simp add: add.commute)
qed

lemma fileLoop_result: "fileLoop files lid = Some r \<Longrightarrow> \<not> files r"
  by (erule fileLoop.raw_induct[rotated]) (auto split: if_splits)

definition file_used :: "FileLocks \<Rightarrow> nat set" where
  "file_used l = {n. n < 2 ^ 32 \<and> fl_files l (of_nat n)}"

lemma unat_32: "n < 2 ^ 32 \<Longrightarrow> unat (of_nat n :: 32 word) = n"
  by (subst unat_of_nat) simp

lemma unat_lt_32: "unat (w :: 32 word) < 2 ^ 32"
  using unsigned_less[of w] by simp

lemma least_free:
  assumes "m \<notin> (U :: nat set)"
  shows "(LEAST n. n \<notin> U) \<notin> U" "(LEAST n. n \<notin> U) \<le> m" "j < (LEAST n. n \<notin> U) \<Longrightarrow> j \<in> U"
  using LeastI[of "\<lambda>n. n \<notin> U", OF assms] Least_le[of "\<lambda>n. n \<notin> U", OF assms] not_less_Least[of j "\<lambda>n. n \<notin> U"] by blast+

lemma some_free: "file_used l \<noteq> {..<2 ^ 32} \<Longrightarrow> \<exists>m. m < 2 ^ 32 \<and> m \<notin> file_used l"
  by (auto simp: file_used_def)

text \<open>The loop returns the lowest free number, unless there is none.\<close>

lemma fileLoop_lowest:
  "fileLoop (fl_files l) 0 =
     (if file_used l = {..<2 ^ 32} then None else Some (of_nat (LEAST n. n \<notin> file_used l)))"
proof (cases "file_used l = {..<2 ^ 32}")
  case True
  have "fl_files l r" for r
  proof -
    have "unat r \<in> file_used l" unfolding True using unat_lt_32 by simp
    then show ?thesis by (simp add: file_used_def)
  qed
  with True show ?thesis using fileLoop_result[of "fl_files l" 0] by (cases "fileLoop (fl_files l) 0") auto
next
  case False
  then obtain m where m: "m < 2 ^ 32" "m \<notin> file_used l" using some_free by blast
  note n = least_free[OF m(2)]
  have below: "fl_files l (of_nat j)" if "j < (LEAST n. n \<notin> file_used l)" for j
    using n(3)[OF that] by (simp add: file_used_def)
  have "\<not> fl_files l (of_nat (LEAST n. n \<notin> file_used l))" using n(1,2) m(1) by (auto simp: file_used_def)
  then show ?thesis using fileLoop_free[of 0 "LEAST n. n \<notin> file_used l" "fl_files l"] below False by simp
qed

section \<open>The interface\<close>

definition fileAlloc :: "FileLocks \<Rightarrow> (FileLocks \<times> nat) option" where
  "fileAlloc l = (case File_AllocateLock None l of Some (l', Inr i) \<Rightarrow> Some (l', unat i) | _ \<Rightarrow> None)"

definition fileGiven :: "FileLocks \<Rightarrow> nat \<Rightarrow> FileLocks option" where
  "fileGiven l i =
     (if i < 2 ^ 32 then (case File_AllocateGivenLock None l (of_nat i) of (l', Inr _) \<Rightarrow> Some l' | _ \<Rightarrow> None) else None)"

definition fileFree :: "FileLocks \<Rightarrow> nat \<Rightarrow> FileLocks option" where
  "fileFree l i = (case File_DeallocateLock None l (of_nat i) of (l', Inr _) \<Rightarrow> Some l' | _ \<Rightarrow> None)"

definition fileClear :: "FileLocks \<Rightarrow> FileLocks option" where
  "fileClear l =
     (case File_DeallocateAllLocks None (\<lambda>_. None) (filter (fl_files l) (map of_nat [0..<2 ^ 32])) l of
        (l', Inr _) \<Rightarrow> Some l' | _ \<Rightarrow> None)"

lemma fold_remove:
  "fold (\<lambda>f (l, e). (l\<lparr>fl_files := (fl_files l)(f := False)\<rparr>, e)) fs (l, e) =
     (l\<lparr>fl_files := (\<lambda>f. fl_files l f \<and> f \<notin> set fs)\<rparr>, e)"
  by (induction fs arbitrary: l) (auto simp: fun_eq_iff)

lemma fileClear_eq:
  assumes "fl_valid l"
  shows "fileClear l = Some (l\<lparr>fl_files := (\<lambda>_. False)\<rparr>)"
proof -
  have "f \<in> set (map of_nat [0..<2 ^ 32])" for f :: "32 word"
    unfolding set_map set_upt by (rule image_eqI[of _ _ "unat f"]) (use unat_lt_32[of f] in simp_all)
  then have "(\<lambda>f. fl_files l f \<and> f \<notin> set (filter (fl_files l) (map of_nat [0..<2 ^ 32]))) = (\<lambda>_. False)"
    unfolding set_filter by blast
  then show ?thesis using assms by (simp only: fileClear_def File_DeallocateAllLocks_def option.case fold_remove) simp
qed

lemma file_used_upd:
  assumes "i < 2 ^ 32"
  shows "file_used (l\<lparr>fl_files := (fl_files l)(of_nat i := b)\<rparr>) = (if b then insert i (file_used l) else file_used l - {i})"
proof -
  have "of_nat n = (of_nat i :: 32 word) \<longleftrightarrow> n = i" if "n < 2 ^ 32" for n
    using unat_32[OF that] unat_32[OF assms] by metis
  then show ?thesis using assms by (auto simp: file_used_def)
qed

lemma fileAlloc_eq:
  assumes "fl_valid l"
  shows "fileAlloc l = (if file_used l = {..<2 ^ 32} then None
     else Some (l\<lparr>fl_files := (fl_files l)(of_nat (LEAST n. n \<notin> file_used l) := True)\<rparr>, LEAST n. n \<notin> file_used l))"
proof (cases "file_used l = {..<2 ^ 32}")
  case True
  with assms show ?thesis by (simp add: fileAlloc_def File_AllocateLock_def fileLoop_lowest)
next
  case False
  then obtain m where m: "m < 2 ^ 32" "m \<notin> file_used l" using some_free by blast
  then have "(LEAST n. n \<notin> file_used l) < 2 ^ 32" using least_free(2)[OF m(2)] by simp
  with assms False show ?thesis by (simp add: fileAlloc_def File_AllocateLock_def fileLoop_lowest unat_32)
qed

interpretation onfile: lock_manager fl_valid file_used "\<lambda>_. 2 ^ 32" fileAlloc fileGiven fileFree fileClear
proof unfold_locales
  fix l :: FileLocks assume v: "fl_valid l"
  show "file_used l \<subseteq> {..<2 ^ 32}" by (auto simp: file_used_def)
  show "fileAlloc l = None \<longleftrightarrow> file_used l = {..<2 ^ 32}" by (simp add: fileAlloc_eq[OF v])
  {
    fix l' i assume "fileAlloc l = Some (l', i)"
    then have i: "file_used l \<noteq> {..<2 ^ 32}" "i = (LEAST n. n \<notin> file_used l)" "l' = l\<lparr>fl_files := (fl_files l)(of_nat i := True)\<rparr>"
      by (auto simp: fileAlloc_eq[OF v] split: if_splits)
    from i(1) obtain m where m: "m < 2 ^ 32" "m \<notin> file_used l" using some_free by blast
    have "i \<notin> file_used l" "i < 2 ^ 32" unfolding i(2) using m(1) least_free(1,2)[OF m(2)] by simp_all
    moreover have "{..<i} \<subseteq> file_used l" unfolding i(2) using least_free(3)[OF m(2)] by blast
    ultimately show "i \<notin> file_used l \<and> {..<i} \<subseteq> file_used l \<and> file_used l' = insert i (file_used l) \<and> fl_valid l' \<and> (2 :: nat) ^ 32 = 2 ^ 32"
      using v i(3) file_used_upd[of i l True] by simp
  }
  {
    fix i show "fileGiven l i = None \<longleftrightarrow> 2 ^ 32 \<le> i \<or> i \<in> file_used l"
      using v by (auto simp: fileGiven_def File_AllocateGivenLock_def file_used_def)
  }
  {
    fix i l' assume "fileGiven l i = Some l'"
    then have "i < 2 ^ 32" "l' = l\<lparr>fl_files := (fl_files l)(of_nat i := True)\<rparr>"
      using v by (auto simp: fileGiven_def File_AllocateGivenLock_def split: if_splits)
    then show "file_used l' = insert i (file_used l) \<and> fl_valid l' \<and> (2 :: nat) ^ 32 = 2 ^ 32"
      using v file_used_upd[of i l True] by simp
  }
  {
    fix i assume i: "i \<in> file_used l"
    then have "fileFree l i = Some (l\<lparr>fl_files := (fl_files l)(of_nat i := False)\<rparr>)" "i < 2 ^ 32"
      using v by (auto simp: fileFree_def File_DeallocateLock_def file_used_def)
    then show "\<exists>l'. fileFree l i = Some l' \<and> file_used l' = file_used l - {i} \<and> fl_valid l' \<and> (2 :: nat) ^ 32 = 2 ^ 32"
      using v file_used_upd[of i l False] by simp
  }
  show "\<exists>l'. fileClear l = Some l' \<and> file_used l' = {} \<and> fl_valid l' \<and> (2 :: nat) ^ 32 = 2 ^ 32"
    using v by (simp add: fileClear_eq[OF v] file_used_def)
qed

end
