(* ===== verification/ShmLock.thy ===== *)
theory ShmLock
  imports Libpod_Prelude "HOL-Library.Word"
begin

text \<open>
  The locks in shared memory: the C code of \<^verbatim>\<open>src/libpod/lock/shm/shm_lock.c\<close> and the Go wrapper
  \<^verbatim>\<open>src/libpod/lock/shm/shm_lock.go\<close>. The allocation state is an array of 32-bit bitmaps in the segment,
  one bit per lock, protected by a mutex of the segment. What \<^verbatim>\<open>pthread_mutex_lock\<close> and \<^verbatim>\<open>pthread_mutex_unlock\<close>
  return is a parameter of the operations.
\<close>

unbundle bit_operations_syntax

section \<open>The segment\<close>

definition EINVAL :: int where "EINVAL = 22"
definition EAGAIN :: int where "EAGAIN = 11"
definition EOWNERDEAD :: int where "EOWNERDEAD = 130"
definition ENOSPC :: int where "ENOSPC = 28"
definition EEXIST :: int where "EEXIST = 17"
definition ENOENT :: int where "ENOENT = 2"
definition EFAULT :: int where "EFAULT = 14"
definition EBADF :: int where "EBADF = 9"
definition ERANGE :: int where "ERANGE = 34"

lemmas errno_defs = EINVAL_def EAGAIN_def EOWNERDEAD_def ENOSPC_def EEXIST_def ENOENT_def EFAULT_def EBADF_def ERANGE_def

abbreviation BITMAP_SIZE :: nat where "BITMAP_SIZE \<equiv> 32"

record shm_struct =
  shm_magic :: "16 word"
  shm_num_bitmaps :: "32 word"
  shm_num_locks :: "32 word"
  shm_bitmaps :: "32 word list"

definition MAGIC :: "16 word" where "MAGIC = 0x87D1"

text \<open>
  The results of the successive calls of \<^verbatim>\<open>pthread_mutex_lock\<close>, and the one of \<^verbatim>\<open>pthread_mutex_consistent\<close>;
  \<open>None\<close> is a call that has not returned when all answers so far were \<open>EAGAIN\<close>.
\<close>

fun take_mutex :: "int list \<Rightarrow> int \<Rightarrow> int option" where
  "take_mutex [] consistent = None"
| "take_mutex (ret_code # rs) consistent =
     (if ret_code = EAGAIN then take_mutex rs consistent
      else if ret_code = EOWNERDEAD then Some consistent
      else Some ret_code)"

fun release_mutex :: "int list \<Rightarrow> int option" where
  "release_mutex [] = None"
| "release_mutex (ret_code # rs) = (if ret_code = EAGAIN then release_mutex rs else Some ret_code)"

text \<open>The number of bitmaps for a number of locks, rounded up.\<close>

definition bitmaps_for :: "32 word \<Rightarrow> 32 word" where
  "bitmaps_for num_locks =
     (if num_locks mod 32 \<noteq> 0 then num_locks div 32 + 1 else num_locks div 32)"

text \<open>
  A new segment; the product is computed in 64 bits and stored in 32. The error number of the first
  system call that fails, or 0 when none does, is the parameter \<open>sys\<close>.
\<close>

definition setup_lock_shm :: "int \<Rightarrow> 32 word \<Rightarrow> int + shm_struct" where
  "setup_lock_shm sys num_locks =
     (if num_locks = 0 then Inl (- EINVAL)
      else if sys \<noteq> 0 then Inl (- sys)
      else let num_bitmaps = bitmaps_for num_locks in
           Inr \<lparr>shm_magic = MAGIC, shm_num_bitmaps = num_bitmaps,
                shm_num_locks = of_nat (unat num_bitmaps * BITMAP_SIZE),
                shm_bitmaps = replicate (unat num_bitmaps) 0\<rparr>)"

definition open_lock_shm :: "int \<Rightarrow> shm_struct \<Rightarrow> 32 word \<Rightarrow> int + shm_struct" where
  "open_lock_shm sys shm num_locks =
     (if num_locks = 0 then Inl (- EINVAL)
      else if sys \<noteq> 0 then Inl (- sys)
      else if shm_magic shm \<noteq> MAGIC then Inl (- EBADF)
      else if unat (shm_num_locks shm) \<noteq> unat (bitmaps_for num_locks) * BITMAP_SIZE then Inl (- ERANGE)
      else Inr shm)"

section \<open>Allocation\<close>

text \<open>
  The inner loop: \<open>test_map\<close> runs through the bits from the lowest to the highest and is 0 after
  32 rounds; the fuel is one more than the number of rounds.
\<close>

fun find_bit :: "nat \<Rightarrow> 32 word \<Rightarrow> 32 word \<Rightarrow> nat \<Rightarrow> (nat \<times> 32 word) option" where
  "find_bit 0 bitmap test_map num_within_bitmap = None"
| "find_bit (Suc fuel) bitmap test_map num_within_bitmap =
     (if test_map = 0 then None
      else if test_map AND bitmap = 0 then Some (num_within_bitmap, test_map)
      else find_bit fuel bitmap (push_bit 1 test_map) (num_within_bitmap + 1))"

fun find_bitmap :: "nat \<Rightarrow> 32 word list \<Rightarrow> (nat \<times> nat \<times> 32 word) option" where
  "find_bitmap i [] = None"
| "find_bitmap i (b # bs) =
     (if b \<noteq> 0xFFFFFFFF then
        (case find_bit 33 b 1 0 of
           Some (n, test_map) \<Rightarrow> Some (i, n, test_map)
         | None \<Rightarrow> find_bitmap (i + 1) bs)
      else find_bitmap (i + 1) bs)"

text \<open>The operations take the result codes of the mutex: taking it and releasing it.\<close>

definition allocate_semaphore :: "int \<Rightarrow> int \<Rightarrow> shm_struct \<Rightarrow> shm_struct \<times> int" where
  "allocate_semaphore taken released shm =
     (if taken \<noteq> 0 then (shm, - taken)
      else case find_bitmap 0 (take (unat (shm_num_bitmaps shm)) (shm_bitmaps shm)) of
             Some (i, num_within_bitmap, test_map) \<Rightarrow>
               (shm\<lparr>shm_bitmaps := (shm_bitmaps shm)[i := shm_bitmaps shm ! i OR test_map]\<rparr>,
                if released \<noteq> 0 then - released else int (BITMAP_SIZE * i + num_within_bitmap))
           | None \<Rightarrow> (shm, if released \<noteq> 0 then - released else - ENOSPC))"

definition allocate_given_semaphore :: "int \<Rightarrow> int \<Rightarrow> shm_struct \<Rightarrow> 32 word \<Rightarrow> shm_struct \<times> int" where
  "allocate_given_semaphore taken released shm sem_index =
     (if sem_index \<ge> shm_num_locks shm then (shm, - EINVAL)
      else
        let bitmap_index = unat sem_index div BITMAP_SIZE; index_in_bitmap = unat sem_index mod BITMAP_SIZE;
            test_map = push_bit index_in_bitmap 1 :: 32 word in
        if bitmap_index \<ge> unat (shm_num_bitmaps shm) then (shm, - EFAULT)
        else if taken \<noteq> 0 then (shm, - taken)
        else if test_map AND shm_bitmaps shm ! bitmap_index \<noteq> 0 then
          (shm, if released \<noteq> 0 then - released else - EEXIST)
        else
          (shm\<lparr>shm_bitmaps := (shm_bitmaps shm)[bitmap_index := shm_bitmaps shm ! bitmap_index OR test_map]\<rparr>,
           if released \<noteq> 0 then - released else 0))"

definition deallocate_semaphore :: "int \<Rightarrow> int \<Rightarrow> shm_struct \<Rightarrow> 32 word \<Rightarrow> shm_struct \<times> int" where
  "deallocate_semaphore taken released shm sem_index =
     (if sem_index \<ge> shm_num_locks shm then (shm, - EINVAL)
      else
        let bitmap_index = unat sem_index div BITMAP_SIZE; index_in_bitmap = unat sem_index mod BITMAP_SIZE;
            test_map = push_bit index_in_bitmap 1 :: 32 word in
        if bitmap_index \<ge> unat (shm_num_bitmaps shm) then (shm, - EFAULT)
        else if taken \<noteq> 0 then (shm, - taken)
        else if test_map AND shm_bitmaps shm ! bitmap_index = 0 then
          (shm, if released \<noteq> 0 then - released else - ENOENT)
        else
          (shm\<lparr>shm_bitmaps := (shm_bitmaps shm)[bitmap_index := shm_bitmaps shm ! bitmap_index AND NOT test_map]\<rparr>,
           if released \<noteq> 0 then - released else 0))"

definition deallocate_all_semaphores :: "int \<Rightarrow> int \<Rightarrow> shm_struct \<Rightarrow> shm_struct \<times> int" where
  "deallocate_all_semaphores taken released shm =
     (if taken \<noteq> 0 then (shm, - taken)
      else (shm\<lparr>shm_bitmaps := replicate (unat (shm_num_bitmaps shm)) 0 @
                  drop (unat (shm_num_bitmaps shm)) (shm_bitmaps shm)\<rparr>,
            - released))"

text \<open>Locking does not look at the allocation: the index is checked and the mutex of the lock is taken.\<close>

definition lock_semaphore :: "int \<Rightarrow> shm_struct \<Rightarrow> 32 word \<Rightarrow> int" where
  "lock_semaphore taken shm sem_index = (if sem_index \<ge> shm_num_locks shm then - EINVAL else - taken)"

definition unlock_semaphore :: "int \<Rightarrow> shm_struct \<Rightarrow> 32 word \<Rightarrow> int" where
  "unlock_semaphore released shm sem_index = (if sem_index \<ge> shm_num_locks shm then - EINVAL else - released)"

section \<open>The Go wrapper\<close>

record SHMLocks =
  sl_lockStruct :: shm_struct
  sl_maxLocks :: "32 word"
  sl_valid :: bool

text \<open>A new lock manager knows the rounded number of locks, one that was opened the given number.\<close>

definition CreateSHMLock :: "int \<Rightarrow> 32 word \<Rightarrow> int + SHMLocks" where
  "CreateSHMLock sys numLocks =
     (if numLocks = 0 then Inl EINVAL
      else case setup_lock_shm sys numLocks of
             Inl errCode \<Rightarrow> Inl (- errCode)
           | Inr shm \<Rightarrow> Inr \<lparr>sl_lockStruct = shm, sl_maxLocks = shm_num_locks shm, sl_valid = True\<rparr>)"

definition OpenSHMLock :: "int \<Rightarrow> shm_struct \<Rightarrow> 32 word \<Rightarrow> int + SHMLocks" where
  "OpenSHMLock sys shm numLocks =
     (if numLocks = 0 then Inl EINVAL
      else case open_lock_shm sys shm numLocks of
             Inl errCode \<Rightarrow> Inl (- errCode)
           | Inr shm \<Rightarrow> Inr \<lparr>sl_lockStruct = shm, sl_maxLocks = numLocks, sl_valid = True\<rparr>)"

text \<open>The result of unmapping the segment is the parameter \<open>retCode\<close>.\<close>

definition SHM_Close :: "int \<Rightarrow> SHMLocks \<Rightarrow> SHMLocks \<times> (int + unit)" where
  "SHM_Close retCode locks =
     (if \<not> sl_valid locks then (locks, Inl EINVAL)
      else (locks\<lparr>sl_valid := False\<rparr>, if retCode < 0 then Inl (- retCode) else Inr ()))"

definition AllocateSemaphore :: "int \<Rightarrow> int \<Rightarrow> SHMLocks \<Rightarrow> SHMLocks \<times> (int + 32 word)" where
  "AllocateSemaphore taken released locks =
     (if \<not> sl_valid locks then (locks, Inl EINVAL)
      else case allocate_semaphore taken released (sl_lockStruct locks) of
             (shm, retCode) \<Rightarrow>
               (locks\<lparr>sl_lockStruct := shm\<rparr>, if retCode < 0 then Inl (- retCode) else Inr (word_of_int retCode)))"

definition AllocateGivenSemaphore :: "int \<Rightarrow> int \<Rightarrow> SHMLocks \<Rightarrow> 32 word \<Rightarrow> SHMLocks \<times> (int + unit)" where
  "AllocateGivenSemaphore taken released locks sem =
     (if \<not> sl_valid locks then (locks, Inl EINVAL)
      else case allocate_given_semaphore taken released (sl_lockStruct locks) sem of
             (shm, retCode) \<Rightarrow> (locks\<lparr>sl_lockStruct := shm\<rparr>, if retCode < 0 then Inl (- retCode) else Inr ()))"

definition DeallocateSemaphore :: "int \<Rightarrow> int \<Rightarrow> SHMLocks \<Rightarrow> 32 word \<Rightarrow> SHMLocks \<times> (int + unit)" where
  "DeallocateSemaphore taken released locks sem =
     (if \<not> sl_valid locks then (locks, Inl EINVAL)
      else if sem > sl_maxLocks locks then (locks, Inl EINVAL)
      else case deallocate_semaphore taken released (sl_lockStruct locks) sem of
             (shm, retCode) \<Rightarrow> (locks\<lparr>sl_lockStruct := shm\<rparr>, if retCode < 0 then Inl (- retCode) else Inr ()))"

definition DeallocateAllSemaphores :: "int \<Rightarrow> int \<Rightarrow> SHMLocks \<Rightarrow> SHMLocks \<times> (int + unit)" where
  "DeallocateAllSemaphores taken released locks =
     (if \<not> sl_valid locks then (locks, Inl EINVAL)
      else case deallocate_all_semaphores taken released (sl_lockStruct locks) of
             (shm, retCode) \<Rightarrow> (locks\<lparr>sl_lockStruct := shm\<rparr>, if retCode < 0 then Inl (- retCode) else Inr ()))"

definition LockSemaphore :: "int \<Rightarrow> SHMLocks \<Rightarrow> 32 word \<Rightarrow> int + unit" where
  "LockSemaphore taken locks sem =
     (if \<not> sl_valid locks then Inl EINVAL
      else if sem > sl_maxLocks locks then Inl EINVAL
      else let retCode = lock_semaphore taken (sl_lockStruct locks) sem
           in if retCode < 0 then Inl (- retCode) else Inr ())"

definition UnlockSemaphore :: "int \<Rightarrow> SHMLocks \<Rightarrow> 32 word \<Rightarrow> int + unit" where
  "UnlockSemaphore released locks sem =
     (if \<not> sl_valid locks then Inl EINVAL
      else if sem > sl_maxLocks locks then Inl EINVAL
      else let retCode = unlock_semaphore released (sl_lockStruct locks) sem
           in if retCode < 0 then Inl (- retCode) else Inr ())"

section \<open>The bitmaps as a set\<close>

lemma word_bit_test:
  assumes "n < 32"
  shows "(push_bit n 1 :: 32 word) AND b = 0 \<longleftrightarrow> \<not> bit b n"
proof
  assume "(push_bit n 1 :: 32 word) AND b = 0"
  then have "\<not> bit ((push_bit n 1 :: 32 word) AND b) n" by simp
  then show "\<not> bit b n" using assms by (simp add: bit_simps)
next
  assume "\<not> bit b n"
  then show "(push_bit n 1 :: 32 word) AND b = 0" by (intro bit_eqI) (auto simp: bit_simps)
qed

lemma push_bit_32_0: "(push_bit n 1 :: 32 word) = 0 \<longleftrightarrow> 32 \<le> n"
  by simp

text \<open>The inner loop finds the lowest bit that is not set.\<close>

lemma find_bit_lowest:
  assumes "k \<le> 32"
  shows "find_bit (33 - k) b (push_bit k 1) k =
     (case filter (\<lambda>n. \<not> bit b n) [k..<32] of [] \<Rightarrow> None | n # _ \<Rightarrow> Some (n, push_bit n 1))"
  using assms
proof (induction "32 - k" arbitrary: k)
  case 0
  then have "k = 32" by simp
  then show ?case by (simp add: push_bit_32_0)
next
  case (Suc m)
  then have k: "k < 32" "33 - k = Suc (33 - Suc k)" by simp_all
  have sh: "push_bit 1 (push_bit k 1 :: 32 word) = push_bit (Suc k) 1" by (simp add: push_bit_push_bit)
  have "find_bit (33 - Suc k) b (push_bit (Suc k) 1) (Suc k) =
      (case filter (\<lambda>n. \<not> bit b n) [Suc k..<32] of [] \<Rightarrow> None | n # _ \<Rightarrow> Some (n, push_bit n 1))"
    using Suc by (intro Suc.hyps) simp_all
  then show ?case
    using k(1) unfolding k(2) upt_conv_Cons[OF k(1)]
    by (simp add: push_bit_32_0 word_bit_test sh del: push_bit_Suc push_bit_of_1)
qed

lemma full_bitmap: "b = 0xFFFFFFFF \<longleftrightarrow> filter (\<lambda>n. \<not> bit b n) [0..<32] = []" for b :: "32 word"
proof -
  have f: "(0xFFFFFFFF :: 32 word) = mask 32" by (simp add: mask_eq_exp_minus_1)
  show ?thesis
  proof
    assume "b = 0xFFFFFFFF"
    then show "filter (\<lambda>n. \<not> bit b n) [0..<32] = []" unfolding f by (simp add: filter_empty_conv bit_simps)
  next
    assume "filter (\<lambda>n. \<not> bit b n) [0..<32] = []"
    then show "b = 0xFFFFFFFF" unfolding f by (intro bit_eqI) (auto simp: filter_empty_conv bit_simps)
  qed
qed

definition shm_bit :: "32 word list \<Rightarrow> nat \<Rightarrow> bool" where
  "shm_bit bs n \<longleftrightarrow> n < 32 * length bs \<and> bit (bs ! (n div 32)) (n mod 32)"

text \<open>The outer loop finds the lowest lock that is not allocated.\<close>

lemma find_bitmap_lowest:
  "find_bitmap i bs =
     (case filter (\<lambda>n. \<not> shm_bit bs n) [0..<32 * length bs] of
        [] \<Rightarrow> None | n # _ \<Rightarrow> Some (i + n div 32, n mod 32, push_bit (n mod 32) 1))"
proof (induction bs arbitrary: i)
  case (Cons b bs)
  have up: "[0..<32 * length (b # bs)] = [0..<32] @ map (\<lambda>n. n + 32) [0..<32 * length bs]"
    by (simp add: upt_add_eq_append[of 0 32, simplified] map_add_upt add.commute)
  have low: "filter (\<lambda>n. \<not> shm_bit (b # bs) n) [0..<32] = filter (\<lambda>n. \<not> bit b n) [0..<32]"
    by (rule filter_cong) (auto simp: shm_bit_def)
  have d: "(n + 32) div 32 = Suc (n div 32)" for n :: nat by simp
  have high: "filter (\<lambda>n. \<not> shm_bit (b # bs) n) (map (\<lambda>n. n + 32) [0..<32 * length bs]) =
      map (\<lambda>n. n + 32) (filter (\<lambda>n. \<not> shm_bit bs n) [0..<32 * length bs])"
    unfolding filter_map by (rule arg_cong[where f = "map (\<lambda>n. n + 32)"]) (auto simp: shm_bit_def d intro!: filter_cong)
  have fb: "find_bit 33 b 1 0 =
      (case filter (\<lambda>n. \<not> bit b n) [0..<32] of [] \<Rightarrow> None | n # _ \<Rightarrow> Some (n, push_bit n 1))"
    using find_bit_lowest[of 0 b] by simp
  show ?case
  proof (cases "filter (\<lambda>n. \<not> bit b n) [0..<32]")
    case Nil
    then have "find_bitmap i (b # bs) = find_bitmap (i + 1) bs" using full_bitmap[of b] by simp
    also have "\<dots> = (case filter (\<lambda>n. \<not> shm_bit bs n) [0..<32 * length bs] of
        [] \<Rightarrow> None | n # _ \<Rightarrow> Some (i + 1 + n div 32, n mod 32, push_bit (n mod 32) 1))"
      by (rule Cons.IH)
    finally show ?thesis
      unfolding up filter_append low high Nil append_Nil
      by (cases "filter (\<lambda>n. \<not> shm_bit bs n) [0..<32 * length bs]") (simp_all add: add.commute)
  next
    case (Cons n ns)
    then have "n \<in> set (filter (\<lambda>n. \<not> bit b n) [0..<32])" by simp
    then have "n < 32" by simp
    moreover have "b \<noteq> 0xFFFFFFFF" using Cons full_bitmap[of b] by simp
    ultimately show ?thesis unfolding up filter_append low Cons by (simp add: fb Cons)
  qed
qed simp

end
