(* ===== verification/LockShm.thy ===== *)
theory LockShm
  imports ShmLock LockInterface
begin

text \<open>
  The lock manager in shared memory (\<^verbatim>\<open>src/libpod/lock/shm_lock_manager_linux.go\<close>) on the bitmaps of \<open>ShmLock\<close>, and that
  it implements the interface of the lock managers when the mutex of the segment works.
\<close>

definition NewSHMLockManager :: "int \<Rightarrow> 32 word \<Rightarrow> int + SHMLocks" where
  "NewSHMLockManager sys numLocks = CreateSHMLock sys numLocks"

definition OpenSHMLockManager :: "int \<Rightarrow> shm_struct \<Rightarrow> 32 word \<Rightarrow> int + SHMLocks" where
  "OpenSHMLockManager sys shm numLocks = OpenSHMLock sys shm numLocks"

definition SHM_AllocateLock :: "int \<Rightarrow> int \<Rightarrow> SHMLocks \<Rightarrow> SHMLocks \<times> (int + 32 word)" where
  "SHM_AllocateLock taken released m = AllocateSemaphore taken released m"

definition SHM_AllocateAndRetrieveLock :: "int \<Rightarrow> int \<Rightarrow> SHMLocks \<Rightarrow> 32 word \<Rightarrow> SHMLocks \<times> (int + 32 word)" where
  "SHM_AllocateAndRetrieveLock taken released m lid =
     (if lid \<ge> sl_maxLocks m then (m, Inl EINVAL)
      else case AllocateGivenSemaphore taken released m lid of
             (m', Inl e) \<Rightarrow> (m', Inl e)
           | (m', Inr _) \<Rightarrow> (m', Inr lid))"

definition SHM_RetrieveLock :: "SHMLocks \<Rightarrow> 32 word \<Rightarrow> int + 32 word" where
  "SHM_RetrieveLock m lid = (if lid \<ge> sl_maxLocks m then Inl EINVAL else Inr lid)"

definition SHM_FreeAllLocks :: "int \<Rightarrow> int \<Rightarrow> SHMLocks \<Rightarrow> SHMLocks \<times> (int + unit)" where
  "SHM_FreeAllLocks taken released m = DeallocateAllSemaphores taken released m"

definition SHM_Free :: "int \<Rightarrow> int \<Rightarrow> SHMLocks \<Rightarrow> 32 word \<Rightarrow> SHMLocks \<times> (int + unit)" where
  "SHM_Free taken released m lid = DeallocateSemaphore taken released m lid"

section \<open>The segment as a set of locks\<close>

abbreviation shm_maps :: "SHMLocks \<Rightarrow> 32 word list" where
  "shm_maps m \<equiv> shm_bitmaps (sl_lockStruct m)"

definition shm_used :: "SHMLocks \<Rightarrow> nat set" where
  "shm_used m = {n. shm_bit (shm_maps m) n}"

definition seg_ok :: "shm_struct \<Rightarrow> bool" where
  "seg_ok shm \<longleftrightarrow> length (shm_bitmaps shm) = unat (shm_num_bitmaps shm) \<and>
     unat (shm_num_locks shm) = 32 * length (shm_bitmaps shm)"

definition shm_ok :: "SHMLocks \<Rightarrow> bool" where
  "shm_ok m \<longleftrightarrow> sl_valid m \<and> seg_ok (sl_lockStruct m) \<and> sl_maxLocks m = shm_num_locks (sl_lockStruct m)"

lemma shm_bit_set:
  assumes "i < length bs" "k < 32"
  shows "shm_bit (bs[i := bs ! i OR push_bit k 1]) n \<longleftrightarrow> n = 32 * i + k \<or> shm_bit bs n"
    and "shm_bit (bs[i := bs ! i AND NOT (push_bit k 1)]) n \<longleftrightarrow> n \<noteq> 32 * i + k \<and> shm_bit bs n"
proof -
  have d: "n = 32 * i + k \<longleftrightarrow> n div 32 = i \<and> n mod 32 = k" using assms(2) by auto
  have b: "bit (push_bit k 1 :: 32 word) (n mod 32) \<longleftrightarrow> n mod 32 = k"
    using assms(2) by (auto simp: bit_simps)
  have "n < 32 * length bs \<longleftrightarrow> n div 32 < length bs" by auto
  then show "shm_bit (bs[i := bs ! i OR push_bit k 1]) n \<longleftrightarrow> n = 32 * i + k \<or> shm_bit bs n"
    "shm_bit (bs[i := bs ! i AND NOT (push_bit k 1)]) n \<longleftrightarrow> n \<noteq> 32 * i + k \<and> shm_bit bs n"
    unfolding d using assms(1)
    by (auto simp: shm_bit_def nth_list_update bit_or_iff bit_and_iff bit_not_iff b[unfolded push_bit_of_1])
qed

lemma seg_bound:
  assumes "seg_ok shm" "n < 32 * length (shm_bitmaps shm)"
  shows "unat (of_nat n :: 32 word) = n" "(of_nat n :: 32 word) < shm_num_locks shm"
proof -
  have "unat (shm_num_locks shm) < 2 ^ 32" using unsigned_less[of "shm_num_locks shm"] by simp
  then have "n < 2 ^ 32" using assms by (simp add: seg_ok_def)
  then show u: "unat (of_nat n :: 32 word) = n" by (subst unat_of_nat) simp
  show "(of_nat n :: 32 word) < shm_num_locks shm"
    unfolding word_less_nat_alt u using assms by (simp add: seg_ok_def)
qed

lemma shm_bit_lt: "shm_bit bs n \<Longrightarrow> n < 32 * length bs"
  by (simp add: shm_bit_def)

text \<open>A successful allocation takes the lowest free lock; it fails with \<open>ENOSPC\<close> when all are in use.\<close>

lemma allocate_semaphore_spec:
  assumes "seg_ok shm"
  shows "allocate_semaphore 0 0 shm =
     (if {n. shm_bit (shm_bitmaps shm) n} = {..<32 * length (shm_bitmaps shm)} then (shm, - ENOSPC)
      else let n = (LEAST n. \<not> shm_bit (shm_bitmaps shm) n) in
           (shm\<lparr>shm_bitmaps := (shm_bitmaps shm)[n div 32 := shm_bitmaps shm ! (n div 32) OR push_bit (n mod 32) 1]\<rparr>, int n))"
proof -
  let ?bs = "shm_bitmaps shm"
  let ?free = "filter (\<lambda>n. \<not> shm_bit ?bs n) [0..<32 * length ?bs]"
  have t: "take (unat (shm_num_bitmaps shm)) ?bs = ?bs" using assms by (simp add: seg_ok_def)
  have full: "?free = [] \<longleftrightarrow> {n. shm_bit ?bs n} = {..<32 * length ?bs}"
    unfolding filter_empty_conv using shm_bit_lt by auto
  show ?thesis
  proof (cases ?free)
    case Nil
    with full show ?thesis by (simp add: allocate_semaphore_def t find_bitmap_lowest)
  next
    case (Cons n ns)
    have "n \<in> set ?free" unfolding Cons by simp
    then have n: "n < 32 * length ?bs" "\<not> shm_bit ?bs n" by simp_all
    have so: "sorted (n # ns)" unfolding Cons[symmetric] by (rule sorted_wrt_filter) simp
    have "n \<le> m" if "\<not> shm_bit ?bs m" for m
    proof (cases "m < 32 * length ?bs")
      case True
      then have "m \<in> set (n # ns)" unfolding Cons[symmetric] using that by simp
      with so show ?thesis by auto
    qed (use n(1) in simp)
    then have "(LEAST n. \<not> shm_bit ?bs n) = n" using n(2) by (intro Least_equality) blast+
    moreover have i: "32 * int (n div 32) + int (n mod 32) = int n" by (simp add: zdiv_int zmod_int)
    ultimately show ?thesis using Cons full by (simp add: i allocate_semaphore_def t find_bitmap_lowest Let_def)
  qed
qed

section \<open>The interface\<close>

definition shmAlloc :: "SHMLocks \<Rightarrow> (SHMLocks \<times> nat) option" where
  "shmAlloc m = (case SHM_AllocateLock 0 0 m of (m', Inr i) \<Rightarrow> Some (m', unat i) | _ \<Rightarrow> None)"

definition shmGiven :: "SHMLocks \<Rightarrow> nat \<Rightarrow> SHMLocks option" where
  "shmGiven m i =
     (if i < 2 ^ 32 then (case SHM_AllocateAndRetrieveLock 0 0 m (of_nat i) of (m', Inr _) \<Rightarrow> Some m' | _ \<Rightarrow> None) else None)"

definition shmFree :: "SHMLocks \<Rightarrow> nat \<Rightarrow> SHMLocks option" where
  "shmFree m i = (case SHM_Free 0 0 m (of_nat i) of (m', Inr _) \<Rightarrow> Some m' | _ \<Rightarrow> None)"

definition shmClear :: "SHMLocks \<Rightarrow> SHMLocks option" where
  "shmClear m = (case SHM_FreeAllLocks 0 0 m of (m', Inr _) \<Rightarrow> Some m' | _ \<Rightarrow> None)"

definition shm_size :: "SHMLocks \<Rightarrow> nat" where
  "shm_size m = 32 * length (shm_maps m)"

definition with_maps :: "SHMLocks \<Rightarrow> 32 word list \<Rightarrow> SHMLocks" where
  "with_maps m bs = m\<lparr>sl_lockStruct := (sl_lockStruct m)\<lparr>shm_bitmaps := bs\<rparr>\<rparr>"

lemma with_maps_ok:
  assumes "shm_ok m" "length bs = length (shm_maps m)"
  shows "shm_ok (with_maps m bs)" "shm_size (with_maps m bs) = shm_size m" "shm_used (with_maps m bs) = {n. shm_bit bs n}"
  using assms by (simp_all add: with_maps_def shm_ok_def seg_ok_def shm_size_def shm_used_def)

lemma shm_used_size: "shm_used m \<subseteq> {..<shm_size m}"
  using shm_bit_lt by (auto simp: shm_used_def shm_size_def)

lemma shmAlloc_eq:
  assumes "shm_ok m"
  shows "shmAlloc m = (if shm_used m = {..<shm_size m} then None
     else let n = (LEAST n. n \<notin> shm_used m) in
          Some (with_maps m ((shm_maps m)[n div 32 := shm_maps m ! (n div 32) OR push_bit (n mod 32) 1]), n))"
proof (cases "shm_used m = {..<shm_size m}")
  case True
  with assms show ?thesis
    by (simp add: shmAlloc_def SHM_AllocateLock_def AllocateSemaphore_def allocate_semaphore_spec shm_ok_def
        shm_used_def shm_size_def ENOSPC_def)
next
  case False
  let ?n = "LEAST n. n \<notin> shm_used m"
  obtain k where k: "k < shm_size m" "k \<notin> shm_used m" using False shm_used_size by blast
  then have n: "?n < 32 * length (shm_maps m)" using Least_le[of "\<lambda>n. n \<notin> shm_used m", OF k(2)] by (simp add: shm_size_def)
  have seg: "seg_ok (sl_lockStruct m)" "sl_valid m" using assms by (simp_all add: shm_ok_def)
  have u: "unat (word_of_int (int ?n) :: 32 word) = ?n" using seg_bound(1)[OF seg(1) n] by simp
  show ?thesis
    using False seg u
    by (simp add: shmAlloc_def SHM_AllocateLock_def AllocateSemaphore_def allocate_semaphore_spec[OF seg(1)]
        shm_used_def shm_size_def Let_def with_maps_def)
qed

lemma mod_32: "n mod 32 < (32 :: nat)"
  by simp

lemma test_map_used:
  assumes "n < 32 * length (shm_maps m)"
  shows "(push_bit (n mod 32) 1 :: 32 word) AND shm_maps m ! (n div 32) = 0 \<longleftrightarrow> n \<notin> shm_used m"
  unfolding word_bit_test[OF mod_32] using assms by (simp add: shm_used_def shm_bit_def)

lemma shmGiven_eq:
  assumes "shm_ok m"
  shows "shmGiven m i = (if i < shm_size m \<and> i \<notin> shm_used m
     then Some (with_maps m ((shm_maps m)[i div 32 := shm_maps m ! (i div 32) OR push_bit (i mod 32) 1])) else None)"
proof (cases "i < shm_size m")
  case True
  then have i: "i < 32 * length (shm_maps m)" by (simp add: shm_size_def)
  have seg: "seg_ok (sl_lockStruct m)" "sl_valid m" "sl_maxLocks m = shm_num_locks (sl_lockStruct m)"
    using assms by (simp_all add: shm_ok_def)
  note b = seg_bound[OF seg(1) i]
  have nb: "\<not> shm_num_locks (sl_lockStruct m) \<le> of_nat i" "\<not> shm_num_locks (sl_lockStruct m) < of_nat i" using b(2) by auto
  have "unat (of_nat i :: 32 word) < 2 ^ 32" using unsigned_less[of "of_nat i :: 32 word"] by simp
  then have "i < 2 ^ 32" unfolding b(1) .
  moreover have "i div 32 < unat (shm_num_bitmaps (sl_lockStruct m))" using i seg(1) by (auto simp: seg_ok_def)
  ultimately show ?thesis
    using True b(1) nb seg(2,3) test_map_used[OF i]
    by (simp add: shmGiven_def SHM_AllocateAndRetrieveLock_def AllocateGivenSemaphore_def allocate_given_semaphore_def
        Let_def with_maps_def EEXIST_def del: push_bit_of_1)
next
  case False
  then have "i < 2 ^ 32 \<Longrightarrow> sl_maxLocks m \<le> of_nat i"
    using assms by (simp add: word_le_nat_alt unat_of_nat shm_ok_def seg_ok_def shm_size_def)
  with False show ?thesis by (simp add: shmGiven_def SHM_AllocateAndRetrieveLock_def)
qed

lemma shmFree_eq:
  assumes "shm_ok m" "i \<in> shm_used m"
  shows "shmFree m i = Some (with_maps m ((shm_maps m)[i div 32 := shm_maps m ! (i div 32) AND NOT (push_bit (i mod 32) 1)]))"
proof -
  have i: "i < 32 * length (shm_maps m)" using assms(2) shm_used_size by (auto simp: shm_size_def)
  have seg: "seg_ok (sl_lockStruct m)" "sl_valid m" "sl_maxLocks m = shm_num_locks (sl_lockStruct m)"
    using assms(1) by (simp_all add: shm_ok_def)
  note b = seg_bound[OF seg(1) i]
  have nb: "\<not> shm_num_locks (sl_lockStruct m) \<le> of_nat i" "\<not> shm_num_locks (sl_lockStruct m) < of_nat i" using b(2) by auto
  have "i div 32 < unat (shm_num_bitmaps (sl_lockStruct m))" using i seg(1) by (auto simp: seg_ok_def)
  then show ?thesis
    using b(1) nb seg(2,3) test_map_used[OF i] assms(2)
    by (simp add: shmFree_def SHM_Free_def DeallocateSemaphore_def deallocate_semaphore_def Let_def with_maps_def
        del: push_bit_of_1)
qed

lemma with_maps_used:
  assumes "i < shm_size m"
  shows "shm_used (with_maps m ((shm_maps m)[i div 32 := shm_maps m ! (i div 32) OR push_bit (i mod 32) 1])) =
      insert i (shm_used m)"
    and "shm_used (with_maps m ((shm_maps m)[i div 32 := shm_maps m ! (i div 32) AND NOT (push_bit (i mod 32) 1)])) =
      shm_used m - {i}"
proof -
  have w: "shm_maps (with_maps m bs) = bs" for bs by (simp add: with_maps_def)
  have "i div 32 < length (shm_maps m)" using assms by (auto simp: shm_size_def)
  note b = shm_bit_set[OF this mod_32[of i], unfolded mult_div_mod_eq]
  show "shm_used (with_maps m ((shm_maps m)[i div 32 := shm_maps m ! (i div 32) OR push_bit (i mod 32) 1])) =
      insert i (shm_used m)"
    "shm_used (with_maps m ((shm_maps m)[i div 32 := shm_maps m ! (i div 32) AND NOT (push_bit (i mod 32) 1)])) =
      shm_used m - {i}"
    unfolding shm_used_def w b by auto
qed

interpretation shared: lock_manager shm_ok shm_used shm_size shmAlloc shmGiven shmFree shmClear
proof unfold_locales
  fix m assume ok: "shm_ok m"
  show "shm_used m \<subseteq> {..<shm_size m}" by (rule shm_used_size)
  show "shmAlloc m = None \<longleftrightarrow> shm_used m = {..<shm_size m}" by (simp add: shmAlloc_eq[OF ok] Let_def)
  {
    fix m' i assume "shmAlloc m = Some (m', i)"
    then have a: "shm_used m \<noteq> {..<shm_size m}" "i = (LEAST n. n \<notin> shm_used m)"
      "m' = with_maps m ((shm_maps m)[i div 32 := shm_maps m ! (i div 32) OR push_bit (i mod 32) 1])"
      by (auto simp: shmAlloc_eq[OF ok] Let_def split: if_splits)
    from a(1) obtain k where k: "k < shm_size m" "k \<notin> shm_used m" using shm_used_size by blast
    have i: "i \<notin> shm_used m" "i < shm_size m"
      unfolding a(2) using LeastI[of "\<lambda>n. n \<notin> shm_used m", OF k(2)] Least_le[of "\<lambda>n. n \<notin> shm_used m", OF k(2)] k(1) by simp_all
    have "{..<i} \<subseteq> shm_used m" unfolding a(2) using not_less_Least by blast
    with i show "i \<notin> shm_used m \<and> {..<i} \<subseteq> shm_used m \<and> shm_used m' = insert i (shm_used m) \<and> shm_ok m' \<and> shm_size m' = shm_size m"
      using with_maps_used(1)[OF i(2)] with_maps_ok(1,2)[OF ok length_list_update] by (simp add: a(3))
  }
  {
    fix i show "shmGiven m i = None \<longleftrightarrow> shm_size m \<le> i \<or> i \<in> shm_used m" by (auto simp: shmGiven_eq[OF ok])
  }
  {
    fix i m' assume "shmGiven m i = Some m'"
    then have "i < shm_size m" "m' = with_maps m ((shm_maps m)[i div 32 := shm_maps m ! (i div 32) OR push_bit (i mod 32) 1])"
      by (auto simp: shmGiven_eq[OF ok] split: if_splits)
    then show "shm_used m' = insert i (shm_used m) \<and> shm_ok m' \<and> shm_size m' = shm_size m"
      using with_maps_used(1) with_maps_ok(1,2)[OF ok length_list_update] by simp
  }
  {
    fix i assume i: "i \<in> shm_used m"
    then have "i < shm_size m" using shm_used_size by blast
    then show "\<exists>m'. shmFree m i = Some m' \<and> shm_used m' = shm_used m - {i} \<and> shm_ok m' \<and> shm_size m' = shm_size m"
      using with_maps_used(2) with_maps_ok(1,2)[OF ok length_list_update] by (simp add: shmFree_eq[OF ok i])
  }
  have "length (shm_maps m) = unat (shm_num_bitmaps (sl_lockStruct m))" "sl_valid m" using ok by (simp_all add: shm_ok_def seg_ok_def)
  then have "shmClear m = Some (with_maps m (replicate (length (shm_maps m)) 0))"
    by (simp add: shmClear_def SHM_FreeAllLocks_def DeallocateAllSemaphores_def deallocate_all_semaphores_def with_maps_def)
  then show "\<exists>m'. shmClear m = Some m' \<and> shm_used m' = {} \<and> shm_ok m' \<and> shm_size m' = shm_size m"
    using with_maps_ok[OF ok, of "replicate (length (shm_maps m)) 0"] by (auto simp: shm_bit_def)
qed

end
