(* ===== verification/LockProps.thy ===== *)
theory LockProps
  imports LockInMemory LockFile LockShm
begin

text \<open>
  Properties of the lock managers: the managers in memory and in shared memory answer every
  sequence of calls in the same way, the numbers they hand out are distinct until all are used,
  and the sizes at which the 32-bit arithmetic of the shared memory segment goes wrong.
\<close>

lemma bitmaps_for_unat:
  "unat (bitmaps_for n) = (if unat n mod 32 = 0 then unat n div 32 else unat n div 32 + 1)"
proof -
  have z: "n mod 32 = 0 \<longleftrightarrow> unat n mod 32 = 0" by (simp add: word_unat_eq_iff unat_mod)
  have "unat n div 32 + 1 < 2 ^ 32" using unat_lt_32[of n] by simp
  then have "unat (n div 32 + 1) = unat n div 32 + 1" by (subst unat_add_lem[THEN iffD1]) (simp_all add: unat_div)
  then show ?thesis by (simp add: bitmaps_for_def z unat_div)
qed

text \<open>The number of locks of a segment, rounded up to full bitmaps.\<close>

definition rounded :: "32 word \<Rightarrow> nat" where
  "rounded n = 32 * unat (bitmaps_for n)"

lemma rounded_cases:
  obtains q r where "unat n = 32 * q + r" "r < 32" "rounded n = 32 * (if r = 0 then q else q + 1)"
proof
  show "unat n = 32 * (unat n div 32) + unat n mod 32" by simp
qed (simp_all add: rounded_def bitmaps_for_unat)

lemma rounded_ge: "unat n \<le> rounded n"
  by (rule rounded_cases[of n]) simp

lemma rounded_small:
  assumes "unat n \<le> 2 ^ 32 - 32"
  shows "rounded n < 2 ^ 32"
  by (rule rounded_cases[of n]) (use assms in \<open>simp split: if_splits\<close>)

lemma rounded_large:
  assumes "2 ^ 32 - 32 < unat n"
  shows "rounded n = 2 ^ 32"
  by (rule rounded_cases[of n]) (use assms unat_lt_32[of n] in \<open>simp split: if_splits\<close>)

lemma rounded_mult:
  assumes "unat n mod 32 = 0"
  shows "rounded n = unat n"
  by (rule rounded_cases[of n]) (use assms in \<open>simp split: if_splits\<close>)

lemma mult_small:
  assumes "unat (n :: 32 word) mod 32 = 0"
  shows "unat n \<le> 2 ^ 32 - 32"
  by (rule rounded_cases[of n]) (use assms unat_lt_32[of n] in \<open>simp split: if_splits\<close>)

lemma shm_bit_replicate: "\<not> shm_bit (replicate k 0) n"
  by (auto simp: shm_bit_def)

lemma new_shm:
  assumes "n \<noteq> 0" "unat n \<le> 2 ^ 32 - 32"
  shows "\<exists>m. NewSHMLockManager 0 n = Inr m \<and> shm_ok m \<and> shm_used m = {} \<and> shm_size m = rounded n"
proof -
  have "unat (of_nat (rounded n) :: 32 word) = rounded n" using rounded_small[OF assms(2)] by (subst unat_of_nat) simp
  then show ?thesis using assms(1)
    by (simp add: NewSHMLockManager_def CreateSHMLock_def setup_lock_shm_def Let_def shm_ok_def seg_ok_def shm_used_def
        shm_size_def shm_bit_replicate rounded_def mult.commute)
qed

lemma shm_full:
  assumes "shm_ok m" "shm_used m = {..<shm_size m}"
  shows "SHM_AllocateLock 0 0 m = (m, Inl ENOSPC)"
proof -
  have "allocate_semaphore 0 0 (sl_lockStruct m) = (sl_lockStruct m, - ENOSPC)"
    using allocate_semaphore_spec[of "sl_lockStruct m"] assms by (simp add: shm_ok_def shm_used_def shm_size_def)
  then show ?thesis using assms(1)
    by (simp add: SHM_AllocateLock_def AllocateSemaphore_def shm_ok_def ENOSPC_def)
qed

lemma shm_retrieve:
  assumes "shm_ok m" "i < shm_size m"
  shows "SHM_RetrieveLock m (of_nat i) = Inr (of_nat i)"
  using assms seg_bound(2)[of "sl_lockStruct m" i] by (simp add: SHM_RetrieveLock_def shm_ok_def shm_size_def not_le)

lemma allocMany_new_shm:
  assumes "NewSHMLockManager 0 n = Inr m" "unat n \<le> 2 ^ 32 - 32" "k \<le> rounded n"
  shows "\<exists>m' is. allocMany shmAlloc k m = Some (m', is) \<and> distinct is \<and> length is = k \<and> shm_ok m' \<and>
    shm_used m' = set is \<and> shm_size m' = rounded n"
proof -
  have "n \<noteq> 0" using assms(1) by (auto simp: NewSHMLockManager_def CreateSHMLock_def)
  from new_shm[OF this assms(2)] assms(1) have m: "shm_ok m" "shm_used m = {}" "shm_size m = rounded n" by auto
  from shared.allocMany_capacity[OF m(1), of k] m assms(3) obtain m' js where
    r: "allocMany shmAlloc k m = Some (m', js)" by auto
  from shared.allocMany_distinct[OF m(1) r] m r show ?thesis by auto
qed





text \<open>
  The number of locks of a new segment is computed in 64 bits and stored in 32: for the last
  31 values of a 32-bit number it is 0. The manager is created, but none of its locks can be
  retrieved, and the segment cannot be opened again with the number it was created with.
\<close>

theorem shm_wraps:
  assumes "2 ^ 32 - 32 < unat n"
  shows "\<exists>m. NewSHMLockManager 0 n = Inr m \<and> sl_maxLocks m = 0 \<and> (\<forall>l. SHM_RetrieveLock m l = Inl EINVAL) \<and>
    OpenSHMLockManager 0 (sl_lockStruct m) n = Inl ERANGE"
proof -
  have n: "n \<noteq> 0" using assms by auto
  have "unat (bitmaps_for n) = 2 ^ 27" using rounded_large[OF assms] by (simp add: rounded_def)
  then have "bitmaps_for n = 134217728" by (simp add: word_unat_eq_iff)
  moreover have "(4294967296 :: 32 word) \<le> l" for l by (simp add: word_le_nat_alt)
  ultimately show ?thesis using n
    by (simp add: NewSHMLockManager_def CreateSHMLock_def setup_lock_shm_def Let_def SHM_RetrieveLock_def
        OpenSHMLockManager_def OpenSHMLock_def open_lock_shm_def)
qed

theorem shm_wraps_witness:
  "\<exists>m. NewSHMLockManager 0 4294967295 = Inr m \<and> sl_maxLocks m = 0 \<and> OpenSHMLockManager 0 (sl_lockStruct m) 4294967295 = Inl ERANGE"
  using shm_wraps[of 4294967295] by auto

text \<open>
  C25. A segment that is opened, and not created, by a process has as the maximum the number of
  locks that was asked for, not the rounded one: when the first n locks are in use, the next
  allocation succeeds with lock n, which the same manager then refuses to retrieve.
\<close>

theorem opened_hands_out_unretrievable:
  assumes "setup_lock_shm 0 n = Inr shm" "unat n mod 32 \<noteq> 0" "unat n \<le> 2 ^ 32 - 32"
    and "length bs = length (shm_bitmaps shm)" "{i. shm_bit bs i} = {..<unat n}"
  shows "\<exists>m m'. OpenSHMLockManager 0 (shm\<lparr>shm_bitmaps := bs\<rparr>) n = Inr m \<and> SHM_AllocateLock 0 0 m = (m', Inr n) \<and>
    SHM_RetrieveLock m' n = Inl EINVAL"
proof -
  define seg where "seg = shm\<lparr>shm_bitmaps := bs\<rparr>"
  have n: "n \<noteq> 0" using assms(2) by auto
  have u: "unat (of_nat (rounded n) :: 32 word) = rounded n" using rounded_small[OF assms(3)] by (subst unat_of_nat) simp
  have shm: "shm_magic seg = MAGIC" "shm_num_locks seg = of_nat (rounded n)" "length bs = unat (bitmaps_for n)"
    "shm_num_bitmaps seg = bitmaps_for n" "shm_bitmaps seg = bs"
    using assms(1,4) n by (auto simp: setup_lock_shm_def Let_def seg_def rounded_def mult.commute)
  have ok: "seg_ok seg" unfolding seg_ok_def using shm u by (simp add: rounded_def)
  have opened: "OpenSHMLockManager 0 seg n = Inr \<lparr>sl_lockStruct = seg, sl_maxLocks = n, sl_valid = True\<rparr>"
    using n u shm by (simp add: OpenSHMLockManager_def OpenSHMLock_def open_lock_shm_def rounded_def mult.commute)
  have "rounded n mod 32 = 0" by (simp add: rounded_def)
  then have "rounded n \<noteq> unat n" using assms(2) by metis
  then have lt: "unat n < rounded n" using rounded_ge[of n] by simp
  have free: "shm_bit bs i \<longleftrightarrow> i < unat n" for i using assms(5) by blast
  have "(LEAST i. \<not> shm_bit bs i) = unat n" unfolding free by (intro Least_equality) auto
  then have "snd (allocate_semaphore 0 0 seg) = int (unat n)"
    using lt unfolding allocate_semaphore_spec[OF ok] by (auto simp: shm(5) assms(5) Let_def shm(3) rounded_def)
  then have "\<exists>m'. SHM_AllocateLock 0 0 \<lparr>sl_lockStruct = seg, sl_maxLocks = n, sl_valid = True\<rparr> = (m', Inr n) \<and> sl_maxLocks m' = n"
    by (cases "allocate_semaphore 0 0 seg") (simp add: SHM_AllocateLock_def AllocateSemaphore_def)
  then show ?thesis using opened by (auto simp: SHM_RetrieveLock_def seg_def)
qed

theorem opened_hands_out_unretrievable_witness:
  "\<exists>shm m m'. setup_lock_shm 0 1 = Inr shm \<and> OpenSHMLockManager 0 (shm\<lparr>shm_bitmaps := [1]\<rparr>) 1 = Inr m \<and>
     SHM_AllocateLock 0 0 m = (m', Inr 1) \<and> SHM_RetrieveLock m' 1 = Inl EINVAL"
proof -
  obtain shm where shm: "setup_lock_shm 0 1 = Inr shm" "length (shm_bitmaps shm) = 1"
    by (simp add: setup_lock_shm_def Let_def bitmaps_for_unat)
  have "{i. shm_bit [1] i} = {..<unat (1 :: 32 word)}" by (auto simp: shm_bit_def bit_1_iff)
  with opened_hands_out_unretrievable[OF shm(1), of "[1]"] shm show ?thesis by auto
qed

text \<open>
  C26. The loop of the file manager that looks for a free number ends, with the lowest number that has
  no file, exactly when some number has none; with a file for every 32-bit number it
  does not end, and the error that the interface promises for a full manager is never given.
\<close>

theorem file_alloc_ends:
  assumes "fl_valid l"
  shows "((\<exists>r. File_AllocateLock None l = Some r) \<longleftrightarrow> (\<exists>w. \<not> fl_files l w)) \<and>
    (\<forall>l' r. File_AllocateLock None l = Some (l', r) \<longrightarrow>
       (\<exists>w. r = Inr w \<and> \<not> fl_files l w \<and> (\<forall>v < w. fl_files l v) \<and> l' = l\<lparr>fl_files := (fl_files l)(w := True)\<rparr>))"
proof -
  have full: "file_used l = {..<2 ^ 32} \<longleftrightarrow> (\<forall>w. fl_files l w)"
  proof
    assume a: "file_used l = {..<2 ^ 32}"
    show "\<forall>w. fl_files l w"
    proof
      fix w :: "32 word" have "unat w \<in> file_used l" unfolding a using unat_lt_32 by simp
      then show "fl_files l w" by (simp add: file_used_def)
    qed
  qed (auto simp: file_used_def)
  have low: "\<not> fl_files l w \<and> (\<forall>v < w. fl_files l v)" if "fileLoop (fl_files l) 0 = Some w" for w
  proof -
    have ne: "file_used l \<noteq> {..<2 ^ 32}" and w: "w = of_nat (LEAST n. n \<notin> file_used l)"
      using that by (auto simp: fileLoop_lowest split: if_splits)
    from some_free[OF ne] obtain m where m: "m < 2 ^ 32" "m \<notin> file_used l" by blast
    note least = least_free[OF m(2)]
    have u: "unat w = (LEAST n. n \<notin> file_used l)" unfolding w using least(2) m(1) by (intro unat_32) simp
    have "fl_files l v" if "v < w" for v
      using least(3)[of "unat v"] that u by (simp add: word_less_nat_alt file_used_def)
    then show ?thesis using fileLoop_result[OF that] by blast
  qed
  have "(\<exists>r. File_AllocateLock None l = Some r) \<longleftrightarrow> file_used l \<noteq> {..<2 ^ 32}"
    using assms by (simp add: File_AllocateLock_def fileLoop_lowest)
  then show ?thesis unfolding full using assms low by (auto simp: File_AllocateLock_def)
qed

theorem file_alloc_ends_witness:
  "\<exists>r. File_AllocateLock None \<lparr>fl_valid = True, fl_files = (\<lambda>w. w = 0)\<rparr> = Some r"
proof -
  have "\<not> fl_files \<lparr>fl_valid = True, fl_files = (\<lambda>w. w = (0 :: 32 word))\<rparr> 1" by simp
  with file_alloc_ends[of "\<lparr>fl_valid = True, fl_files = (\<lambda>w. w = 0)\<rparr>"] show ?thesis
    unfolding FileLocks.select_convs by blast
qed

end
