(* ===== verification/ContainerGraph.thy ===== *)
theory ContainerGraph
  imports Types
begin

text \<open>
  The dependency graph of a set of containers (\<^verbatim>\<open>src/libpod/container_graph.go\<close>). Nodes are named by the
  identifier of their container; a pointer to a node is its identifier. Go does not specify the
  order in which a map is iterated: the orders are parameters, lists with all keys of the map.
\<close>

record containerNode =
  cn_id :: string
  cn_container :: Container
  cn_dependsOn :: "string list"
  cn_dependedOn :: "string list"

record ContainerGraph =
  cg_nodes :: "string \<rightharpoonup> containerNode"
  cg_noDepNodes :: "string list"
  cg_notDependedOnNodes :: "string set"

definition deps_of :: "ContainerGraph \<Rightarrow> string \<Rightarrow> string list" where
  "deps_of g n = (case cg_nodes g n of None \<Rightarrow> [] | Some node \<Rightarrow> cn_dependsOn node)"

definition users_of :: "ContainerGraph \<Rightarrow> string \<Rightarrow> string list" where
  "users_of g n = (case cg_nodes g n of None \<Rightarrow> [] | Some node \<Rightarrow> cn_dependedOn node)"

definition DependencyMap :: "ContainerGraph \<Rightarrow> string \<rightharpoonup> Container list" where
  "DependencyMap g = (\<lambda>n. map_option
     (\<lambda>node. map (\<lambda>d. cn_container (the (cg_nodes g d))) (cn_dependsOn node)) (cg_nodes g n))"

section \<open>Building the graph\<close>

definition addNode :: "Container \<Rightarrow> ContainerGraph \<Rightarrow> ContainerGraph" where
  "addNode ctr g =
     g\<lparr>cg_nodes := (cg_nodes g)(ctr_ID ctr \<mapsto>
          \<lparr>cn_id = ctr_ID ctr, cn_container = ctr, cn_dependsOn = [], cn_dependedOn = []\<rparr>),
       cg_notDependedOnNodes := insert (ctr_ID ctr) (cg_notDependedOnNodes g)\<rparr>"

text \<open>The node and the node of the dependency are one object when a container depends on itself.\<close>

definition addEdge :: "string \<Rightarrow> string \<Rightarrow> ContainerGraph \<Rightarrow> error + ContainerGraph" where
  "addEdge n dep g =
     (if cg_nodes g dep = None then Inl ErrNoSuchCtr
      else
        let nodes1 = (case cg_nodes g n of
                        None \<Rightarrow> cg_nodes g
                      | Some node \<Rightarrow> (cg_nodes g)(n \<mapsto> node\<lparr>cn_dependsOn := cn_dependsOn node @ [dep]\<rparr>));
            nodes2 = (case nodes1 dep of
                        None \<Rightarrow> nodes1
                      | Some node \<Rightarrow> nodes1(dep \<mapsto> node\<lparr>cn_dependedOn := cn_dependedOn node @ [n]\<rparr>))
        in Inr (g\<lparr>cg_nodes := nodes2, cg_notDependedOnNodes := cg_notDependedOnNodes g - {dep}\<rparr>))"

definition addEdges :: "string \<Rightarrow> ContainerGraph \<Rightarrow> error + ContainerGraph" where
  "addEdges n g =
     (case cg_nodes g n of
        None \<Rightarrow> Inr g
      | Some node \<Rightarrow>
          let deps = Dependencies (cn_container node) in
          bindE (foldE (addEdge n) deps g) (\<lambda>g'.
            Inr (if deps = [] then g'\<lparr>cg_noDepNodes := cg_noDepNodes g' @ [n]\<rparr> else g')))"

section \<open>Cycle detection\<close>

record nodeInfo =
  ni_index :: nat
  ni_lowLink :: nat
  ni_onStack :: bool

record Tarjan =
  tj_index :: nat
  tj_nodes :: "string \<rightharpoonup> nodeInfo"
  tj_stack :: "string list"

text \<open>
  A loop whose body may end the surrounding function, with an error or with the answer that there is a cycle.
  The outer option is \<open>None\<close> when the fuel of the recursion is used up.
\<close>

fun loopUntil :: "('a \<Rightarrow> 's \<Rightarrow> ('s \<times> (error + bool)) option) \<Rightarrow> 'a list \<Rightarrow> 's \<Rightarrow> ('s \<times> (error + bool)) option" where
  "loopUntil f [] s = Some (s, Inr False)"
| "loopUntil f (x # xs) s =
     (case f x s of
        None \<Rightarrow> None
      | Some (s', r) \<Rightarrow> if r = Inr False then loopUntil f xs s' else Some (s', r))"

definition pushNode :: "string \<Rightarrow> Tarjan \<Rightarrow> Tarjan" where
  "pushNode n st =
     st\<lparr>tj_index := tj_index st + 1,
        tj_nodes := (tj_nodes st)(n \<mapsto> \<lparr>ni_index = tj_index st, ni_lowLink = tj_index st, ni_onStack = True\<rparr>),
        tj_stack := n # tj_stack st\<rparr>"

text \<open>The low link of a node is lowered when the value is smaller.\<close>

definition lowerLink :: "string \<Rightarrow> nat \<Rightarrow> Tarjan \<Rightarrow> Tarjan" where
  "lowerLink n v st =
     (case tj_nodes st n of
        None \<Rightarrow> st
      | Some info \<Rightarrow>
          if v < ni_lowLink info then st\<lparr>tj_nodes := (tj_nodes st)(n \<mapsto> info\<lparr>ni_lowLink := v\<rparr>)\<rparr> else st)"

definition popNode :: "string \<Rightarrow> Tarjan \<Rightarrow> Tarjan \<times> (error + bool)" where
  "popNode n st =
     (case tj_nodes st n of
        None \<Rightarrow> (st, Inr False)
      | Some info \<Rightarrow>
          if ni_lowLink info = ni_index info then
            (case tj_stack st of
               [] \<Rightarrow> (st, Inl ErrInternal)
             | topOfStack # rest \<Rightarrow>
                 (case tj_nodes st topOfStack of
                    None \<Rightarrow> (st\<lparr>tj_stack := rest\<rparr>, Inl ErrInternal)
                  | Some topInfo \<Rightarrow>
                      (st\<lparr>tj_stack := rest, tj_nodes := (tj_nodes st)(topOfStack \<mapsto> topInfo\<lparr>ni_onStack := False\<rparr>)\<rparr>,
                       Inr (topOfStack \<noteq> n))))
          else (st, Inr False))"

text \<open>One successor of a node, with the function for the nodes that were not visited yet.\<close>

definition visitSuccessor ::
  "(string \<Rightarrow> Tarjan \<Rightarrow> (Tarjan \<times> (error + bool)) option) \<Rightarrow> string \<Rightarrow> string \<Rightarrow> Tarjan \<Rightarrow> (Tarjan \<times> (error + bool)) option" where
  "visitSuccessor connect n succ st =
     (case tj_nodes st succ of
        None \<Rightarrow>
          (case connect succ st of
             None \<Rightarrow> None
           | Some (st', r) \<Rightarrow>
               if r = Inr False
               then Some (case tj_nodes st' succ of None \<Rightarrow> st' | Some info \<Rightarrow> lowerLink n (ni_lowLink info) st', Inr False)
               else Some (st', r))
      | Some info \<Rightarrow> Some (if ni_onStack info then lowerLink n (ni_index info) st else st, Inr False))"

primrec strongConnect :: "ContainerGraph \<Rightarrow> nat \<Rightarrow> string \<Rightarrow> Tarjan \<Rightarrow> (Tarjan \<times> (error + bool)) option" where
  "strongConnect g 0 n st = None"
| "strongConnect g (Suc fuel) n st =
     (case loopUntil (visitSuccessor (strongConnect g fuel) n) (deps_of g n) (pushNode n st) of
        None \<Rightarrow> None
      | Some (st', r) \<Rightarrow> Some (if r = Inr False then popNode n st' else (st', r)))"

definition detectCycles :: "ContainerGraph \<Rightarrow> string list \<Rightarrow> (error + bool) option" where
  "detectCycles g order =
     map_option snd (loopUntil
       (\<lambda>n st. if tj_nodes st n = None then strongConnect g (length order) n st else Some (st, Inr False))
       order \<lparr>tj_index = 0, tj_nodes = Map.empty, tj_stack = []\<rparr>)"

definition BuildContainerGraph ::
  "string list \<Rightarrow> string list \<Rightarrow> Container list \<Rightarrow> (error + ContainerGraph) option" where
  "BuildContainerGraph order order' ctrs =
     (case foldE addEdges order
             (fold addNode ctrs \<lparr>cg_nodes = Map.empty, cg_noDepNodes = [], cg_notDependedOnNodes = {}\<rparr>) of
        Inl e \<Rightarrow> Some (Inl e)
      | Inr g \<Rightarrow>
          map_option (\<lambda>r. case r of
              Inl e \<Rightarrow> Inl e
            | Inr cycle \<Rightarrow> if cycle then Inl ErrInternal else Inr g) (detectCycles g order'))"

end
