(* ===== verification/GraphWalk.thy ===== *)
theory GraphWalk
  imports ContainerGraph
begin

text \<open>
  Walks along the dependency graph (\<^verbatim>\<open>src/libpod/container_graph.go\<close>): \<open>startNode\<close> starts containers after their
  dependencies, \<open>removeNode\<close> removes them after the containers that depend on them. The operations on
  one container (checking its dependencies, synchronising, starting, removing) are arguments, on a state of any type.
  The map \<open>ctrsVisited\<close> is the list of its keys, the last one first.
\<close>

record 'w ctrOps =
  co_checkDeps :: "string \<Rightarrow> 'w \<Rightarrow> 'w \<times> (error + string list)"
  co_sync :: "string \<Rightarrow> 'w \<Rightarrow> 'w \<times> error option"
  co_State :: "string \<Rightarrow> 'w \<Rightarrow> ContainerStatus"
  co_isInit :: "string \<Rightarrow> bool"
  co_initAndStart :: "string \<Rightarrow> 'w \<Rightarrow> 'w \<times> error option"
  co_restart :: "string \<Rightarrow> 'w \<Rightarrow> 'w \<times> error option"
  co_exists :: "string \<Rightarrow> 'w \<Rightarrow> bool"
  co_dropInfra :: "string \<Rightarrow> 'w \<Rightarrow> 'w \<times> error option"
  co_remove :: "string \<Rightarrow> 'w \<Rightarrow> 'w \<times> error option"

record 'w Traversal =
  tv_world :: 'w
  tv_visited :: "string list"
  tv_errors :: "string \<rightharpoonup> error"
  tv_volumes :: "string \<rightharpoonup> ContainerNamedVolume"

text \<open>A loop whose body may run out of fuel.\<close>

fun foldO :: "('a \<Rightarrow> 's \<Rightarrow> 's option) \<Rightarrow> 'a list \<Rightarrow> 's \<Rightarrow> 's option" where
  "foldO f [] s = Some s"
| "foldO f (x # xs) s = Option.bind (f x s) (foldO f xs)"

section \<open>The dependencies of a container\<close>

text \<open>The argument \<open>get\<close> looks up a container and gives its state and whether it is an infra container.\<close>

fun checkDeps ::
  "(string \<Rightarrow> 'w \<Rightarrow> 'w \<times> (error + ContainerStatus \<times> bool)) \<Rightarrow> string list \<Rightarrow> string list \<Rightarrow> 'w \<Rightarrow> 'w \<times> (error + string list)" where
  "checkDeps get [] notRunning w = (w, Inr notRunning)"
| "checkDeps get (dep # deps) notRunning w =
     (case get dep w of
        (w', Inl e) \<Rightarrow> (w', Inl e)
      | (w', Inr (state, isInfra)) \<Rightarrow>
          checkDeps get deps
            (if state \<noteq> ContainerStateRunning \<and> \<not> isInfra then notRunning @ [dep] else notRunning) w')"

definition checkDependenciesRunning ::
  "(string \<Rightarrow> 'w \<Rightarrow> 'w \<times> (error + ContainerStatus \<times> bool)) \<Rightarrow> Container \<Rightarrow> 'w \<Rightarrow> 'w \<times> (error + string list)" where
  "checkDependenciesRunning get c w = checkDeps get (Dependencies c) [] w"

section \<open>Starting\<close>

definition startActions :: "'w ctrOps \<Rightarrow> bool \<Rightarrow> string \<Rightarrow> 'w \<Rightarrow> 'w \<times> error option" where
  "startActions ops restart n w =
     (let (w1, depsStopped) = co_checkDeps ops n w;
          err1 = (case depsStopped of
                    Inl e \<Rightarrow> Some e
                  | Inr stopped \<Rightarrow> if stopped \<noteq> [] then Some ErrCtrStateInvalid else None);
          (w2, err2) = (if err1 = None then co_sync ops n w1 else (w1, err1))
      in if err2 = None \<and> \<not> co_isInit ops n then
           let (w3, err3) = (if \<not> restart \<and> co_State ops n w2 \<noteq> ContainerStateRunning
                             then co_initAndStart ops n w2 else (w2, None))
           in if restart \<and> co_State ops n w3 \<noteq> ContainerStatePaused \<and> co_State ops n w3 \<noteq> ContainerStateUnknown
              then co_restart ops n w3 else (w3, err3)
         else (w2, err2))"

definition setErr :: "string \<Rightarrow> error option \<Rightarrow> 'w Traversal \<Rightarrow> 'w Traversal" where
  "setErr n err tv = (case err of None \<Rightarrow> tv | Some e \<Rightarrow> tv\<lparr>tv_errors := (tv_errors tv)(n \<mapsto> e)\<rparr>)"

primrec startNode ::
  "'w ctrOps \<Rightarrow> ContainerGraph \<Rightarrow> bool \<Rightarrow> nat \<Rightarrow> bool \<Rightarrow> string \<Rightarrow> 'w Traversal \<Rightarrow> 'w Traversal option" where
  "startNode ops g restart 0 setError n tv = None"
| "startNode ops g restart (Suc fuel) setError n tv =
     (if n \<in> set (tv_visited tv) then Some tv
      else if setError then
        foldO (startNode ops g restart fuel True) (users_of g n)
          (setErr n (Some ErrCtrStateInvalid) (tv\<lparr>tv_visited := n # tv_visited tv\<rparr>))
      else if \<not> list_all (\<lambda>d. d \<in> set (tv_visited tv)) (deps_of g n) then Some tv
      else
        (case startActions ops restart n (tv_world tv) of
           (w, err) \<Rightarrow>
             foldO (startNode ops g restart fuel (err \<noteq> None)) (users_of g n)
               (setErr n err (tv\<lparr>tv_visited := n # tv_visited tv, tv_world := w\<rparr>))))"

definition startTraversal :: "'w \<Rightarrow> 'w Traversal" where
  "startTraversal w = \<lparr>tv_world = w, tv_visited = [], tv_errors = Map.empty, tv_volumes = Map.empty\<rparr>"

text \<open>The walk of \<open>Start\<close> and \<open>Restart\<close> of a pod; the fuel is more than the number of nodes.\<close>

definition startNodes :: "'w ctrOps \<Rightarrow> ContainerGraph \<Rightarrow> bool \<Rightarrow> nat \<Rightarrow> 'w \<Rightarrow> 'w Traversal option" where
  "startNodes ops g restart count w =
     foldO (startNode ops g restart (Suc count) False) (cg_noDepNodes g) (startTraversal w)"

definition startContainers ::
  "'w ctrOps \<Rightarrow> bool \<Rightarrow> string list \<Rightarrow> string list \<Rightarrow> Container list \<Rightarrow> 'w \<Rightarrow> ('w \<times> (error + (string \<rightharpoonup> error))) option" where
  "startContainers ops restart order order' ctrs w =
     (case BuildContainerGraph order order' ctrs of
        None \<Rightarrow> None
      | Some (Inl e) \<Rightarrow> Some (w, Inl e)
      | Some (Inr g) \<Rightarrow>
          if cg_noDepNodes g = [] then Some (w, Inl ErrNoSuchCtr)
          else map_option (\<lambda>tv. (tv_world tv, Inr (tv_errors tv))) (startNodes ops g restart (length order) w))"

section \<open>Removing\<close>

text \<open>The named volumes are collected when the container can be synchronised.\<close>

definition removeActions ::
  "'w ctrOps \<Rightarrow> ContainerGraph \<Rightarrow> string \<Rightarrow> 'w Traversal \<Rightarrow> 'w Traversal \<times> error option" where
  "removeActions ops g n tv =
     (let err1 = (if list_ex (\<lambda>d. co_exists ops d (tv_world tv)) (users_of g n) then Some ErrDepExists else None);
          (w2, err2) = (if err1 = None then co_sync ops n (tv_world tv) else (tv_world tv, err1));
          vols = (case cg_nodes g n of None \<Rightarrow> [] | Some node \<Rightarrow> cfg_NamedVolumes (ctr_config (cn_container node)));
          (w3, err3) = (if err2 = None then co_dropInfra ops n w2 else (w2, err2));
          (w4, err4) = (if err3 = None then co_remove ops n w3 else (w3, err3))
      in (tv\<lparr>tv_world := w4,
             tv_volumes := (if err2 = None then fold (\<lambda>v m. m(nv_Name v \<mapsto> v)) vols (tv_volumes tv) else tv_volumes tv)\<rparr>,
          err4))"

definition markVisited :: "string \<Rightarrow> 'w Traversal \<Rightarrow> 'w Traversal" where
  "markVisited n tv = (if n \<in> set (tv_visited tv) then tv else tv\<lparr>tv_visited := n # tv_visited tv\<rparr>)"

text \<open>The branch for an error does not return: the removal is tried all the same.\<close>

primrec removeNode ::
  "'w ctrOps \<Rightarrow> ContainerGraph \<Rightarrow> nat \<Rightarrow> bool \<Rightarrow> string \<Rightarrow> 'w Traversal \<Rightarrow> 'w Traversal option" where
  "removeNode ops g 0 setError n tv = None"
| "removeNode ops g (Suc fuel) setError n tv =
     (if n \<in> set (tv_visited tv) then Some tv
      else
        Option.bind
          (if setError then
             foldO (removeNode ops g fuel True) (deps_of g n)
               (setErr n (Some ErrCtrStateInvalid) (markVisited n tv))
           else Some tv)
          (\<lambda>tv.
             if \<not> list_all (\<lambda>d. d \<in> set (tv_visited tv)) (users_of g n) then Some tv
             else
               (case removeActions ops g n (markVisited n tv) of
                  (tv', err) \<Rightarrow> foldO (removeNode ops g fuel (err \<noteq> None)) (deps_of g n) (setErr n err tv'))))"

definition removeNodes :: "'w ctrOps \<Rightarrow> ContainerGraph \<Rightarrow> string list \<Rightarrow> nat \<Rightarrow> 'w \<Rightarrow> 'w Traversal option" where
  "removeNodes ops g notDependedOn count w =
     foldO (removeNode ops g (Suc count) False) notDependedOn (startTraversal w)"

end
