(* ===== verification/GraphCycles.thy ===== *)
theory GraphCycles
  imports ContainerGraph
begin

text \<open>
  Correctness of the cycle detection: the invariant of Tarjan's algorithm up to the first cycle.
  A node is \<^emph>\<open>open\<close> while the call for it runs, and \<^emph>\<open>popped\<close> when it has left the stack.
\<close>

abbreviation edges :: "ContainerGraph \<Rightarrow> (string \<times> string) set" where
  "edges g \<equiv> {(u, v). v \<in> set (deps_of g u)}"

text \<open>A cycle through at least two nodes.\<close>

definition proper_cycle :: "ContainerGraph \<Rightarrow> string \<Rightarrow> bool" where
  "proper_cycle g x \<longleftrightarrow> (\<exists>y. y \<noteq> x \<and> (x, y) \<in> (edges g)\<^sup>* \<and> (y, x) \<in> (edges g)\<^sup>*)"

definition idx :: "Tarjan \<Rightarrow> string \<Rightarrow> nat" where
  "idx st x = ni_index (the (tj_nodes st x))"

definition low :: "Tarjan \<Rightarrow> string \<Rightarrow> nat" where
  "low st x = ni_lowLink (the (tj_nodes st x))"

definition popped :: "Tarjan \<Rightarrow> string \<Rightarrow> bool" where
  "popped st x \<longleftrightarrow> (\<exists>i. tj_nodes st x = Some i \<and> \<not> ni_onStack i)"

definition stack_ok :: "ContainerGraph \<Rightarrow> string set \<Rightarrow> Tarjan \<Rightarrow> bool" where
  "stack_ok g opened st \<longleftrightarrow>
     distinct (tj_stack st) \<and> opened \<subseteq> set (tj_stack st) \<and>
     (\<forall>x. x \<in> set (tj_stack st) \<longleftrightarrow> (\<exists>i. tj_nodes st x = Some i \<and> ni_onStack i)) \<and>
     (\<forall>x i. tj_nodes st x = Some i \<longrightarrow> ni_index i < tj_index st) \<and>
     sorted_wrt (\<lambda>x y. idx st y < idx st x) (tj_stack st) \<and>
     (\<forall>x \<in> set (tj_stack st). low st x \<le> idx st x \<and>
        (\<exists>w \<in> set (tj_stack st). idx st w = low st x \<and> (x, w) \<in> (edges g)\<^sup>*)) \<and>
     (\<forall>x \<in> set (tj_stack st) - opened. low st x < idx st x)"

definition popped_ok :: "ContainerGraph \<Rightarrow> Tarjan \<Rightarrow> bool" where
  "popped_ok g st \<longleftrightarrow>
     (\<forall>x. popped st x \<longrightarrow> \<not> proper_cycle g x \<and> (\<forall>y \<in> set (deps_of g x). y = x \<or> popped st y))"

lemma stack_okD:
  assumes "stack_ok g opened st"
  shows "distinct (tj_stack st)" "opened \<subseteq> set (tj_stack st)"
    and "x \<in> set (tj_stack st) \<longleftrightarrow> (\<exists>i. tj_nodes st x = Some i \<and> ni_onStack i)"
    and "tj_nodes st x = Some i \<Longrightarrow> ni_index i < tj_index st"
    and "sorted_wrt (\<lambda>x y. idx st y < idx st x) (tj_stack st)"
    and "x \<in> set (tj_stack st) \<Longrightarrow> low st x \<le> idx st x"
    and "x \<in> set (tj_stack st) \<Longrightarrow> \<exists>w \<in> set (tj_stack st). idx st w = low st x \<and> (x, w) \<in> (edges g)\<^sup>*"
    and "x \<in> set (tj_stack st) \<Longrightarrow> x \<notin> opened \<Longrightarrow> low st x < idx st x"
  using assms unfolding stack_ok_def by blast+

lemma stack_okI:
  assumes "distinct (tj_stack st)" "opened \<subseteq> set (tj_stack st)"
    and "\<And>x. x \<in> set (tj_stack st) \<longleftrightarrow> (\<exists>i. tj_nodes st x = Some i \<and> ni_onStack i)"
    and "\<And>x i. tj_nodes st x = Some i \<Longrightarrow> ni_index i < tj_index st"
    and "sorted_wrt (\<lambda>x y. idx st y < idx st x) (tj_stack st)"
    and "\<And>x. x \<in> set (tj_stack st) \<Longrightarrow> low st x \<le> idx st x"
    and "\<And>x. x \<in> set (tj_stack st) \<Longrightarrow> \<exists>w \<in> set (tj_stack st). idx st w = low st x \<and> (x, w) \<in> (edges g)\<^sup>*"
    and "\<And>x. x \<in> set (tj_stack st) \<Longrightarrow> x \<notin> opened \<Longrightarrow> low st x < idx st x"
  shows "stack_ok g opened st"
  using assms unfolding stack_ok_def by blast

text \<open>Every node on the stack reaches an open one.\<close>

lemma stack_reaches:
  assumes "stack_ok g opened st" "x \<in> set (tj_stack st)"
  shows "\<exists>w \<in> opened. (x, w) \<in> (edges g)\<^sup>*"
  using assms(2)
proof (induction "idx st x" arbitrary: x rule: less_induct)
  case less
  show ?case
  proof (cases "x \<in> opened")
    case False
    then have "low st x < idx st x" by (rule stack_okD(8)[OF assms(1) less.prems])
    moreover obtain w where "w \<in> set (tj_stack st)" "idx st w = low st x" "(x, w) \<in> (edges g)\<^sup>*"
      using stack_okD(7)[OF assms(1) less.prems] by blast
    ultimately show ?thesis using less.hyps[of w] rtrancl_trans by metis
  qed auto
qed

lemma push_stack_ok:
  assumes "stack_ok g opened st" "tj_nodes st v = None"
  shows "stack_ok g (insert v opened) (pushNode v st)"
proof (rule stack_okI)
  let ?st = "pushNode v st"
  note ok = stack_okD[OF assms(1)]
  have stk: "tj_stack ?st = v # tj_stack st" by (simp add: pushNode_def)
  have ne: "x \<noteq> v" if "x \<in> set (tj_stack st)" for x using that ok(3)[of x] assms(2) by auto
  have old: "idx ?st x = idx st x" "low ?st x = low st x" if "x \<in> set (tj_stack st)" for x
    using ne[OF that] by (simp_all add: idx_def low_def pushNode_def)
  have new: "idx ?st v = tj_index st" "low ?st v = tj_index st" by (simp_all add: idx_def low_def pushNode_def)
  have lt: "idx st x < tj_index st" if "x \<in> set (tj_stack st)" for x
    using that ok(3)[of x] ok(4)[of x] by (auto simp: idx_def)
  show "distinct (tj_stack ?st)" using ok(1) ne by (auto simp: stk)
  show "insert v opened \<subseteq> set (tj_stack ?st)" using ok(2) by (auto simp: stk)
  show "x \<in> set (tj_stack ?st) \<longleftrightarrow> (\<exists>i. tj_nodes ?st x = Some i \<and> ni_onStack i)" for x
    using ok(3)[of x] by (auto simp: stk pushNode_def)
  show "ni_index i < tj_index ?st" if "tj_nodes ?st x = Some i" for x i
    using that ok(4)[of x i] by (auto simp: pushNode_def split: if_splits)
  have "sorted_wrt (\<lambda>x y. idx ?st y < idx ?st x) (tj_stack st)"
    by (rule sorted_wrt_mono_rel[OF _ ok(5)]) (simp add: old)
  then show "sorted_wrt (\<lambda>x y. idx ?st y < idx ?st x) (tj_stack ?st)" using lt by (simp add: stk old new)
  show "low ?st x \<le> idx ?st x" if "x \<in> set (tj_stack ?st)" for x
    using that ok(6)[of x] by (cases "x = v") (auto simp: stk old new)
  show "\<exists>w \<in> set (tj_stack ?st). idx ?st w = low ?st x \<and> (x, w) \<in> (edges g)\<^sup>*" if "x \<in> set (tj_stack ?st)" for x
  proof (cases "x = v")
    case False
    with that have x: "x \<in> set (tj_stack st)" by (simp add: stk)
    from ok(7)[OF this] obtain w where "w \<in> set (tj_stack st)" "idx st w = low st x" "(x, w) \<in> (edges g)\<^sup>*" by blast
    with x show ?thesis by (intro bexI[of _ w]) (simp_all add: stk old)
  qed (simp add: stk new)
  show "low ?st x < idx ?st x" if "x \<in> set (tj_stack ?st)" "x \<notin> insert v opened" for x
    using that ok(8)[of x] by (auto simp: stk old)
qed

text \<open>The low link of an open node is lowered to the index of a node that it reaches.\<close>

lemma lower_stack_ok:
  assumes "stack_ok g opened st" "n \<in> opened" "w \<in> set (tj_stack st)" "(n, w) \<in> (edges g)\<^sup>*" "k = idx st w"
  shows "stack_ok g opened (lowerLink n k st)"
proof -
  note ok = stack_okD[OF assms(1)]
  have n: "n \<in> set (tj_stack st)" using ok(2) assms(2) by blast
  then obtain i where i: "tj_nodes st n = Some i" "ni_onStack i" using ok(3)[of n] by blast
  show ?thesis
  proof (cases "k < ni_lowLink i")
    case True
    define st' where "st' = lowerLink n k st"
    have st: "st' = st\<lparr>tj_nodes := (tj_nodes st)(n \<mapsto> i\<lparr>ni_lowLink := k\<rparr>)\<rparr>"
      using i True by (simp add: st'_def lowerLink_def)
    have idx: "idx st' = idx st" using i by (auto simp: idx_def st fun_eq_iff)
    have low: "low st' x = (if x = n then k else low st x)" for x by (simp add: low_def st)
    have stk: "tj_stack st' = tj_stack st" by (simp add: st)
    have "k \<le> idx st n" using True i ok(6)[OF n] by (simp add: low_def)
    have "stack_ok g opened st'"
    proof (rule stack_okI)
      show "x \<in> set (tj_stack st') \<longleftrightarrow> (\<exists>i. tj_nodes st' x = Some i \<and> ni_onStack i)" for x
        using ok(3)[of x] i by (auto simp: st)
      show "ni_index j < tj_index st'" if "tj_nodes st' x = Some j" for x j
        using that ok(4)[of x] i by (auto simp: st split: if_splits)
      show "\<exists>w \<in> set (tj_stack st'). idx st' w = low st' x \<and> (x, w) \<in> (edges g)\<^sup>*" if "x \<in> set (tj_stack st')" for x
        using that ok(7)[of x] assms(3-5) by (auto simp: idx low stk)
      show "low st' x < idx st' x" if "x \<in> set (tj_stack st')" "x \<notin> opened" for x
        using that ok(8)[of x] assms(2) by (auto simp: idx low stk)
    qed (use ok(1,2,5,6) \<open>k \<le> idx st n\<close> in \<open>auto simp: idx low stk\<close>)
    then show ?thesis by (simp add: st'_def)
  qed (use assms i in \<open>simp add: lowerLink_def\<close>)
qed

lemma lower_same [simp]:
  "tj_stack (lowerLink n k st) = tj_stack st" "tj_index (lowerLink n k st) = tj_index st"
  "x \<noteq> n \<Longrightarrow> tj_nodes (lowerLink n k st) x = tj_nodes st x"
  by (simp_all add: lowerLink_def split: option.split)

lemma lower_node:
  "tj_nodes st n = Some i \<Longrightarrow> tj_nodes (lowerLink n k st) n = Some (i\<lparr>ni_lowLink := min k (ni_lowLink i)\<rparr>)"
  by (cases i) (auto simp: lowerLink_def min_def)

lemma lower_popped [simp]: "popped (lowerLink n k st) x = popped st x"
  by (auto simp: popped_def lowerLink_def split: option.split)

lemma lower_popped_ok [simp]: "popped_ok g (lowerLink n k st) = popped_ok g st"
  by (simp add: popped_ok_def)

text \<open>A node whose successors are all popped is on no cycle.\<close>

lemma no_cycle_above_popped:
  assumes "popped_ok g st" "\<not> popped st v" "\<forall>y \<in> set (deps_of g v). y = v \<or> popped st y"
  shows "\<not> proper_cycle g v"
proof
  have closed: "popped st y \<longrightarrow> popped st z" if "(y, z) \<in> (edges g)\<^sup>*" for y z
    using that by (induction rule: rtrancl_induct) (use assms(1) in \<open>auto simp: popped_ok_def\<close>)
  have reach: "z = v \<or> popped st z" if "(v, z) \<in> (edges g)\<^sup>*" for z
    using that by (induction rule: rtrancl_induct) (use assms(1,3) in \<open>auto simp: popped_ok_def\<close>)
  assume "proper_cycle g v"
  then obtain y where "y \<noteq> v" "(v, y) \<in> (edges g)\<^sup>*" "(y, v) \<in> (edges g)\<^sup>*" by (auto simp: proper_cycle_def)
  with reach closed assms(2) show False by blast
qed

section \<open>The calls\<close>

definition tinv :: "ContainerGraph \<Rightarrow> string set \<Rightarrow> Tarjan \<Rightarrow> bool" where
  "tinv g opened st \<longleftrightarrow> stack_ok g opened st \<and> popped_ok g st"

text \<open>What a call for the node \<open>v\<close> that finds no cycle has done.\<close>

definition connected :: "ContainerGraph \<Rightarrow> string \<Rightarrow> string set \<Rightarrow> Tarjan \<Rightarrow> Tarjan \<Rightarrow> bool" where
  "connected g v opened st st' \<longleftrightarrow>
     tinv g opened st' \<and> tj_nodes st \<subseteq>\<^sub>m tj_nodes st' \<and>
     (\<exists>new. tj_stack st' = new @ tj_stack st \<and> (\<forall>x \<in> set new. (v, x) \<in> (edges g)\<^sup>*)) \<and>
     (\<exists>i. tj_nodes st' v = Some i \<and> ni_index i = tj_index st \<and> (\<not> ni_onStack i \<longrightarrow> ni_lowLink i = ni_index i))"

text \<open>The loop over the successors of \<open>v\<close>, after the successors \<open>dn\<close>.\<close>

definition connecting :: "ContainerGraph \<Rightarrow> string \<Rightarrow> string set \<Rightarrow> Tarjan \<Rightarrow> string set \<Rightarrow> Tarjan \<Rightarrow> bool" where
  "connecting g v opened st0 dn st \<longleftrightarrow>
     tinv g (insert v opened) st \<and> tj_nodes st0 \<subseteq>\<^sub>m tj_nodes st \<and>
     (\<exists>new. tj_stack st = new @ v # tj_stack st0 \<and> (\<forall>x \<in> set new. (v, x) \<in> (edges g)\<^sup>*)) \<and>
     (\<exists>l. tj_nodes st v = Some \<lparr>ni_index = tj_index st0, ni_lowLink = l, ni_onStack = True\<rparr> \<and>
        (\<forall>s \<in> dn. \<exists>i. tj_nodes st s = Some i \<and> (ni_onStack i \<and> ni_index i < tj_index st0 \<longrightarrow> l \<le> ni_index i)))"

definition unvisited :: "string set \<Rightarrow> Tarjan \<Rightarrow> string set" where
  "unvisited N st = {n \<in> N. tj_nodes st n = None}"

text \<open>A call ends with an answer; \<open>True\<close> is given for a cycle.\<close>

definition answers :: "ContainerGraph \<Rightarrow> (Tarjan \<times> (error + bool)) option \<Rightarrow> (Tarjan \<Rightarrow> bool) \<Rightarrow> bool" where
  "answers g r P \<longleftrightarrow> (\<exists>st' b. r = Some (st', Inr b) \<and> (b \<longrightarrow> (\<exists>x. proper_cycle g x)) \<and> (\<not> b \<longrightarrow> P st'))"

lemma answers_Some [simp]:
  "answers g (Some (st, Inr b)) P \<longleftrightarrow> (if b then \<exists>x. proper_cycle g x else P st)"
  by (auto simp: answers_def)

lemma answers_mono: "answers g r P \<Longrightarrow> (\<And>st. P st \<Longrightarrow> Q st) \<Longrightarrow> answers g r Q"
  unfolding answers_def by blast

lemma answers_loop:
  assumes "P [] s"
    and "\<And>dn x s. P dn s \<Longrightarrow> x \<in> set xs \<Longrightarrow> answers g (f x s) (P (dn @ [x]))"
  shows "answers g (loopUntil f xs s) (P xs)"
proof -
  have "answers g (loopUntil f ys s) (P (dn @ ys))" if "P dn s" "set ys \<subseteq> set xs" for dn ys
    using that
  proof (induction ys arbitrary: dn s)
    case (Cons y ys)
    from assms(2)[OF Cons.prems(1), of y] Cons.prems(2) obtain st' b where
      r: "f y s = Some (st', Inr b)" "b \<Longrightarrow> \<exists>x. proper_cycle g x" "\<not> b \<Longrightarrow> P (dn @ [y]) st'" by (auto simp: answers_def)
    show ?case
    proof (cases b)
      case False
      from Cons.IH[OF r(3)[OF False]] Cons.prems(2) r(1) False show ?thesis by simp
    qed (use r in simp)
  qed simp
  from this[OF assms(1), of xs] show ?thesis by simp
qed

lemma connecting_start:
  assumes "tinv g opened st" "tj_nodes st v = None"
  shows "connecting g v opened st {} (pushNode v st)"
proof -
  have "popped (pushNode v st) x = popped st x" for x using assms(2) by (auto simp: popped_def pushNode_def)
  then have "popped_ok g (pushNode v st)" using assms(1) by (simp add: tinv_def popped_ok_def)
  moreover have "tj_nodes st \<subseteq>\<^sub>m tj_nodes (pushNode v st)" using assms(2) by (auto simp: map_le_def pushNode_def)
  ultimately show ?thesis unfolding connecting_def tinv_def
    using assms push_stack_ok by (auto simp: tinv_def pushNode_def)
qed

lemma connecting_lower:
  assumes "connecting g v opened st0 dn st" "w \<in> set (tj_stack st)" "(v, w) \<in> (edges g)\<^sup>*" "k = idx st w"
    and "tj_nodes st s = Some i" "ni_onStack i \<Longrightarrow> ni_index i < tj_index st0 \<Longrightarrow> k \<le> ni_index i"
    and "tj_nodes st0 v = None"
  shows "connecting g v opened st0 (insert s dn) (lowerLink v k st)"
proof -
  from assms(1) obtain l where l: "tj_nodes st v = Some \<lparr>ni_index = tj_index st0, ni_lowLink = l, ni_onStack = True\<rparr>"
    "\<And>d. d \<in> dn \<Longrightarrow> \<exists>i. tj_nodes st d = Some i \<and> (ni_onStack i \<and> ni_index i < tj_index st0 \<longrightarrow> l \<le> ni_index i)"
    unfolding connecting_def by blast
  have "tinv g (insert v opened) (lowerLink v k st)"
    using assms(1-4) lower_stack_ok[of g "insert v opened" st v w k] by (simp add: connecting_def tinv_def)
  moreover have "tj_nodes st0 \<subseteq>\<^sub>m tj_nodes (lowerLink v k st)"
    using assms(1,7) lower_same(3)[of _ v k st] unfolding connecting_def map_le_def by (metis domIff)
  moreover have v: "tj_nodes (lowerLink v k st) v = Some \<lparr>ni_index = tj_index st0, ni_lowLink = min k l, ni_onStack = True\<rparr>"
    using lower_node[OF l(1), of k] by simp
  moreover have "\<exists>i. tj_nodes (lowerLink v k st) d = Some i \<and> (ni_onStack i \<and> ni_index i < tj_index st0 \<longrightarrow> min k l \<le> ni_index i)"
    if "d \<in> insert s dn" for d
  proof (cases "d = v")
    case False
    with that l(2)[of d] assms(5,6) show ?thesis by (auto simp: min_le_iff_disj)
  qed (simp add: v)
  ultimately show ?thesis using assms(1) unfolding connecting_def lower_same by blast
qed

lemma connecting_skip:
  assumes "connecting g v opened st0 dn st" "tj_nodes st s = Some i" "\<not> (ni_onStack i \<and> ni_index i < tj_index st0)"
  shows "connecting g v opened st0 (insert s dn) st"
  using assms unfolding connecting_def by auto

lemma connecting_reach:
  assumes "connecting g v opened st0 dn st" "\<forall>y \<in> set (tj_stack st0). (y, v) \<in> (edges g)\<^sup>*" "y \<in> set (tj_stack st)"
    and "opened \<subseteq> set (tj_stack st0)"
  shows "(y, v) \<in> (edges g)\<^sup>*"
proof -
  from stack_reaches[OF _ assms(3)] assms(1) obtain w where w: "w \<in> insert v opened" "(y, w) \<in> (edges g)\<^sup>*"
    unfolding connecting_def tinv_def by blast
  with assms(2,4) have "(w, v) \<in> (edges g)\<^sup>*" by blast
  with w(2) show ?thesis by (rule rtrancl_trans)
qed

text \<open>The call for a successor that was not visited yet.\<close>

lemma connecting_call:
  assumes "connecting g v opened st0 dn st" "connected g s (insert v opened) st st'" "tj_nodes st s = None"
    and "s \<in> set (deps_of g v)"
  shows "connecting g v opened st0 dn st'"
proof -
  from assms(1) obtain new l where c: "tj_stack st = new @ v # tj_stack st0" "\<forall>x \<in> set new. (v, x) \<in> (edges g)\<^sup>*"
    "tj_nodes st v = Some \<lparr>ni_index = tj_index st0, ni_lowLink = l, ni_onStack = True\<rparr>"
    "\<forall>s \<in> dn. \<exists>i. tj_nodes st s = Some i \<and> (ni_onStack i \<and> ni_index i < tj_index st0 \<longrightarrow> l \<le> ni_index i)"
    "tj_nodes st0 \<subseteq>\<^sub>m tj_nodes st" unfolding connecting_def by blast
  from assms(2) obtain new' where d: "tj_stack st' = new' @ tj_stack st" "\<forall>x \<in> set new'. (s, x) \<in> (edges g)\<^sup>*"
    "tinv g (insert v opened) st'" "tj_nodes st \<subseteq>\<^sub>m tj_nodes st'" unfolding connected_def by blast
  have "(v, x) \<in> (edges g)\<^sup>*" if "x \<in> set new'" for x
    using d(2) that assms(4) by (auto intro: converse_rtrancl_into_rtrancl)
  with c(2) have "\<forall>x \<in> set (new' @ new). (v, x) \<in> (edges g)\<^sup>*" by auto
  moreover have "tj_stack st' = (new' @ new) @ v # tj_stack st0" by (simp add: c(1) d(1))
  moreover have keep: "tj_nodes st' x = Some i" if "tj_nodes st x = Some i" for x i
    using d(4) that by (auto simp: map_le_def dom_def)
  ultimately show ?thesis unfolding connecting_def
    using d(3) map_le_trans[OF c(5) d(4)] keep[OF c(3)] c(4) keep by blast
qed

lemma unvisited_mono:
  assumes "tj_nodes st \<subseteq>\<^sub>m tj_nodes st'" "finite N"
  shows "card (unvisited N st') \<le> card (unvisited N st)"
proof (rule card_mono)
  show "finite (unvisited N st)" using assms(2) by (simp add: unvisited_def)
  have "tj_nodes st n = None" if "tj_nodes st' n = None" for n
    using assms(1) that by (cases "tj_nodes st n") (auto simp: map_le_def dom_def)
  then show "unvisited N st' \<subseteq> unvisited N st" by (auto simp: unvisited_def)
qed

lemma unvisited_lower [simp]: "unvisited N (lowerLink v k st) = unvisited N st"
proof -
  have "tj_nodes (lowerLink v k st) n = None \<longleftrightarrow> tj_nodes st n = None" for n
    by (auto simp: lowerLink_def split: option.splits)
  then show ?thesis by (simp add: unvisited_def)
qed

lemma connecting_low:
  assumes "connecting g v opened st0 dn st" "tj_nodes st v = Some i"
  shows "ni_lowLink i \<le> tj_index st0" "tj_index st0 < tj_index st" "ni_index i = tj_index st0" "v \<in> set (tj_stack st)"
proof -
  show v: "v \<in> set (tj_stack st)" and ix: "ni_index i = tj_index st0" using assms unfolding connecting_def by auto
  have ok: "stack_ok g (insert v opened) st" using assms(1) by (simp add: connecting_def tinv_def)
  show "ni_lowLink i \<le> tj_index st0" using stack_okD(6)[OF ok v] assms(2) ix by (simp add: low_def idx_def)
  show "tj_index st0 < tj_index st" using stack_okD(4)[OF ok assms(2)] ix by simp
qed

text \<open>The low link of a successor after its call.\<close>

lemma connecting_lower_call:
  assumes "connecting g v opened st0 dn st'" "connected g s (insert v opened) st st'"
    and "tj_nodes st' s = Some i" "s \<in> set (deps_of g v)" "tj_nodes st0 v = None" "tj_index st0 < tj_index st"
  shows "connecting g v opened st0 (insert s dn) (lowerLink v (ni_lowLink i) st')"
proof -
  from assms(2,3) have i: "ni_index i = tj_index st" "\<not> ni_onStack i \<longrightarrow> ni_lowLink i = ni_index i"
    by (auto simp: connected_def)
  have ok: "stack_ok g (insert v opened) st'" using assms(1) by (simp add: connecting_def tinv_def)
  show ?thesis
  proof (cases "ni_onStack i")
    case True
    then have "s \<in> set (tj_stack st')" using stack_okD(3)[OF ok, of s] assms(3) by blast
    from stack_okD(7)[OF ok this] obtain w where w: "w \<in> set (tj_stack st')" "idx st' w = ni_lowLink i" "(s, w) \<in> (edges g)\<^sup>*"
      using assms(3) by (auto simp: low_def)
    have "(v, w) \<in> (edges g)\<^sup>*" using w(3) assms(4) by (auto intro: converse_rtrancl_into_rtrancl)
    from connecting_lower[OF assms(1) w(1) this w(2)[symmetric] assms(3) _ assms(5)] show ?thesis using i(1) assms(6) by simp
  next
    case False
    obtain j where j: "tj_nodes st' v = Some j" using assms(1) by (auto simp: connecting_def)
    have "ni_lowLink j \<le> ni_lowLink i" using connecting_low(1)[OF assms(1) j] i False assms(6) by simp
    then have "lowerLink v (ni_lowLink i) st' = st'" using j by (simp add: lowerLink_def)
    with connecting_skip[OF assms(1,3)] False show ?thesis by simp
  qed
qed

lemma visit_step:
  assumes conn: "\<And>s st. tinv g (insert v opened) st \<Longrightarrow> tj_nodes st s = None \<Longrightarrow> s \<in> N \<Longrightarrow>
      \<forall>y \<in> set (tj_stack st). (y, s) \<in> (edges g)\<^sup>* \<Longrightarrow> card (unvisited N st) \<le> f \<Longrightarrow>
      answers g (connect s st) (connected g s (insert v opened) st)"
    and inv: "connecting g v opened st0 dn st" "card (unvisited N st) \<le> f" and s: "s \<in> set (deps_of g v)" "s \<in> N"
    and pre: "\<forall>y \<in> set (tj_stack st0). (y, v) \<in> (edges g)\<^sup>*" "opened \<subseteq> set (tj_stack st0)" "tj_nodes st0 v = None" "finite N"
  shows "answers g (visitSuccessor connect v s st) (\<lambda>st'. connecting g v opened st0 (insert s dn) st' \<and> card (unvisited N st') \<le> f)"
proof (cases "tj_nodes st s")
  case None
  have "(y, s) \<in> (edges g)\<^sup>*" if "y \<in> set (tj_stack st)" for y
    using connecting_reach[OF inv(1) pre(1) that pre(2)] s(1) by (auto intro: rtrancl_into_rtrancl)
  with conn[OF _ None s(2)] inv have "answers g (connect s st) (connected g s (insert v opened) st)"
    by (auto simp: connecting_def)
  then obtain st' b where r: "connect s st = Some (st', Inr b)" "b \<Longrightarrow> \<exists>x. proper_cycle g x"
    "\<not> b \<Longrightarrow> connected g s (insert v opened) st st'" by (auto simp: answers_def)
  show ?thesis
  proof (cases b)
    case False
    note c = r(3)[OF False]
    then obtain i where i: "tj_nodes st' s = Some i" "tj_nodes st \<subseteq>\<^sub>m tj_nodes st'" by (auto simp: connected_def)
    obtain j where "tj_nodes st v = Some j" using inv(1) by (auto simp: connecting_def)
    from connecting_lower_call[OF connecting_call[OF inv(1) c None s(1)] c i(1) s(1) pre(3) connecting_low(2)[OF inv(1) this]]
    show ?thesis using unvisited_mono[OF i(2) pre(4)] inv(2) i(1) r(1) False by (simp add: visitSuccessor_def None)
  qed (use r in \<open>simp add: visitSuccessor_def None\<close>)
next
  case (Some i)
  show ?thesis
  proof (cases "ni_onStack i")
    case True
    have "stack_ok g (insert v opened) st" using inv(1) by (simp add: connecting_def tinv_def)
    then have "s \<in> set (tj_stack st)" using stack_okD(3)[of g _ st s] Some True by blast
    from connecting_lower[OF inv(1) this _ _ Some _ pre(3), of "ni_index i"] s(1) Some True inv(2)
    show ?thesis by (simp add: visitSuccessor_def idx_def r_into_rtrancl)
  qed (use Some connecting_skip[OF inv(1) Some] inv(2) in \<open>simp add: visitSuccessor_def\<close>)
qed

section \<open>The end of a call\<close>

lemma pop_stack_ok:
  assumes "stack_ok g (insert v opened) st" "tj_stack st = v # S" "v \<notin> opened" "tj_nodes st v = Some i"
    and "st' = st\<lparr>tj_stack := S, tj_nodes := (tj_nodes st)(v \<mapsto> i\<lparr>ni_onStack := False\<rparr>)\<rparr>"
  shows "stack_ok g opened st'"
proof (rule stack_okI)
  note ok = stack_okD[OF assms(1)]
  have v: "v \<notin> set S" using ok(1) assms(2) by simp
  have stk: "tj_stack st' = S" by (simp add: assms(5))
  have idx: "idx st' = idx st" and low: "low st' = low st" using assms(4) by (auto simp: idx_def low_def assms(5) fun_eq_iff)
  have S: "x \<in> set (tj_stack st)" if "x \<in> set S" for x using that assms(2) by simp
  have above: "idx st x < idx st v" if "x \<in> set S" for x using ok(5) assms(2) that by simp
  show "distinct (tj_stack st')" using ok(1) assms(2) by (simp add: stk)
  show "opened \<subseteq> set (tj_stack st')" using ok(2) assms(2,3) by (auto simp: stk)
  show "x \<in> set (tj_stack st') \<longleftrightarrow> (\<exists>i. tj_nodes st' x = Some i \<and> ni_onStack i)" for x
    using ok(3)[of x] v assms(2) by (auto simp: assms(5))
  show "ni_index j < tj_index st'" if "tj_nodes st' x = Some j" for x j
    using that ok(4)[of x] ok(4)[OF assms(4)] by (auto simp: assms(5) split: if_splits)
  show "sorted_wrt (\<lambda>x y. idx st' y < idx st' x) (tj_stack st')" using ok(5) assms(2) by (simp add: stk idx)
  show "low st' x \<le> idx st' x" if "x \<in> set (tj_stack st')" for x using ok(6)[of x] S that by (simp add: stk idx low)
  show "\<exists>w \<in> set (tj_stack st'). idx st' w = low st' x \<and> (x, w) \<in> (edges g)\<^sup>*" if "x \<in> set (tj_stack st')" for x
  proof -
    have x: "x \<in> set S" using that by (simp add: stk)
    from ok(7)[OF S[OF x]] obtain w where w: "w \<in> set (tj_stack st)" "idx st w = low st x" "(x, w) \<in> (edges g)\<^sup>*" by blast
    have "w \<noteq> v" using w(2) ok(6)[OF S[OF x]] above[OF x] by auto
    with w show ?thesis using assms(2) by (auto simp: stk idx low)
  qed
  show "low st' x < idx st' x" if "x \<in> set (tj_stack st')" "x \<notin> opened" for x
    using ok(8)[of x] S v that by (auto simp: stk idx low)
qed

lemma close_stack_ok:
  assumes "stack_ok g (insert v opened) st" "low st v < idx st v"
  shows "stack_ok g opened st"
proof -
  have "low st x < idx st x" if "x \<in> set (tj_stack st) - opened" for x
    using assms stack_okD(8)[OF assms(1), of x] that by (cases "x = v") auto
  then show ?thesis using assms(1) unfolding stack_ok_def by simp
qed

lemma pop_own:
  assumes "connecting g v opened st0 (set (deps_of g v)) st" "tj_stack st = v # tj_stack st0" "v \<notin> opened"
    and "tj_nodes st v = Some i" "ni_lowLink i = ni_index i" "tj_nodes st0 v = None"
  shows "connected g v opened st0 (st\<lparr>tj_stack := tj_stack st0, tj_nodes := (tj_nodes st)(v \<mapsto> i\<lparr>ni_onStack := False\<rparr>)\<rparr>)"
proof -
  define st' where "st' = st\<lparr>tj_stack := tj_stack st0, tj_nodes := (tj_nodes st)(v \<mapsto> i\<lparr>ni_onStack := False\<rparr>)\<rparr>"
  have ok: "stack_ok g (insert v opened) st" "popped_ok g st" using assms(1) by (simp_all add: connecting_def tinv_def)
  have iv: "i = \<lparr>ni_index = tj_index st0, ni_lowLink = tj_index st0, ni_onStack = True\<rparr>"
    using assms(1,4,5) by (auto simp: connecting_def)
  have below: "idx st y < tj_index st0" if "y \<in> set (tj_stack st0)" for y
    using stack_okD(5)[OF ok(1)] that assms(2,4) iv by (simp add: idx_def)
  have succ: "y = v \<or> popped st y" if "y \<in> set (deps_of g v)" for y
  proof (rule ccontr)
    assume n: "\<not> (y = v \<or> popped st y)"
    from assms(1,4) that iv obtain j where j: "tj_nodes st y = Some j"
      "ni_onStack j \<and> ni_index j < tj_index st0 \<longrightarrow> tj_index st0 \<le> ni_index j" by (auto simp: connecting_def)
    with n have "ni_onStack j" by (auto simp: popped_def)
    with j(1) stack_okD(3)[OF ok(1), of y] n assms(2) have "y \<in> set (tj_stack st0)" by auto
    from below[OF this] j \<open>ni_onStack j\<close> show False by (simp add: idx_def)
  qed
  have nv: "\<not> popped st v" using assms(4) iv by (simp add: popped_def)
  have pop: "popped st' x \<longleftrightarrow> x = v \<or> popped st x" for x by (auto simp: popped_def st'_def)
  have "popped_ok g st'"
    using ok(2) succ no_cycle_above_popped[OF ok(2) nv] unfolding popped_ok_def pop by blast
  moreover have "stack_ok g opened st'" by (rule pop_stack_ok[OF ok(1) assms(2-4) st'_def])
  moreover have "tj_nodes st0 \<subseteq>\<^sub>m tj_nodes st'" using assms(1,6) by (auto simp: connecting_def map_le_def st'_def)
  ultimately show ?thesis unfolding connected_def tinv_def using iv by (simp add: st'_def)
qed

lemma pop_step:
  assumes "connecting g v opened st0 (set (deps_of g v)) st" "v \<notin> opened" "opened \<subseteq> set (tj_stack st0)"
    and "\<forall>y \<in> set (tj_stack st0). (y, v) \<in> (edges g)\<^sup>*" "tj_nodes st0 v = None"
  shows "answers g (Some (popNode v st)) (connected g v opened st0)"
proof -
  from assms(1) obtain new l where c: "tj_stack st = new @ v # tj_stack st0" "\<forall>x \<in> set new. (v, x) \<in> (edges g)\<^sup>*"
    "tj_nodes st v = Some \<lparr>ni_index = tj_index st0, ni_lowLink = l, ni_onStack = True\<rparr>" unfolding connecting_def by blast
  have ok: "stack_ok g (insert v opened) st" "popped_ok g st" using assms(1) by (simp_all add: connecting_def tinv_def)
  consider "l \<noteq> tj_index st0" | "l = tj_index st0" "new = []" | t ts where "l = tj_index st0" "new = t # ts" by (cases new) auto
  then show ?thesis
  proof cases
    case 1
    then have low: "low st v < idx st v" using connecting_low(1)[OF assms(1) c(3)] c(3) by (simp add: low_def idx_def)
    have "stack_ok g opened st" by (rule close_stack_ok[OF ok(1) low])
    moreover have "\<forall>x \<in> set (new @ [v]). (v, x) \<in> (edges g)\<^sup>*" using c(2) by auto
    moreover have "tj_stack st = (new @ [v]) @ tj_stack st0" by (simp add: c(1))
    ultimately have "connected g v opened st0 st"
      unfolding connected_def tinv_def using ok(2) assms(1) c(3) by (auto simp: connecting_def)
    with 1 c(3) show ?thesis by (simp add: popNode_def)
  next
    case 2
    with c pop_own[OF assms(1) _ assms(2) c(3) _ assms(5)] show ?thesis by (simp add: popNode_def)
  next
    case 3
    have t: "t \<in> set (tj_stack st)" "t \<noteq> v" using c(1) 3 stack_okD(1)[OF ok(1)] by auto
    have "(t, v) \<in> (edges g)\<^sup>*" by (rule connecting_reach[OF assms(1,4) t(1) assms(3)])
    moreover have "(v, t) \<in> (edges g)\<^sup>*" using c(2) 3 by simp
    ultimately have "proper_cycle g v" using t(2) by (auto simp: proper_cycle_def)
    moreover obtain j where "tj_nodes st t = Some j" using stack_okD(3)[OF ok(1), of t] t(1) by blast
    ultimately show ?thesis using 3 c t(2) by (auto simp: popNode_def)
  qed
qed

section \<open>The algorithm\<close>

definition closed_graph :: "ContainerGraph \<Rightarrow> bool" where
  "closed_graph g \<longleftrightarrow> finite (dom (cg_nodes g)) \<and> (\<forall>n. set (deps_of g n) \<subseteq> dom (cg_nodes g))"

lemma unvisited_push:
  assumes "tj_nodes st v = None" "v \<in> N" "finite N"
  shows "Suc (card (unvisited N (pushNode v st))) = card (unvisited N st)"
proof -
  have "unvisited N st = insert v (unvisited N (pushNode v st))" "v \<notin> unvisited N (pushNode v st)"
    using assms by (auto simp: unvisited_def pushNode_def)
  then show ?thesis using assms(3) by (simp add: unvisited_def)
qed

text \<open>The recursion is never deeper than the number of nodes that were not visited.\<close>

lemma strongConnect_answers:
  assumes "closed_graph g" "N = dom (cg_nodes g)"
    and "tinv g opened st" "tj_nodes st v = None" "v \<in> N" "\<forall>y \<in> set (tj_stack st). (y, v) \<in> (edges g)\<^sup>*"
    and "card (unvisited N st) \<le> fuel"
  shows "answers g (strongConnect g fuel v st) (connected g v opened st)"
  using assms(3-)
proof (induction fuel arbitrary: v opened st)
  case 0
  have "finite (unvisited N st)" using assms(1,2) by (simp add: closed_graph_def unvisited_def)
  with 0 show ?case by (auto simp: unvisited_def)
next
  case (Suc f)
  have fin: "finite N" "set (deps_of g v) \<subseteq> N" using assms(1,2) by (auto simp: closed_graph_def)
  have ok: "stack_ok g opened st" using Suc.prems(1) by (simp add: tinv_def)
  have opened: "opened \<subseteq> set (tj_stack st)" "v \<notin> opened"
    using stack_okD(2)[OF ok] stack_okD(3)[OF ok, of v] Suc.prems(2) by auto
  have "answers g (loopUntil (visitSuccessor (strongConnect g f) v) (deps_of g v) (pushNode v st))
      (\<lambda>st'. connecting g v opened st (set (deps_of g v)) st' \<and> card (unvisited N st') \<le> f)"
  proof (rule answers_loop)
    show "connecting g v opened st (set []) (pushNode v st) \<and> card (unvisited N (pushNode v st)) \<le> f"
      using connecting_start[OF Suc.prems(1,2)] unvisited_push[OF Suc.prems(2,3) fin(1)] Suc.prems(5) by simp
    fix dn x st' assume inv: "connecting g v opened st (set dn) st' \<and> card (unvisited N st') \<le> f" and x: "x \<in> set (deps_of g v)"
    have "answers g (visitSuccessor (strongConnect g f) v x st')
        (\<lambda>st'. connecting g v opened st (insert x (set dn)) st' \<and> card (unvisited N st') \<le> f)"
    proof (rule visit_step)
      fix s st assume "tinv g (insert v opened) st" "tj_nodes st s = None" "s \<in> N" "card (unvisited N st) \<le> f"
        and "\<forall>y \<in> set (tj_stack st). (y, s) \<in> (edges g)\<^sup>*"
      then show "answers g (strongConnect g f s st) (connected g s (insert v opened) st)" by (intro Suc.IH)
    qed (use inv x fin opened Suc.prems in auto)
    then show "answers g (visitSuccessor (strongConnect g f) v x st')
        (\<lambda>st'. connecting g v opened st (set (dn @ [x])) st' \<and> card (unvisited N st') \<le> f)" by simp
  qed
  then obtain st' b where r: "loopUntil (visitSuccessor (strongConnect g f) v) (deps_of g v) (pushNode v st) = Some (st', Inr b)"
    "b \<Longrightarrow> \<exists>x. proper_cycle g x" "\<not> b \<Longrightarrow> connecting g v opened st (set (deps_of g v)) st'" by (auto simp: answers_def)
  show ?case
  proof (cases b)
    case False
    from pop_step[OF r(3)[OF False] opened(2,1) Suc.prems(4,2)] False r(1) show ?thesis by simp
  qed (use r in simp)
qed

text \<open>A call with an empty stack leaves it empty.\<close>

lemma connected_top:
  assumes "connected g v {} st st'"
  shows "tj_stack st' = []"
proof (rule ccontr)
  assume "tj_stack st' \<noteq> []"
  have ok: "stack_ok g {} st'" using assms(1) by (simp add: connected_def tinv_def)
  from \<open>tj_stack st' \<noteq> []\<close> obtain x where "x \<in> set (tj_stack st')" by (cases "tj_stack st'") auto
  with stack_reaches[OF ok] show False by blast
qed

lemma detectCycles_loop:
  assumes "closed_graph g" "set order = dom (cg_nodes g)" "distinct order"
  shows "answers g (loopUntil
       (\<lambda>n st. if tj_nodes st n = None then strongConnect g (length order) n st else Some (st, Inr False))
       order \<lparr>tj_index = 0, tj_nodes = Map.empty, tj_stack = []\<rparr>)
     (\<lambda>st. tinv g {} st \<and> tj_stack st = [] \<and> set order \<subseteq> dom (tj_nodes st))"
proof (rule answers_loop)
  show "tinv g {} \<lparr>tj_index = 0, tj_nodes = Map.empty, tj_stack = []\<rparr> \<and>
      tj_stack \<lparr>tj_index = 0, tj_nodes = Map.empty, tj_stack = []\<rparr> = [] \<and>
      set [] \<subseteq> dom (tj_nodes \<lparr>tj_index = 0, tj_nodes = Map.empty, tj_stack = []\<rparr>)"
    by (simp add: tinv_def stack_ok_def popped_ok_def popped_def)
  fix dn x st
  assume inv: "tinv g {} st \<and> tj_stack st = [] \<and> set dn \<subseteq> dom (tj_nodes st)" and x: "x \<in> set order"
  have "card (unvisited (dom (cg_nodes g)) st) \<le> card (set order)"
    unfolding assms(2) by (rule card_mono) (use assms(1) in \<open>auto simp: unvisited_def closed_graph_def\<close>)
  then have card: "card (unvisited (dom (cg_nodes g)) st) \<le> length order" using distinct_card[OF assms(3)] by simp
  show "answers g (if tj_nodes st x = None then strongConnect g (length order) x st else Some (st, Inr False))
      (\<lambda>st. tinv g {} st \<and> tj_stack st = [] \<and> set (dn @ [x]) \<subseteq> dom (tj_nodes st))"
  proof (cases "tj_nodes st x")
    case None
    have "answers g (strongConnect g (length order) x st) (connected g x {} st)"
      by (rule strongConnect_answers[OF assms(1) refl _ None _ _ card]) (use inv x assms(2) in auto)
    then have "answers g (strongConnect g (length order) x st)
        (\<lambda>st'. tinv g {} st' \<and> tj_stack st' = [] \<and> set (dn @ [x]) \<subseteq> dom (tj_nodes st'))"
    proof (rule answers_mono)
      fix st' assume c: "connected g x {} st st'"
      then have "dom (tj_nodes st) \<subseteq> dom (tj_nodes st')" "tinv g {} st'" "x \<in> dom (tj_nodes st')"
        by (auto simp: connected_def dest: map_le_implies_dom_le)
      then show "tinv g {} st' \<and> tj_stack st' = [] \<and> set (dn @ [x]) \<subseteq> dom (tj_nodes st')"
        using inv connected_top[OF c] unfolding set_append by (simp del: domIff) blast
    qed
    then show ?thesis by (simp add: None)
  qed (use inv in auto)
qed

lemma edge_in_graph: "(x, y) \<in> edges g \<Longrightarrow> x \<in> dom (cg_nodes g)"
  by (cases "cg_nodes g x") (auto simp: deps_of_def)

lemma detectCycles_decides:
  assumes "closed_graph g" "set order = dom (cg_nodes g)" "distinct order"
  shows "detectCycles g order = Some (Inr (\<exists>x. proper_cycle g x))"
proof -
  from detectCycles_loop[OF assms] obtain st b where r: "detectCycles g order = Some (Inr b)" "b \<Longrightarrow> \<exists>x. proper_cycle g x"
    "\<not> b \<Longrightarrow> tinv g {} st \<and> tj_stack st = [] \<and> set order \<subseteq> dom (tj_nodes st)" by (auto simp: answers_def detectCycles_def)
  have "\<not> proper_cycle g x" if "\<not> b" for x
  proof
    note inv = r(3)[OF that]
    assume c: "proper_cycle g x"
    then obtain y where "(x, y) \<in> (edges g)\<^sup>*" "y \<noteq> x" by (auto simp: proper_cycle_def)
    then obtain z where "(x, z) \<in> edges g" by (auto elim: converse_rtranclE)
    from edge_in_graph[OF this] inv assms(2) obtain i where i: "tj_nodes st x = Some i" by blast
    have "\<not> ni_onStack i" using inv i stack_okD(3)[of g "{}" st x] by (auto simp: tinv_def)
    with i inv c show False by (auto simp: tinv_def popped_ok_def popped_def)
  qed
  with r(1,2) show ?thesis by (cases b) auto
qed

end
