(* ===== verification/GraphBuild.thy ===== *)
theory GraphBuild
  imports GraphCycles
begin

text \<open>
  The graph that is built from a list of containers, in closed form: the edges are the dependencies
  of the containers, in both directions, whatever the order in which the map of nodes is iterated.
\<close>

text \<open>The last container with an identifier wins.\<close>

definition ctr_map :: "Container list \<Rightarrow> string \<rightharpoonup> Container" where
  "ctr_map ctrs = fold (\<lambda>c m. m(ctr_ID c \<mapsto> c)) ctrs Map.empty"

definition deps_in :: "(string \<rightharpoonup> Container) \<Rightarrow> string \<Rightarrow> string list" where
  "deps_in m n = (case m n of None \<Rightarrow> [] | Some c \<Rightarrow> Dependencies c)"

definition node_upto :: "(string \<rightharpoonup> Container) \<Rightarrow> string list \<Rightarrow> string \<Rightarrow> Container \<Rightarrow> containerNode" where
  "node_upto m dn k c =
     \<lparr>cn_id = ctr_ID c, cn_container = c,
      cn_dependsOn = (if k \<in> set dn then Dependencies c else []),
      cn_dependedOn = filter (\<lambda>n. k \<in> set (deps_in m n)) dn\<rparr>"

definition graph_upto :: "(string \<rightharpoonup> Container) \<Rightarrow> string list \<Rightarrow> ContainerGraph" where
  "graph_upto m dn =
     \<lparr>cg_nodes = (\<lambda>k. map_option (node_upto m dn k) (m k)),
      cg_noDepNodes = filter (\<lambda>k. deps_in m k = []) dn,
      cg_notDependedOnNodes = dom m - (\<Union>k \<in> set dn. set (deps_in m k))\<rparr>"

lemma nodes_upto [simp]: "cg_nodes (graph_upto m dn) k = map_option (node_upto m dn k) (m k)"
  "dom (cg_nodes (graph_upto m dn)) = dom m"
  by (auto simp: graph_upto_def dom_def)

lemma fold_addNode:
  "fold addNode ctrs (graph_upto m []) = graph_upto (fold (\<lambda>c m. m(ctr_ID c \<mapsto> c)) ctrs m) []"
proof (induction ctrs arbitrary: m)
  case (Cons c ctrs)
  have "addNode c (graph_upto m []) = graph_upto (m(ctr_ID c \<mapsto> c)) []"
    by (auto simp: addNode_def graph_upto_def node_upto_def fun_eq_iff map_option_case split: option.splits)
  with Cons show ?case by simp
qed simp

lemma start_graph:
  "fold addNode ctrs \<lparr>cg_nodes = Map.empty, cg_noDepNodes = [], cg_notDependedOnNodes = {}\<rparr> = graph_upto (ctr_map ctrs) []"
proof -
  have "\<lparr>cg_nodes = Map.empty, cg_noDepNodes = [], cg_notDependedOnNodes = {}\<rparr> = graph_upto Map.empty []"
    by (simp add: graph_upto_def)
  then show ?thesis by (simp add: fold_addNode ctr_map_def)
qed

lemma ctr_map_dom: "dom (ctr_map ctrs) = ctr_ID ` set ctrs"
proof -
  have "dom (fold (\<lambda>c m. m(ctr_ID c \<mapsto> c)) ctrs m) = dom m \<union> ctr_ID ` set ctrs" for m
    by (induction ctrs arbitrary: m) auto
  then show ?thesis by (simp add: ctr_map_def)
qed

section \<open>The edges\<close>

definition extendNode :: "string list \<Rightarrow> string list \<Rightarrow> containerNode \<Rightarrow> containerNode" where
  "extendNode ds us node = node\<lparr>cn_dependsOn := cn_dependsOn node @ ds, cn_dependedOn := cn_dependedOn node @ us\<rparr>"

lemma extendNode_simps: "extendNode [] [] node = node" "extendNode ds' us' (extendNode ds us node) = extendNode (ds @ ds') (us @ us') node"
  by (simp_all add: extendNode_def)

lemma addEdge_eq:
  assumes "n \<in> dom (cg_nodes g)"
  shows "addEdge n dep g =
    (if dep \<in> dom (cg_nodes g)
     then Inr (g\<lparr>cg_nodes := (\<lambda>k. map_option (extendNode (if k = n then [dep] else []) (if k = dep then [n] else [])) (cg_nodes g k)),
                 cg_notDependedOnNodes := cg_notDependedOnNodes g - {dep}\<rparr>)
     else Inl ErrNoSuchCtr)"
proof (cases "cg_nodes g dep")
  case (Some depNode)
  obtain node where "cg_nodes g n = Some node" using assms by blast
  with Some show ?thesis
    by (cases "n = dep") (auto simp: addEdge_def Let_def extendNode_def fun_eq_iff map_option_case split: option.splits)
qed (auto simp: addEdge_def)

lemma foldE_addEdge:
  assumes "n \<in> dom (cg_nodes g)" "distinct deps"
  shows "foldE (addEdge n) deps g =
    (if set deps \<subseteq> dom (cg_nodes g)
     then Inr (g\<lparr>cg_nodes := (\<lambda>k. map_option (extendNode (if k = n then deps else []) (if k \<in> set deps then [n] else [])) (cg_nodes g k)),
                 cg_notDependedOnNodes := cg_notDependedOnNodes g - set deps\<rparr>)
     else Inl ErrNoSuchCtr)"
  using assms
proof (induction deps arbitrary: g)
  case Nil
  have "map_option (extendNode [] []) = (\<lambda>x. x)" by (auto simp: extendNode_def fun_eq_iff map_option_case split: option.splits)
  then show ?case by simp
next
  case (Cons d ds)
  show ?case
  proof (cases "d \<in> dom (cg_nodes g)")
    case True
    define g' where "g' = g\<lparr>cg_nodes := (\<lambda>k. map_option (extendNode (if k = n then [d] else []) (if k = d then [n] else [])) (cg_nodes g k)),
                 cg_notDependedOnNodes := cg_notDependedOnNodes g - {d}\<rparr>"
    have dom: "dom (cg_nodes g') = dom (cg_nodes g)" by (auto simp: g'_def)
    have "addEdge n d g = Inr g'" using addEdge_eq[OF Cons.prems(1), of d] True by (simp add: g'_def)
    then have "foldE (addEdge n) (d # ds) g = foldE (addEdge n) ds g'" by simp
    also have "\<dots> = (if set ds \<subseteq> dom (cg_nodes g)
     then Inr (g'\<lparr>cg_nodes := (\<lambda>k. map_option (extendNode (if k = n then ds else []) (if k \<in> set ds then [n] else [])) (cg_nodes g' k)),
                 cg_notDependedOnNodes := cg_notDependedOnNodes g' - set ds\<rparr>)
     else Inl ErrNoSuchCtr)"
      using Cons.IH[of g'] Cons.prems dom by simp
    also have "(\<lambda>k. map_option (extendNode (if k = n then ds else []) (if k \<in> set ds then [n] else [])) (cg_nodes g' k)) =
       (\<lambda>k. map_option (extendNode (if k = n then d # ds else []) (if k \<in> set (d # ds) then [n] else [])) (cg_nodes g k))"
      using Cons.prems(2) by (auto simp: g'_def fun_eq_iff option.map_comp o_def extendNode_simps)
    also have "cg_notDependedOnNodes g' - set ds = cg_notDependedOnNodes g - set (d # ds)" by (auto simp: g'_def)
    finally show ?thesis using True by (simp add: g'_def)
  qed (simp add: addEdge_eq[OF Cons.prems(1)])
qed

lemma addEdges_upto:
  assumes "n \<in> dom m" "n \<notin> set dn"
  shows "addEdges n (graph_upto m dn) =
    (if set (deps_in m n) \<subseteq> dom m then Inr (graph_upto m (dn @ [n])) else Inl ErrNoSuchCtr)"
proof -
  from assms(1) obtain c where c: "m n = Some c" by blast
  have d: "deps_in m n = Dependencies c" by (simp add: deps_in_def c)
  have "map_option (extendNode (if k = n then Dependencies c else []) (if k \<in> set (Dependencies c) then [n] else []))
      (map_option (node_upto m dn k) (m k)) = map_option (node_upto m (dn @ [n]) k) (m k)" for k
    using assms(2) c d by (cases "m k") (auto simp: node_upto_def extendNode_def)
  moreover have "dom m - (\<Union>k \<in> set dn. set (deps_in m k)) - set (Dependencies c) = dom m - (\<Union>k \<in> set (dn @ [n]). set (deps_in m k))"
    by (auto simp: d)
  ultimately show ?thesis using foldE_addEdge[of n "graph_upto m dn" "Dependencies c"] assms(1) distinct_Dependencies
    by (simp add: addEdges_def c Let_def d) (simp add: graph_upto_def node_upto_def d)
qed

lemma foldE_addEdges:
  assumes "set order \<subseteq> dom m" "distinct (dn @ order)"
  shows "foldE addEdges order (graph_upto m dn) =
    (if \<forall>n \<in> set order. set (deps_in m n) \<subseteq> dom m then Inr (graph_upto m (dn @ order)) else Inl ErrNoSuchCtr)"
  using assms
proof (induction order arbitrary: dn)
  case (Cons n order)
  then have "addEdges n (graph_upto m dn) =
    (if set (deps_in m n) \<subseteq> dom m then Inr (graph_upto m (dn @ [n])) else Inl ErrNoSuchCtr)"
    by (intro addEdges_upto) auto
  with Cons.IH[of "dn @ [n]"] Cons.prems show ?case by simp
qed simp

end
