(* ===== verification/GraphOrder.thy ===== *)
theory GraphOrder
  imports GraphWalk GraphBuild
begin

text \<open>
  The order of the walks. Both walks visit a node after the nodes \<open>before\<close> it (its dependencies when
  starting, the nodes that depend on it when removing) and then turn to the nodes \<open>after\<close> it.
\<close>

lemma foldO_steps:
  assumes "P [] s" and "\<And>dn x s. P dn s \<Longrightarrow> x \<in> set xs \<Longrightarrow> \<exists>s'. f x s = Some s' \<and> P (dn @ [x]) s'"
  shows "\<exists>s'. foldO f xs s = Some s' \<and> P xs s'"
proof -
  have "\<exists>s'. foldO f ys s = Some s' \<and> P (dn @ ys) s'" if "P dn s" "set ys \<subseteq> set xs" for dn ys
    using that
  proof (induction ys arbitrary: dn s)
    case (Cons y ys)
    from assms(2)[OF Cons.prems(1), of y] Cons.prems(2) obtain s' where "f y s = Some s'" "P (dn @ [y]) s'" by auto
    with Cons.IH[of "dn @ [y]" s'] Cons.prems(2) show ?case by simp
  qed simp
  from this[OF assms(1), of xs] show ?thesis by simp
qed

text \<open>
  The invariant of a walk: a node that was visited without an error comes after the nodes before it,
  which have no error either; the nodes after a node with an error were visited, unless it is in \<open>X\<close>, whose
  error is still being passed on.
\<close>

definition walk_ok ::
  "(string \<Rightarrow> string set) \<Rightarrow> (string \<Rightarrow> string set) \<Rightarrow> string set \<Rightarrow> 'w Traversal \<Rightarrow> bool" where
  "walk_ok before after X tv \<longleftrightarrow>
     distinct (tv_visited tv) \<and> dom (tv_errors tv) \<subseteq> set (tv_visited tv) \<and>
     (\<forall>n \<in> dom (tv_errors tv) - X. after n \<subseteq> set (tv_visited tv)) \<and>
     (\<forall>xs n ys. tv_visited tv = xs @ n # ys \<longrightarrow> tv_errors tv n = None \<longrightarrow>
        before n \<subseteq> set ys \<and> before n \<inter> dom (tv_errors tv) = {})"

lemma walk_okD:
  assumes "walk_ok before after X tv"
  shows "distinct (tv_visited tv)" "dom (tv_errors tv) \<subseteq> set (tv_visited tv)"
    and "tv_errors tv n \<noteq> None \<Longrightarrow> n \<notin> X \<Longrightarrow> after n \<subseteq> set (tv_visited tv)"
    and "tv_visited tv = xs @ n # ys \<Longrightarrow> tv_errors tv n = None \<Longrightarrow> before n \<subseteq> set ys \<and> before n \<inter> dom (tv_errors tv) = {}"
  using assms unfolding walk_ok_def by blast+

lemma walk_okI:
  assumes "distinct (tv_visited tv)" "dom (tv_errors tv) \<subseteq> set (tv_visited tv)"
    and "\<And>n. tv_errors tv n \<noteq> None \<Longrightarrow> n \<notin> X \<Longrightarrow> after n \<subseteq> set (tv_visited tv)"
    and "\<And>xs n ys. tv_visited tv = xs @ n # ys \<Longrightarrow> tv_errors tv n = None \<Longrightarrow>
           before n \<subseteq> set ys \<and> before n \<inter> dom (tv_errors tv) = {}"
  shows "walk_ok before after X tv"
  using assms unfolding walk_ok_def by blast

text \<open>Only nodes of \<open>S\<close> could be visited next.\<close>

definition ready :: "(string \<Rightarrow> string set) \<Rightarrow> string set \<Rightarrow> 'w Traversal \<Rightarrow> string set \<Rightarrow> bool" where
  "ready before N tv S \<longleftrightarrow> (\<forall>n \<in> N - set (tv_visited tv). before n \<subseteq> set (tv_visited tv) \<longrightarrow> n \<in> S)"

lemma ready_mono: "ready before N tv S \<Longrightarrow> S \<subseteq> T \<Longrightarrow> ready before N tv T"
  unfolding ready_def by blast

lemma setErr_simps [simp]:
  "tv_visited (setErr n err tv) = tv_visited tv" "tv_world (setErr n err tv) = tv_world tv"
  "setErr n None tv = tv" "tv_errors (setErr n (Some e) tv) = (tv_errors tv)(n \<mapsto> e)"
  by (simp_all add: setErr_def split: option.split)

lemma walk_ok_error:
  assumes "walk_ok before after X tv" "n \<notin> set (tv_visited tv)"
    and "tv_visited tv' = n # tv_visited tv" "tv_errors tv' = (tv_errors tv)(n \<mapsto> e)"
  shows "walk_ok before after (insert n X) tv'"
proof (rule walk_okI)
  note ok = walk_okD[OF assms(1)]
  show "distinct (tv_visited tv')" using ok(1) assms(2,3) by simp
  show "dom (tv_errors tv') \<subseteq> set (tv_visited tv')" using ok(2) assms(3,4) by auto
  show "after m \<subseteq> set (tv_visited tv')" if "tv_errors tv' m \<noteq> None" "m \<notin> insert n X" for m
    using ok(3)[of m] that assms(3,4) by auto
  show "before m \<subseteq> set ys \<and> before m \<inter> dom (tv_errors tv') = {}"
    if vs: "tv_visited tv' = xs @ m # ys" and m: "tv_errors tv' m = None" for xs m ys
  proof -
    from m assms(4) have m: "m \<noteq> n" "tv_errors tv m = None" by (auto split: if_splits)
    with vs assms(3) obtain xs' where v: "tv_visited tv = xs' @ m # ys" by (cases xs) auto
    from ok(4)[OF v m(2)] v assms(2) show ?thesis unfolding assms(4) by auto
  qed
qed

lemma walk_ok_visit:
  assumes "walk_ok before after {} tv" "n \<notin> set (tv_visited tv)" "before n \<subseteq> set (tv_visited tv)"
    and "tv_visited tv' = n # tv_visited tv" "tv_errors tv' = tv_errors tv" "\<And>m. m \<in> before n \<Longrightarrow> n \<in> after m"
  shows "walk_ok before after {} tv'"
proof (rule walk_okI)
  note ok = walk_okD[OF assms(1)]
  have n: "tv_errors tv m = None" if "m \<in> before n" for m
    using ok(3)[of m] assms(2) assms(6)[OF that] by (cases "tv_errors tv m") auto
  show "distinct (tv_visited tv')" using ok(1) assms(2,4) by simp
  show "dom (tv_errors tv') \<subseteq> set (tv_visited tv')" using ok(2) assms(4,5) by auto
  show "after m \<subseteq> set (tv_visited tv')" if "tv_errors tv' m \<noteq> None" for m
    using ok(3)[of m] that assms(4,5) by auto
  show "before m \<subseteq> set ys \<and> before m \<inter> dom (tv_errors tv') = {}"
    if vs: "tv_visited tv' = xs @ m # ys" and m: "tv_errors tv' m = None" for xs m ys
  proof (cases xs)
    case Nil
    with vs assms(4) have "m = n" "ys = tv_visited tv" by auto
    with n assms(3,5) show ?thesis by auto
  next
    case (Cons _ xs')
    with vs assms(4) have "tv_visited tv = xs' @ m # ys" by simp
    from ok(4)[OF this] m assms(5) show ?thesis by simp
  qed
qed

lemma walk_ok_settle:
  assumes "walk_ok before after (insert n X) tv" "after n \<subseteq> set (tv_visited tv)"
  shows "walk_ok before after X tv"
proof (rule walk_okI)
  note ok = walk_okD[OF assms(1)]
  show "after m \<subseteq> set (tv_visited tv)" if "tv_errors tv m \<noteq> None" "m \<notin> X" for m
    using ok(3)[of m] that assms(2) by (cases "m = n") auto
  show "before m \<subseteq> set ys \<and> before m \<inter> dom (tv_errors tv) = {}"
    if "tv_visited tv = xs @ m # ys" "tv_errors tv m = None" for xs m ys
    by (rule ok(4)[OF that])
qed (use walk_okD(1,2)[OF assms(1)] in auto)

lemma ready_visit:
  assumes "ready before N tv S" "set (tv_visited tv') = insert n (set (tv_visited tv))"
    and "\<And>m. n \<in> before m \<Longrightarrow> m \<in> after n"
  shows "ready before N tv' ((S - {n}) \<union> after n)"
  unfolding ready_def
proof (intro ballI impI)
  fix m assume m: "m \<in> N - set (tv_visited tv')" "before m \<subseteq> set (tv_visited tv')"
  show "m \<in> S - {n} \<union> after n"
  proof (cases "n \<in> before m")
    case False
    with m assms(2) have "m \<in> N - set (tv_visited tv)" "before m \<subseteq> set (tv_visited tv)" by auto
    with assms(1) m(1) assms(2) show ?thesis unfolding ready_def by auto
  qed (use assms(3) in simp)
qed

text \<open>What a call for the node \<open>n\<close> has done.\<close>

definition walked ::
  "(string \<Rightarrow> string set) \<Rightarrow> (string \<Rightarrow> string set) \<Rightarrow> string set \<Rightarrow> string set \<Rightarrow> string \<Rightarrow> 'w Traversal \<Rightarrow> 'w Traversal \<Rightarrow> bool" where
  "walked before after N X n tv tv' \<longleftrightarrow>
     walk_ok before after X tv' \<and> set (tv_visited tv) \<subseteq> set (tv_visited tv') \<and>
     dom (tv_errors tv) \<subseteq> dom (tv_errors tv') \<and>
     (\<forall>S. ready before N tv S \<longrightarrow> ready before N tv' (S - {n}))"

text \<open>The loop over the nodes after \<open>n\<close>.\<close>

lemma walk_loop:
  assumes "\<And>m tv. m \<in> set ms \<Longrightarrow> walk_ok before after X tv \<Longrightarrow> V \<subseteq> set (tv_visited tv) \<Longrightarrow>
      \<exists>tv'. f m tv = Some tv' \<and> walked before after N X m tv tv' \<and> (err \<longrightarrow> m \<in> set (tv_visited tv'))"
    and "walk_ok before after X (tv :: 'w Traversal)" "V \<subseteq> set (tv_visited tv)"
  shows "\<exists>tv'. foldO f ms tv = Some tv' \<and> walk_ok before after X tv' \<and> set (tv_visited tv) \<subseteq> set (tv_visited tv') \<and>
     dom (tv_errors tv) \<subseteq> dom (tv_errors tv') \<and>
     (err \<longrightarrow> set ms \<subseteq> set (tv_visited tv')) \<and> (\<forall>S. ready before N tv S \<longrightarrow> ready before N tv' (S - set ms))"
proof (rule foldO_steps)
  fix dn m and tv1 :: "'w Traversal"
  assume inv: "walk_ok before after X tv1 \<and> set (tv_visited tv) \<subseteq> set (tv_visited tv1) \<and>
     dom (tv_errors tv) \<subseteq> dom (tv_errors tv1) \<and>
     (err \<longrightarrow> set dn \<subseteq> set (tv_visited tv1)) \<and> (\<forall>S. ready before N tv S \<longrightarrow> ready before N tv1 (S - set dn))"
    and m: "m \<in> set ms"
  from assms(1)[OF m, of tv1] inv assms(3) obtain tv2 where
    r: "f m tv1 = Some tv2" "walked before after N X m tv1 tv2" "err \<longrightarrow> m \<in> set (tv_visited tv2)" by auto
  have "ready before N tv2 (S - set (dn @ [m]))" if "ready before N tv S" for S
  proof -
    have "ready before N tv2 (S - set dn - {m})" using inv that r(2) unfolding walked_def by blast
    then show ?thesis by (rule ready_mono) auto
  qed
  then show "\<exists>tv2. f m tv1 = Some tv2 \<and> walk_ok before after X tv2 \<and> set (tv_visited tv) \<subseteq> set (tv_visited tv2) \<and>
     dom (tv_errors tv) \<subseteq> dom (tv_errors tv2) \<and>
     (err \<longrightarrow> set (dn @ [m]) \<subseteq> set (tv_visited tv2)) \<and> (\<forall>S. ready before N tv S \<longrightarrow> ready before N tv2 (S - set (dn @ [m])))"
    using r inv unfolding walked_def set_append by (simp del: domIff) blast
qed (use assms in simp)

section \<open>The walks\<close>

text \<open>The edges of the graph can be followed in both directions.\<close>

definition dual_graph :: "ContainerGraph \<Rightarrow> bool" where
  "dual_graph g \<longleftrightarrow> finite (dom (cg_nodes g)) \<and> (\<forall>n m. m \<in> set (users_of g n) \<longleftrightarrow> n \<in> set (deps_of g m)) \<and>
     (\<forall>n. set (deps_of g n) \<subseteq> dom (cg_nodes g))"

lemma dual_graphD:
  assumes "dual_graph g"
  shows "finite (dom (cg_nodes g))" "m \<in> set (users_of g n) \<longleftrightarrow> n \<in> set (deps_of g m)"
    and "set (deps_of g n) \<subseteq> dom (cg_nodes g)" "set (users_of g n) \<subseteq> dom (cg_nodes g)"
proof -
  show "finite (dom (cg_nodes g))" "m \<in> set (users_of g n) \<longleftrightarrow> n \<in> set (deps_of g m)" "set (deps_of g n) \<subseteq> dom (cg_nodes g)"
    using assms by (simp_all add: dual_graph_def)
  show "set (users_of g n) \<subseteq> dom (cg_nodes g)"
  proof
    fix m assume "m \<in> set (users_of g n)"
    then have "(m, n) \<in> edges g" using assms by (simp add: dual_graph_def)
    then show "m \<in> dom (cg_nodes g)" by (rule edge_in_graph)
  qed
qed

lemma card_left:
  assumes "finite N" "n \<in> N" "n \<notin> V" "card (N - V) < Suc f" "insert n V \<subseteq> V'"
  shows "card (N - V') < f"
proof -
  have "card (N - V') \<le> card (N - insert n V)" using assms(1,5) by (intro card_mono) auto
  also have "\<dots> < card (N - V)" using assms(1-3) by (intro psubset_card_mono) auto
  finally show ?thesis using assms(4) by simp
qed

lemma walked_same:
  assumes "walk_ok before after X tv" "n \<in> set (tv_visited tv) \<or> \<not> before n \<subseteq> set (tv_visited tv)"
  shows "walked before after N X n tv tv"
  using assms unfolding walked_def ready_def by blast

text \<open>A node is marked and the walk goes on with the nodes after it.\<close>

lemma walked_visit:
  assumes "walk_ok before after X tv'" "set (tv_visited tv1) \<subseteq> set (tv_visited tv')"
    and "dom (tv_errors tv) \<subseteq> dom (tv_errors tv')"
    and "\<And>S. ready before N tv1 S \<Longrightarrow> ready before N tv' (S - after n)"
    and "set (tv_visited tv1) = insert n (set (tv_visited tv))" "\<And>m. n \<in> before m \<Longrightarrow> m \<in> after n"
  shows "walked before after N X n tv tv'"
  unfolding walked_def
proof (intro conjI allI impI)
  show "set (tv_visited tv) \<subseteq> set (tv_visited tv')" using assms(2,5) by blast
  fix S assume "ready before N tv S"
  from ready_visit[where after = after, OF this assms(5,6)] have "ready before N tv1 ((S - {n}) \<union> after n)" .
  from assms(4)[OF this] show "ready before N tv' (S - {n})" by (rule ready_mono) auto
qed (use assms(1,3) in auto)

lemma startNode_walks:
  assumes "dual_graph g" "n \<in> dom (cg_nodes g)" "card (dom (cg_nodes g) - set (tv_visited tv)) < fuel"
    and "walk_ok (\<lambda>n. set (deps_of g n)) (\<lambda>n. set (users_of g n)) X tv" "setError \<or> X = {}"
  shows "\<exists>tv'. startNode ops g restart fuel setError n tv = Some (tv' :: 'w Traversal) \<and>
    walked (\<lambda>n. set (deps_of g n)) (\<lambda>n. set (users_of g n)) (dom (cg_nodes g)) X n tv tv' \<and> (setError \<longrightarrow> n \<in> set (tv_visited tv'))"
  using assms(2-)
proof (induction fuel arbitrary: setError n tv X)
  case (Suc f)
  let ?N = "dom (cg_nodes g)" and ?b = "\<lambda>n. set (deps_of g n)" and ?a = "\<lambda>n. set (users_of g n)"
  note dual = dual_graphD[OF assms(1)]
  have loop: "\<exists>tv'. foldO (startNode ops g restart f err) (users_of g n) tv1 = Some tv' \<and> walk_ok ?b ?a Y tv' \<and>
      set (tv_visited tv1) \<subseteq> set (tv_visited tv') \<and> dom (tv_errors tv1) \<subseteq> dom (tv_errors tv') \<and> (err \<longrightarrow> set (users_of g n) \<subseteq> set (tv_visited tv')) \<and>
      (\<forall>S. ready ?b ?N tv1 S \<longrightarrow> ready ?b ?N tv' (S - set (users_of g n)))"
    if n: "n \<notin> set (tv_visited tv)" "walk_ok ?b ?a Y tv1" "tv_visited tv1 = n # tv_visited tv" "err \<or> Y = {}" for Y err tv1
  proof (rule walk_loop[where V = "insert n (set (tv_visited tv))"])
    fix m and tv2 :: "'w Traversal" assume m: "m \<in> set (users_of g n)" "walk_ok ?b ?a Y tv2" "insert n (set (tv_visited tv)) \<subseteq> set (tv_visited tv2)"
    from card_left[OF dual(1) Suc.prems(1) n(1) Suc.prems(2) m(3)] m dual(4) n(4)
    show "\<exists>tv'. startNode ops g restart f err m tv2 = Some tv' \<and> walked ?b ?a ?N Y m tv2 tv' \<and> (err \<longrightarrow> m \<in> set (tv_visited tv'))"
      by (intro Suc.IH) auto
  qed (use n in auto)
  have dual': "\<And>m. n \<in> ?b m \<Longrightarrow> m \<in> ?a n" "\<And>m. m \<in> ?b n \<Longrightarrow> n \<in> ?a m" using dual(2) by auto
  consider "n \<in> set (tv_visited tv)" | "n \<notin> set (tv_visited tv)" setError
    | "n \<notin> set (tv_visited tv)" "\<not> setError" "\<not> ?b n \<subseteq> set (tv_visited tv)"
    | "n \<notin> set (tv_visited tv)" "\<not> setError" "?b n \<subseteq> set (tv_visited tv)" by blast
  then show ?case
  proof cases
    case 1
    with walked_same[OF Suc.prems(3)] show ?thesis by auto
  next
    case 2
    let ?tv1 = "setErr n (Some ErrCtrStateInvalid) (tv\<lparr>tv_visited := n # tv_visited tv\<rparr>)"
    have ok: "walk_ok ?b ?a (insert n X) ?tv1" by (rule walk_ok_error[OF Suc.prems(3) 2(1)]) simp_all
    from loop[OF 2(1) ok, of True] obtain tv' where r: "foldO (startNode ops g restart f True) (users_of g n) ?tv1 = Some tv'"
      "walk_ok ?b ?a (insert n X) tv'" "set (tv_visited ?tv1) \<subseteq> set (tv_visited tv')"
      "dom (tv_errors ?tv1) \<subseteq> dom (tv_errors tv')" "set (users_of g n) \<subseteq> set (tv_visited tv')"
      "\<And>S. ready ?b ?N ?tv1 S \<Longrightarrow> ready ?b ?N tv' (S - ?a n)" by auto
    have er: "dom (tv_errors tv) \<subseteq> dom (tv_errors tv')" using r(4) by auto
    have "walked ?b ?a ?N X n tv tv'"
      using walked_visit[OF walk_ok_settle[OF r(2)] r(3) er r(6) _ dual'(1)] r(5) by simp
    with 2 r show ?thesis by auto
  next
    case 3
    with walked_same[OF Suc.prems(3)] show ?thesis by (auto simp: list_all_iff)
  next
    case 4
    obtain w err where a: "startActions ops restart n (tv_world tv) = (w, err)" by fastforce
    let ?tv1 = "setErr n err (tv\<lparr>tv_visited := n # tv_visited tv, tv_world := w\<rparr>)"
    have X: "X = {}" using Suc.prems(4) 4(2) by simp
    have ok: "walk_ok ?b ?a (if err = None then {} else {n}) ?tv1"
    proof (cases err)
      case None
      with walk_ok_visit[OF Suc.prems(3)[unfolded X] 4(1,3) _ _ dual'(2), of ?tv1] show ?thesis by simp
    next
      case (Some e)
      with walk_ok_error[OF Suc.prems(3)[unfolded X] 4(1), of ?tv1 e] show ?thesis by simp
    qed
    have vis: "tv_visited ?tv1 = n # tv_visited tv" and er: "err \<noteq> None \<or> (if err = None then {} else {n}) = {}" by simp_all
    from loop[OF 4(1) ok vis er] obtain tv' where r: "foldO (startNode ops g restart f (err \<noteq> None)) (users_of g n) ?tv1 = Some tv'"
      "walk_ok ?b ?a (if err = None then {} else {n}) tv'" "set (tv_visited ?tv1) \<subseteq> set (tv_visited tv')"
      "dom (tv_errors ?tv1) \<subseteq> dom (tv_errors tv')" "err \<noteq> None \<Longrightarrow> set (users_of g n) \<subseteq> set (tv_visited tv')"
      "\<And>S. ready ?b ?N ?tv1 S \<Longrightarrow> ready ?b ?N tv' (S - ?a n)" by blast
    have er': "dom (tv_errors tv) \<subseteq> dom (tv_errors tv')" using r(4) by (cases err) auto
    have "walk_ok ?b ?a {} tv'" using r(2,5) walk_ok_settle[of ?b ?a n "{}" tv'] by (cases err) auto
    from walked_visit[OF this r(3) er' r(6) _ dual'(1)] have "walked ?b ?a ?N X n tv tv'" by (simp add: X)
    with 4 r(1) a show ?thesis by (auto simp: list_all_iff)
  qed
qed simp

lemma removeActions_same:
  assumes "removeActions ops g n tv = (tv', err)"
  shows "tv_visited tv' = tv_visited tv" "tv_errors tv' = tv_errors tv"
  using assms by (auto simp: removeActions_def Let_def split: prod.splits)

lemma markVisited_simps [simp]:
  "n \<in> set (tv_visited tv) \<Longrightarrow> markVisited n tv = tv" "tv_errors (markVisited n tv) = tv_errors tv"
  "n \<notin> set (tv_visited tv) \<Longrightarrow> tv_visited (markVisited n tv) = n # tv_visited tv"
  by (simp_all add: markVisited_def)

lemma removeNode_visited:
  assumes "set ms \<subseteq> set (tv_visited tv)"
  shows "foldO (removeNode ops g (Suc f) err) ms tv = Some tv"
  using assms by (induction ms) auto

lemma walk_ok_again:
  assumes "walk_ok before after X tv" "tv_errors tv n \<noteq> None" "tv_visited tv' = tv_visited tv" "tv_errors tv' = tv_errors tv"
  shows "walk_ok before after X (setErr n err tv')"
proof -
  have "dom (tv_errors (setErr n err tv')) = dom (tv_errors tv)" using assms(2,4) by (cases err) auto
  then have "tv_errors (setErr n err tv') m = None \<longleftrightarrow> tv_errors tv m = None" for m by (metis domIff)
  with walk_okD[OF assms(1)] show ?thesis
    by (intro walk_okI) (simp_all add: \<open>dom (tv_errors (setErr n err tv')) = dom (tv_errors tv)\<close> assms(3))
qed

lemma removeNode_walks:
  assumes "dual_graph g" "n \<in> dom (cg_nodes g)" "card (dom (cg_nodes g) - set (tv_visited tv)) < fuel"
    and "walk_ok (\<lambda>n. set (users_of g n)) (\<lambda>n. set (deps_of g n)) X tv" "setError \<or> X = {}"
  shows "\<exists>tv'. removeNode ops g fuel setError n tv = Some (tv' :: 'w Traversal) \<and>
    walked (\<lambda>n. set (users_of g n)) (\<lambda>n. set (deps_of g n)) (dom (cg_nodes g)) X n tv tv' \<and>
    (setError \<longrightarrow> n \<in> set (tv_visited tv'))"
  using assms(2-)
proof (induction fuel arbitrary: setError n tv X)
  case (Suc f)
  let ?N = "dom (cg_nodes g)" and ?b = "\<lambda>n. set (users_of g n)" and ?a = "\<lambda>n. set (deps_of g n)"
  note dual = dual_graphD[OF assms(1)]
  have loop: "\<exists>tv'. foldO (removeNode ops g f err) (deps_of g n) tv1 = Some tv' \<and> walk_ok ?b ?a Y tv' \<and>
      set (tv_visited tv1) \<subseteq> set (tv_visited tv') \<and> dom (tv_errors tv1) \<subseteq> dom (tv_errors tv') \<and> (err \<longrightarrow> set (deps_of g n) \<subseteq> set (tv_visited tv')) \<and>
      (\<forall>S. ready ?b ?N tv1 S \<longrightarrow> ready ?b ?N tv' (S - set (deps_of g n)))"
    if n: "n \<notin> set (tv_visited tv)" "walk_ok ?b ?a Y tv1" "tv_visited tv1 = n # tv_visited tv" "err \<or> Y = {}" for Y err tv1
  proof (rule walk_loop[where V = "insert n (set (tv_visited tv))"])
    fix m and tv2 :: "'w Traversal"
    assume m: "m \<in> set (deps_of g n)" "walk_ok ?b ?a Y tv2" "insert n (set (tv_visited tv)) \<subseteq> set (tv_visited tv2)"
    from card_left[OF dual(1) Suc.prems(1) n(1) Suc.prems(2) m(3)] m dual(3) n(4)
    show "\<exists>tv'. removeNode ops g f err m tv2 = Some tv' \<and> walked ?b ?a ?N Y m tv2 tv' \<and> (err \<longrightarrow> m \<in> set (tv_visited tv'))"
      by (intro Suc.IH) auto
  qed (use n in auto)
  have dual': "\<And>m. n \<in> ?b m \<Longrightarrow> m \<in> ?a n" "\<And>m. m \<in> ?b n \<Longrightarrow> n \<in> ?a m" using dual(2) by auto
  consider "n \<in> set (tv_visited tv)" | "n \<notin> set (tv_visited tv)" setError
    | "n \<notin> set (tv_visited tv)" "\<not> setError" "\<not> ?b n \<subseteq> set (tv_visited tv)"
    | "n \<notin> set (tv_visited tv)" "\<not> setError" "?b n \<subseteq> set (tv_visited tv)" by blast
  then show ?case
  proof cases
    case 1
    with walked_same[OF Suc.prems(3)] show ?thesis by auto
  next
    case 2
    let ?tv1 = "setErr n (Some ErrCtrStateInvalid) (markVisited n tv)"
    have ok: "walk_ok ?b ?a (insert n X) ?tv1" by (rule walk_ok_error[OF Suc.prems(3) 2(1)]) (simp_all add: 2(1))
    have vis: "tv_visited ?tv1 = n # tv_visited tv" by (simp add: 2(1))
    from loop[OF 2(1) ok vis, of True] obtain tv2 where r: "foldO (removeNode ops g f True) (deps_of g n) ?tv1 = Some tv2"
      "walk_ok ?b ?a (insert n X) tv2" "set (tv_visited ?tv1) \<subseteq> set (tv_visited tv2)"
      "dom (tv_errors ?tv1) \<subseteq> dom (tv_errors tv2)" "set (deps_of g n) \<subseteq> set (tv_visited tv2)"
      "\<And>S. ready ?b ?N ?tv1 S \<Longrightarrow> ready ?b ?N tv2 (S - ?a n)" by blast
    have er: "dom (tv_errors tv) \<subseteq> dom (tv_errors tv2)" using r(4) by auto
    have w: "walked ?b ?a ?N X n tv tv2"
      using walked_visit[OF walk_ok_settle[OF r(2)] r(3) er r(6) _ dual'(1)] r(5) vis by simp
    have n: "n \<in> set (tv_visited tv2)" using r(3) vis by auto
    have "0 < card (?N - set (tv_visited tv))" using 2(1) Suc.prems(1) dual(1) by (auto simp: card_gt_0_iff)
    then obtain f' where f: "f = Suc f'" using Suc.prems(2) by (cases f) auto
    obtain tv3 err where a: "removeActions ops g n tv2 = (tv3, err)" by fastforce
    show ?thesis
    proof (cases "?b n \<subseteq> set (tv_visited tv2)")
      case False
      with r w n 2 show ?thesis by (auto simp: list_all_iff)
    next
      case True
      have "tv_errors tv2 n \<noteq> None" using r(4) by auto
      note same = removeActions_same[OF a]
      have "walk_ok ?b ?a X (setErr n err tv3)"
        using walk_ok_again[OF _ \<open>tv_errors tv2 n \<noteq> None\<close> same] w by (simp add: walked_def)
      moreover have "ready ?b ?N (setErr n err tv3) S = ready ?b ?N tv2 S" for S by (simp add: ready_def same)
      moreover have "dom (tv_errors tv2) \<subseteq> dom (tv_errors (setErr n err tv3))" using same by (cases err) auto
      ultimately have "walked ?b ?a ?N X n tv (setErr n err tv3)"
        using w same unfolding walked_def by (simp del: domIff) blast
      moreover have "foldO (removeNode ops g f (err \<noteq> None)) (deps_of g n) (setErr n err tv3) = Some (setErr n err tv3)"
        unfolding f by (rule removeNode_visited) (simp add: same r(5))
      ultimately show ?thesis using True 2 r(1) n a same(1) by (auto simp: list_all_iff)
    qed
  next
    case 3
    with walked_same[OF Suc.prems(3)] show ?thesis by (auto simp: list_all_iff)
  next
    case 4
    obtain tv2 err where a: "removeActions ops g n (markVisited n tv) = (tv2, err)" by fastforce
    let ?tv1 = "setErr n err tv2"
    have X: "X = {}" using Suc.prems(4) 4(2) by simp
    have vis: "tv_visited ?tv1 = n # tv_visited tv" and er: "err \<noteq> None \<or> (if err = None then {} else {n}) = {}"
      using removeActions_same[OF a] 4(1) by simp_all
    have ok: "walk_ok ?b ?a (if err = None then {} else {n}) ?tv1"
    proof (cases err)
      case None
      with walk_ok_visit[OF Suc.prems(3)[unfolded X] 4(1,3) vis _ dual'(2)] removeActions_same[OF a] show ?thesis by simp
    next
      case (Some e)
      with walk_ok_error[OF Suc.prems(3)[unfolded X] 4(1) vis, of e] removeActions_same[OF a] show ?thesis by simp
    qed
    from loop[OF 4(1) ok vis er] obtain tv' where r: "foldO (removeNode ops g f (err \<noteq> None)) (deps_of g n) ?tv1 = Some tv'"
      "walk_ok ?b ?a (if err = None then {} else {n}) tv'" "set (tv_visited ?tv1) \<subseteq> set (tv_visited tv')"
      "dom (tv_errors ?tv1) \<subseteq> dom (tv_errors tv')" "err \<noteq> None \<Longrightarrow> set (deps_of g n) \<subseteq> set (tv_visited tv')"
      "\<And>S. ready ?b ?N ?tv1 S \<Longrightarrow> ready ?b ?N tv' (S - ?a n)" by blast
    have er': "dom (tv_errors tv) \<subseteq> dom (tv_errors tv')" using r(4) removeActions_same[OF a] by (cases err) auto
    have "walk_ok ?b ?a {} tv'" using r(2,5) walk_ok_settle[of ?b ?a n "{}" tv'] by (cases err) auto
    from walked_visit[OF this r(3) er' r(6) _ dual'(1)] vis have "walked ?b ?a ?N X n tv tv'" by (simp add: X)
    with 4 r(1) a show ?thesis by (auto simp: list_all_iff)
  qed
qed simp

end
