(* ===== verification/GraphProps.thy ===== *)
theory GraphProps
  imports GraphOrder
begin

text \<open>
  Properties of the dependency graph: it is built exactly when there is no cycle of two or more containers,
  and the walks start and remove the containers in the order of the dependencies.
\<close>

text \<open>The dependencies among the containers of a list.\<close>

definition depRel :: "Container list \<Rightarrow> (string \<times> string) set" where
  "depRel ctrs = {(a, b). b \<in> set (deps_in (ctr_map ctrs) a)}"

definition ctr_ids :: "Container list \<Rightarrow> string set" where
  "ctr_ids ctrs = ctr_ID ` set ctrs"

definition enumerates :: "string list \<Rightarrow> Container list \<Rightarrow> bool" where
  "enumerates order ctrs \<longleftrightarrow> distinct order \<and> set order = ctr_ids ctrs"

abbreviation built :: "string list \<Rightarrow> Container list \<Rightarrow> ContainerGraph" where
  "built order ctrs \<equiv> graph_upto (ctr_map ctrs) order"

lemma built_deps:
  assumes "enumerates order ctrs"
  shows "deps_of (built order ctrs) n = deps_in (ctr_map ctrs) n"
proof (cases "ctr_map ctrs n")
  case (Some c)
  then have "n \<in> set order" using assms ctr_map_dom[of ctrs] by (auto simp: enumerates_def ctr_ids_def)
  with Some show ?thesis by (simp add: deps_of_def deps_in_def node_upto_def)
qed (simp add: deps_of_def deps_in_def)

lemma built_edges: "enumerates order ctrs \<Longrightarrow> edges (built order ctrs) = depRel ctrs"
  by (simp add: built_deps depRel_def)

lemma built_dual:
  assumes "enumerates order ctrs" "\<forall>n \<in> ctr_ids ctrs. set (deps_in (ctr_map ctrs) n) \<subseteq> ctr_ids ctrs"
  shows "dual_graph (built order ctrs)" "closed_graph (built order ctrs)"
proof -
  have dom: "dom (ctr_map ctrs) = ctr_ids ctrs" by (simp add: ctr_map_dom ctr_ids_def)
  have out: "deps_in (ctr_map ctrs) n = []" if "n \<notin> ctr_ids ctrs" for n
    using that dom by (cases "ctr_map ctrs n") (auto simp: deps_in_def)
  have sub: "set (deps_in (ctr_map ctrs) n) \<subseteq> ctr_ids ctrs" for n
    using assms(2) out[of n] by (cases "n \<in> ctr_ids ctrs") auto
  have "m \<in> set (users_of (built order ctrs) n) \<longleftrightarrow> n \<in> set (deps_in (ctr_map ctrs) m)" for n m
  proof (cases "ctr_map ctrs n")
    case None
    then have "n \<notin> ctr_ids ctrs" using dom by auto
    with sub None show ?thesis by (auto simp: users_of_def)
  next
    case (Some c)
    have "m \<in> set order" if "n \<in> set (deps_in (ctr_map ctrs) m)"
      using that out[of m] assms(1) by (cases "m \<in> ctr_ids ctrs") (auto simp: enumerates_def)
    with Some show ?thesis by (auto simp: users_of_def node_upto_def)
  qed
  then show "dual_graph (built order ctrs)"
    using sub by (simp add: dual_graph_def built_deps[OF assms(1)] dom ctr_ids_def)
  show "closed_graph (built order ctrs)"
    using sub by (simp add: closed_graph_def built_deps[OF assms(1)] dom ctr_ids_def)
qed

definition has_cycle :: "Container list \<Rightarrow> bool" where
  "has_cycle ctrs \<longleftrightarrow> (\<exists>a b. a \<noteq> b \<and> (a, b) \<in> (depRel ctrs)\<^sup>* \<and> (b, a) \<in> (depRel ctrs)\<^sup>*)"

lemma built_cycle: "enumerates order ctrs \<Longrightarrow> (\<exists>x. proper_cycle (built order ctrs) x) \<longleftrightarrow> has_cycle ctrs"
  unfolding has_cycle_def proper_cycle_def by (simp add: built_edges) blast

lemma build_result:
  assumes "enumerates order ctrs" "enumerates order' ctrs"
  shows "BuildContainerGraph order order' ctrs =
    Some (if \<not> (\<forall>n \<in> ctr_ids ctrs. set (deps_in (ctr_map ctrs) n) \<subseteq> ctr_ids ctrs) then Inl ErrNoSuchCtr
          else if has_cycle ctrs then Inl ErrInternal
          else Inr (built order ctrs))"
proof -
  have dom: "dom (ctr_map ctrs) = ctr_ids ctrs" by (simp add: ctr_map_dom ctr_ids_def)
  have "foldE addEdges order (graph_upto (ctr_map ctrs) []) =
      (if \<forall>n \<in> ctr_ids ctrs. set (deps_in (ctr_map ctrs) n) \<subseteq> ctr_ids ctrs then Inr (built order ctrs) else Inl ErrNoSuchCtr)"
    using foldE_addEdges[of order "ctr_map ctrs" "[]"] assms(1) dom by (simp add: enumerates_def)
  moreover have "detectCycles (built order ctrs) order' = Some (Inr (has_cycle ctrs))"
    if "\<forall>n \<in> ctr_ids ctrs. set (deps_in (ctr_map ctrs) n) \<subseteq> ctr_ids ctrs"
    using detectCycles_decides[OF built_dual(2)[OF assms(1) that], of order'] assms(2) dom built_cycle[OF assms(1)]
    by (simp add: enumerates_def)
  ultimately show ?thesis by (auto simp: BuildContainerGraph_def start_graph)
qed

text \<open>
  C27. Cycle detection is exact and ends: for a graph whose edges stay inside it and every order of
  iteration, \<open>detectCycles\<close> returns without an error, and it returns true when, and only when, some
  node reaches another one and is reached from it.
\<close>

theorem detectCycles_exact:
  assumes "closed_graph g" "set order = dom (cg_nodes g)" "distinct order"
  shows "detectCycles g order =
    Some (Inr (\<exists>x y. x \<noteq> y \<and> (x, y) \<in> {(u, v). v \<in> set (deps_of g u)}\<^sup>* \<and> (y, x) \<in> {(u, v). v \<in> set (deps_of g u)}\<^sup>*))"
proof -
  have "(\<exists>x. proper_cycle g x) = (\<exists>x y. x \<noteq> y \<and> (x, y) \<in> (edges g)\<^sup>* \<and> (y, x) \<in> (edges g)\<^sup>*)"
    unfolding proper_cycle_def by blast
  with detectCycles_decides[OF assms] show ?thesis by simp
qed

definition two_cycle :: ContainerGraph where
  "two_cycle = \<lparr>cg_nodes = [''a'' \<mapsto> \<lparr>cn_id = ''a'', cn_container = undefined, cn_dependsOn = [''b''], cn_dependedOn = [''b'']\<rparr>,
     ''b'' \<mapsto> \<lparr>cn_id = ''b'', cn_container = undefined, cn_dependsOn = [''a''], cn_dependedOn = [''a'']\<rparr>],
     cg_noDepNodes = [], cg_notDependedOnNodes = {}\<rparr>"

theorem detectCycles_exact_witness: "detectCycles two_cycle [''a'', ''b''] = Some (Inr True)"
proof -
  have d: "deps_of two_cycle n = (if n = ''b'' then [''a''] else if n = ''a'' then [''b''] else [])" for n
    by (simp add: two_cycle_def deps_of_def)
  have e: "(''a'', ''b'') \<in> edges two_cycle" "(''b'', ''a'') \<in> edges two_cycle" by (simp_all add: d)
  have "closed_graph two_cycle" by (auto simp: closed_graph_def d) (auto simp: two_cycle_def)
  from detectCycles_exact[OF this, of "[''a'', ''b'']"] have
    "detectCycles two_cycle [''a'', ''b''] =
       Some (Inr (\<exists>x y. x \<noteq> y \<and> (x, y) \<in> (edges two_cycle)\<^sup>* \<and> (y, x) \<in> (edges two_cycle)\<^sup>*))"
    by (auto simp: two_cycle_def)
  moreover have "\<exists>x y. x \<noteq> y \<and> (x, y) \<in> (edges two_cycle)\<^sup>* \<and> (y, x) \<in> (edges two_cycle)\<^sup>*"
    using r_into_rtrancl[OF e(1)] r_into_rtrancl[OF e(2)] by (intro exI[of _ "''a''"] exI[of _ "''b''"]) simp
  ultimately show ?thesis by simp
qed

text \<open>
  C28. \<open>BuildContainerGraph\<close> always returns, whatever the orders of iteration are: it fails
  with \<open>ErrNoSuchCtr\<close> exactly when a dependency is not in the list, with \<open>ErrInternal\<close> exactly when
  two different containers depend on each other, and otherwise the nodes carry the dependencies of their
  containers and, in the other direction, exactly the containers that depend on them.
\<close>

theorem BuildContainerGraph_exact:
  assumes "enumerates order ctrs" "enumerates order' ctrs"
  shows "\<exists>r. BuildContainerGraph order order' ctrs = Some r \<and>
    (r = Inl ErrNoSuchCtr \<longleftrightarrow> \<not> Field (depRel ctrs) \<subseteq> ctr_ids ctrs) \<and>
    (r = Inl ErrInternal \<longleftrightarrow> Field (depRel ctrs) \<subseteq> ctr_ids ctrs \<and> has_cycle ctrs) \<and>
    (Field (depRel ctrs) \<subseteq> ctr_ids ctrs \<and> \<not> has_cycle ctrs \<longrightarrow>
       (\<exists>g. r = Inr g \<and> dom (cg_nodes g) = ctr_ids ctrs \<and>
          (\<forall>n m. m \<in> set (deps_of g n) \<longleftrightarrow> (n, m) \<in> depRel ctrs) \<and>
          (\<forall>n m. m \<in> set (users_of g n) \<longleftrightarrow> (m, n) \<in> depRel ctrs) \<and>
          set (cg_noDepNodes g) = {n \<in> ctr_ids ctrs. \<forall>m. (n, m) \<notin> depRel ctrs} \<and>
          cg_notDependedOnNodes g = {n \<in> ctr_ids ctrs. \<forall>m. (m, n) \<notin> depRel ctrs}))"
proof -
  have dom: "dom (ctr_map ctrs) = ctr_ids ctrs" by (simp add: ctr_map_dom ctr_ids_def)
  have out: "deps_in (ctr_map ctrs) n = []" if "n \<notin> ctr_ids ctrs" for n
    using that dom by (cases "ctr_map ctrs n") (auto simp: deps_in_def)
  have field: "Field (depRel ctrs) \<subseteq> ctr_ids ctrs \<longleftrightarrow> (\<forall>n \<in> ctr_ids ctrs. set (deps_in (ctr_map ctrs) n) \<subseteq> ctr_ids ctrs)"
    using out by (force simp: Field_def depRel_def)
  show ?thesis
  proof (cases "Field (depRel ctrs) \<subseteq> ctr_ids ctrs \<and> \<not> has_cycle ctrs")
    case True
    let ?g = "built order ctrs"
    have dual: "dual_graph ?g" using built_dual(1)[OF assms(1)] True field by blast
    have deps: "m \<in> set (deps_of ?g n) \<longleftrightarrow> (n, m) \<in> depRel ctrs" for n m by (simp add: built_deps[OF assms(1)] depRel_def)
    moreover have "m \<in> set (users_of ?g n) \<longleftrightarrow> (m, n) \<in> depRel ctrs" for n m
      using dual_graphD(2)[OF dual] deps by blast
    moreover have "set (cg_noDepNodes ?g) = {n \<in> ctr_ids ctrs. \<forall>m. (n, m) \<notin> depRel ctrs}"
      using assms(1) by (auto simp: graph_upto_def enumerates_def depRel_def)
    moreover have "cg_notDependedOnNodes ?g = {n \<in> ctr_ids ctrs. \<forall>m. (m, n) \<notin> depRel ctrs}"
      using assms(1) True by (auto simp: graph_upto_def enumerates_def depRel_def dom Field_def)
    ultimately show ?thesis using True field build_result[OF assms] by (auto simp: dom)
  qed (use build_result[OF assms] field in auto)
qed

definition ctr_of :: "string \<Rightarrow> string list \<Rightarrow> Container" where
  "ctr_of n deps = \<lparr>ctr_config = zero_ContainerConfig\<lparr>cfg_ID := n, cfg_Dependencies := deps\<rparr>,
     ctr_state = zero_ContainerState, ctr_valid = True, ctr_lock = None, ctr_ociRuntime = None\<rparr>"

definition demo_pair :: "Container list" where
  "demo_pair = [ctr_of ''a'' [], ctr_of ''b'' [''a'']]"

lemma demo_pair_simps:
  "ctr_ids demo_pair = {''a'', ''b''}" "enumerates [''b'', ''a''] demo_pair" "enumerates [''a'', ''b''] demo_pair"
  "deps_in (ctr_map demo_pair) n = (if n = ''b'' then [''a''] else [])"
  by (auto simp: ctr_ids_def enumerates_def demo_pair_def ctr_of_def zero_ContainerConfig_def deps_in_def ctr_map_def
      Dependencies_def cfg_depends_def)

lemma demo_pair_depends: "depRel demo_pair = {(''b'', ''a'')}"
  by (auto simp: depRel_def demo_pair_simps split: if_splits)

lemma demo_pair_acyclic: "\<not> has_cycle demo_pair"
proof -
  have step: "x = y \<or> x = ''b'' \<and> y = ''a''" if "(x, y) \<in> {(''b'', ''a'')}\<^sup>*" for x y
    using that by (induction rule: rtrancl_induct) auto
  have False if "a \<noteq> b" "(a, b) \<in> {(''b'', ''a'')}\<^sup>*" "(b, a) \<in> {(''b'', ''a'')}\<^sup>*" for a b
    using step[OF that(2)] step[OF that(3)] that(1) by auto
  then show ?thesis unfolding has_cycle_def demo_pair_depends by blast
qed

theorem BuildContainerGraph_exact_witness:
  "\<exists>g. BuildContainerGraph [''b'', ''a''] [''a'', ''b''] demo_pair = Some (Inr g) \<and> set (users_of g ''a'') = {''b''}"
proof -
  have f: "Field (depRel demo_pair) \<subseteq> ctr_ids demo_pair" by (simp add: demo_pair_depends demo_pair_simps(1) Field_def)
  from BuildContainerGraph_exact[OF demo_pair_simps(2,3)] f demo_pair_acyclic obtain g where
    g: "BuildContainerGraph [''b'', ''a''] [''a'', ''b''] demo_pair = Some (Inr g)"
    "\<forall>n m. m \<in> set (users_of g n) \<longleftrightarrow> (m, n) \<in> depRel demo_pair" by blast
  from g(2) have "set (users_of g ''a'') = {m. (m, ''a'') \<in> depRel demo_pair}" by blast
  with g(1) show ?thesis by (simp add: demo_pair_depends)
qed

section \<open>The walks\<close>

lemma build_success:
  assumes "BuildContainerGraph order order' ctrs = Some (Inr g)" "enumerates order ctrs" "enumerates order' ctrs"
  shows "g = built order ctrs" "dual_graph g" "\<not> has_cycle ctrs" "dom (cg_nodes g) = ctr_ids ctrs"
proof -
  have "\<forall>n \<in> ctr_ids ctrs. set (deps_in (ctr_map ctrs) n) \<subseteq> ctr_ids ctrs" and g: "g = built order ctrs" and "\<not> has_cycle ctrs"
    using assms(1) unfolding build_result[OF assms(2,3)] by (auto split: if_splits)
  then show "g = built order ctrs" "dual_graph g" "\<not> has_cycle ctrs" "dom (cg_nodes g) = ctr_ids ctrs"
    using built_dual(1)[OF assms(2)] by (simp_all add: ctr_map_dom ctr_ids_def)
qed

lemma card_ids: "enumerates order ctrs \<Longrightarrow> card (ctr_ids ctrs) = length order"
  using distinct_card[of order] by (simp add: enumerates_def)

lemma walk_ok_start: "walk_ok before after {} (startTraversal w)"
  by (simp add: walk_ok_def startTraversal_def)

lemma walk_from:
  assumes "\<And>m tv. m \<in> set ms \<Longrightarrow> walk_ok before after {} tv \<Longrightarrow> \<exists>tv'. f m tv = Some tv' \<and> walked before after N {} m tv tv'"
    and "{n \<in> N. before n = {}} \<subseteq> set ms"
  shows "\<exists>tv. foldO f ms (startTraversal w) = Some tv \<and> walk_ok before after {} tv \<and> ready before N tv {}"
proof -
  have "\<exists>tv'. foldO f ms (startTraversal w) = Some tv' \<and> walk_ok before after {} tv' \<and>
     set (tv_visited (startTraversal w)) \<subseteq> set (tv_visited tv') \<and> dom (tv_errors (startTraversal w)) \<subseteq> dom (tv_errors tv') \<and>
     (False \<longrightarrow> set ms \<subseteq> set (tv_visited tv')) \<and>
     (\<forall>S. ready before N (startTraversal w) S \<longrightarrow> ready before N tv' (S - set ms))"
    by (rule walk_loop[where V = "{}"]) (use assms(1) walk_ok_start in auto)
  then obtain tv where tv: "foldO f ms (startTraversal w) = Some tv" "walk_ok before after {} tv"
    "ready before N (startTraversal w) (set ms) \<longrightarrow> ready before N tv {}" by (metis Diff_cancel)
  moreover have "ready before N (startTraversal w) (set ms)" using assms(2) by (auto simp: ready_def startTraversal_def)
  ultimately show ?thesis by blast
qed

lemma startNodes_walk:
  assumes "BuildContainerGraph order order' ctrs = Some (Inr g)" "enumerates order ctrs" "enumerates order' ctrs"
  shows "\<exists>tv. startNodes ops g restart (length order) w = Some (tv :: 'w Traversal) \<and>
    walk_ok (\<lambda>n. set (deps_of g n)) (\<lambda>n. set (users_of g n)) {} tv \<and> ready (\<lambda>n. set (deps_of g n)) (ctr_ids ctrs) tv {}"
proof -
  note b = build_success[OF assms]
  have d: "deps_of g n = deps_in (ctr_map ctrs) n" for n by (simp add: b(1) built_deps[OF assms(2)])
  have noDep: "set (cg_noDepNodes g) = {n \<in> ctr_ids ctrs. deps_of g n = []}"
    unfolding d using assms(2) by (auto simp: b(1) graph_upto_def enumerates_def)
  have "card (ctr_ids ctrs - V) < Suc (length order)" for V
    using card_mono[of "ctr_ids ctrs" "ctr_ids ctrs - V"] card_ids[OF assms(2)] by (simp add: ctr_ids_def less_Suc_eq_le)
  then have "\<exists>tv'. startNode ops g restart (Suc (length order)) False m tv = Some tv' \<and>
      walked (\<lambda>n. set (deps_of g n)) (\<lambda>n. set (users_of g n)) (ctr_ids ctrs) {} m tv tv'"
    if "m \<in> set (cg_noDepNodes g)" "walk_ok (\<lambda>n. set (deps_of g n)) (\<lambda>n. set (users_of g n)) {} tv" for m and tv :: "'w Traversal"
    using startNode_walks[OF b(2) _ _ that(2), unfolded b(4), of m "Suc (length order)" False ops restart] that(1) noDep by blast
  moreover have "{n \<in> ctr_ids ctrs. set (deps_of g n) = {}} \<subseteq> set (cg_noDepNodes g)" using noDep by simp
  ultimately show ?thesis unfolding startNodes_def by (rule walk_from)
qed

text \<open>A graph without a cycle and without a container that depends on itself has no infinite path.\<close>

lemma acyclic_depends:
  assumes "\<not> has_cycle ctrs" "\<forall>n. (n, n) \<notin> depRel ctrs"
  shows "acyclic (depRel ctrs)"
proof (rule acyclicI, rule allI, rule notI)
  fix x assume "(x, x) \<in> (depRel ctrs)\<^sup>+"
  then obtain y where y: "(x, y) \<in> depRel ctrs" "(y, x) \<in> (depRel ctrs)\<^sup>*" by (blast dest: tranclD)
  then have "x \<noteq> y" using assms(2) by auto
  with y assms(1) show False unfolding has_cycle_def by blast
qed

lemma ready_all:
  assumes "ready before N tv {}" "finite N" "acyclic {(a, b). b \<in> before a}" "\<And>n. before n \<subseteq> N"
  shows "N \<subseteq> set (tv_visited tv)"
proof (rule ccontr)
  define R where "R = {(a, b). b \<in> before a} \<inter> N \<times> N"
  assume "\<not> N \<subseteq> set (tv_visited tv)"
  then obtain z where z: "z \<in> N - set (tv_visited tv)" by blast
  have "finite R" using assms(2) by (auto simp: R_def)
  moreover have "acyclic R" using assms(3) by (rule acyclic_subset) (auto simp: R_def)
  ultimately have "wf (R\<inverse>)" by (rule finite_acyclic_wf_converse)
  from wfE_min[OF this z] obtain u where u: "u \<in> N - set (tv_visited tv)" "\<And>y. (u, y) \<in> R \<Longrightarrow> y \<notin> N - set (tv_visited tv)"
    by auto
  have "before u \<subseteq> set (tv_visited tv)" using u assms(4)[of u] by (auto simp: R_def)
  with assms(1) u(1) show False by (auto simp: ready_def)
qed

text \<open>
  C29. Containers are started in the order of their dependencies: the walk ends, no container is visited twice,
  and a container that was visited without an error was visited after all its dependencies, which have no
  error either; so a container whose dependency failed is never started.
\<close>

theorem start_after_dependencies:
  assumes "BuildContainerGraph order order' ctrs = Some (Inr g)" "enumerates order ctrs" "enumerates order' ctrs"
  shows "\<exists>tv. startNodes ops g restart (length order) w = Some tv \<and> distinct (tv_visited tv) \<and>
    (\<forall>later n earlier d. tv_visited tv = later @ n # earlier \<and> tv_errors tv n = None \<and> (n, d) \<in> depRel ctrs \<longrightarrow>
       d \<in> set earlier \<and> tv_errors tv d = None)"
proof -
  from startNodes_walk[OF assms, of ops restart w] obtain tv where tv: "startNodes ops g restart (length order) w = Some tv"
    "walk_ok (\<lambda>n. set (deps_of g n)) (\<lambda>n. set (users_of g n)) {} tv" by blast
  have d: "set (deps_of g n) = {d. (n, d) \<in> depRel ctrs}" for n
    by (simp add: build_success(1)[OF assms] built_deps[OF assms(2)] depRel_def)
  have "d \<in> set ys \<and> tv_errors tv d = None"
    if "tv_visited tv = xs @ n # ys" "tv_errors tv n = None" "(n, d) \<in> depRel ctrs" for xs n ys d
    using walk_okD(4)[OF tv(2) that(1,2), unfolded d] that(3) by blast
  then show ?thesis using tv(1) walk_okD(1)[OF tv(2)] by blast
qed

definition idle_ops :: "string list ctrOps" where
  "idle_ops = \<lparr>co_checkDeps = (\<lambda>n w. (w, Inr [])), co_sync = (\<lambda>n w. (w, None)), co_State = (\<lambda>n w. ContainerStateConfigured),
     co_isInit = (\<lambda>n. False), co_initAndStart = (\<lambda>n w. (n # w, None)), co_restart = (\<lambda>n w. (n # w, None)),
     co_exists = (\<lambda>n w. n \<notin> set w), co_dropInfra = (\<lambda>n w. (w, None)), co_remove = (\<lambda>n w. (n # w, None))\<rparr>"

lemma demo_built: "BuildContainerGraph [''b'', ''a''] [''a'', ''b''] demo_pair = Some (Inr (built [''b'', ''a''] demo_pair))"
  by (simp add: build_result[OF demo_pair_simps(2,3)] demo_pair_acyclic demo_pair_simps(1,4))

theorem start_after_dependencies_witness:
  "\<exists>tv. startNodes idle_ops (built [''b'', ''a''] demo_pair) False 2 [] = Some tv \<and>
     (\<forall>later earlier. tv_visited tv = later @ ''b'' # earlier \<and> tv_errors tv ''b'' = None \<longrightarrow> ''a'' \<in> set earlier)"
proof -
  from start_after_dependencies[OF demo_built demo_pair_simps(2,3), of idle_ops False "[]"] obtain tv where
    tv: "startNodes idle_ops (built [''b'', ''a''] demo_pair) False 2 [] = Some tv"
    "\<forall>later n earlier d. tv_visited tv = later @ n # earlier \<and> tv_errors tv n = None \<and> (n, d) \<in> depRel demo_pair \<longrightarrow>
       d \<in> set earlier \<and> tv_errors tv d = None" by (auto simp: numeral_2_eq_2)
  have "(''b'', ''a'') \<in> depRel demo_pair" by (simp add: demo_pair_depends)
  with tv show ?thesis by blast
qed

text \<open>
  C30. Every container is dealt with: when no container depends on itself, the walk visits all
  containers of the graph, so each of them was started or has an error in the map that is returned.
\<close>

theorem start_reaches_all:
  assumes "BuildContainerGraph order order' ctrs = Some (Inr g)" "enumerates order ctrs" "enumerates order' ctrs"
    and "\<forall>n. (n, n) \<notin> depRel ctrs"
  shows "\<exists>tv. startNodes ops g restart (length order) w = Some tv \<and> ctr_ids ctrs \<subseteq> set (tv_visited tv)"
proof -
  from startNodes_walk[OF assms(1-3), of ops restart w] obtain tv where tv: "startNodes ops g restart (length order) w = Some tv"
    "ready (\<lambda>n. set (deps_of g n)) (ctr_ids ctrs) tv {}" by blast
  note b = build_success[OF assms(1-3)]
  have e: "{(a, b). b \<in> set (deps_of g a)} = depRel ctrs" by (simp add: b(1) built_edges[OF assms(2)])
  have "ctr_ids ctrs \<subseteq> set (tv_visited tv)"
    by (rule ready_all[OF tv(2)]) (use e acyclic_depends[OF b(3) assms(4)] dual_graphD(3)[OF b(2)] b(4) in \<open>simp_all add: ctr_ids_def\<close>)
  with tv(1) show ?thesis by blast
qed

theorem start_reaches_all_witness:
  "\<exists>tv. startNodes idle_ops (built [''b'', ''a''] demo_pair) False 2 [] = Some tv \<and> {''a'', ''b''} \<subseteq> set (tv_visited tv)"
  using start_reaches_all[OF demo_built demo_pair_simps(2,3), of idle_ops False "[]"]
  by (simp add: demo_pair_depends demo_pair_simps(1) numeral_2_eq_2)

text \<open>A walk in which no operation fails records no error.\<close>

lemma foldO_keeps:
  assumes "foldO f xs s = Some s'" "\<And>x s s'. f x s = Some s' \<Longrightarrow> h s' = h s"
  shows "h s' = h s"
  using assms(1)
proof (induction xs arbitrary: s)
  case (Cons x xs)
  then obtain t where t: "f x s = Some t" "foldO f xs t = Some s'" by (cases "f x s") auto
  from Cons.IH[OF t(2)] assms(2)[OF t(1)] show ?case by simp
qed simp

lemma startNode_no_error:
  assumes "\<And>m w. snd (startActions ops restart m w) = None" "startNode ops g restart fuel False n tv = Some tv'"
  shows "tv_errors tv' = tv_errors tv"
  using assms(2)
proof (induction fuel arbitrary: n tv tv')
  case (Suc f)
  obtain w err where a: "startActions ops restart n (tv_world tv) = (w, err)" by fastforce
  then have "err = None" using assms(1)[of n "tv_world tv"] by simp
  with a Suc.prems show ?case
    by (auto split: if_splits dest!: foldO_keeps[where h = tv_errors, OF _ Suc.IH])
qed simp

text \<open>
  C31. A container that depends on itself passes the cycle detection, is never started and has no error: when no
  operation fails, \<open>Start\<close> of the pod reports success without having visited it. The comment of
  \<open>Start\<close> says that all containers were started when neither an error nor a map is returned.
\<close>

theorem self_dependent_never_started:
  assumes "BuildContainerGraph order order' ctrs = Some (Inr g)" "enumerates order ctrs" "enumerates order' ctrs"
    and "(n, n) \<in> depRel ctrs" "cg_noDepNodes g \<noteq> []" "\<And>m w. snd (startActions ops restart m w) = None"
  shows "\<exists>tv. startNodes ops g restart (length order) w = Some tv \<and> n \<notin> set (tv_visited tv) \<and>
    startContainers ops restart order order' ctrs w = Some (tv_world tv, Inr Map.empty)"
proof -
  from startNodes_walk[OF assms(1-3), of ops restart w] obtain tv where tv: "startNodes ops g restart (length order) w = Some tv"
    "walk_ok (\<lambda>n. set (deps_of g n)) (\<lambda>n. set (users_of g n)) {} tv" by blast
  have "tv_errors tv = tv_errors (startTraversal w)"
    by (rule foldO_keeps[OF tv(1)[unfolded startNodes_def]]) (erule startNode_no_error[OF assms(6)])
  then have errs: "tv_errors tv = Map.empty" by (simp add: startTraversal_def)
  have n: "n \<in> set (deps_of g n)"
    using assms(4) by (simp add: build_success(1)[OF assms(1-3)] built_deps[OF assms(2)] depRel_def)
  have "n \<notin> set (tv_visited tv)"
  proof
    assume "n \<in> set (tv_visited tv)"
    then obtain xs ys where v: "tv_visited tv = xs @ n # ys" by (blast dest: split_list)
    with walk_okD(4)[OF tv(2) v] errs n walk_okD(1)[OF tv(2)] show False by auto
  qed
  with tv(1) errs assms(1,5) show ?thesis by (auto simp: startContainers_def)
qed

definition demo_self :: "Container list" where
  "demo_self = [ctr_of ''a'' [], ctr_of ''b'' [''b'']]"

lemma demo_self_simps:
  "ctr_ids demo_self = {''a'', ''b''}" "enumerates [''a'', ''b''] demo_self"
  "deps_in (ctr_map demo_self) n = (if n = ''b'' then [''b''] else [])"
  by (auto simp: ctr_ids_def enumerates_def demo_self_def ctr_of_def zero_ContainerConfig_def deps_in_def ctr_map_def
      Dependencies_def cfg_depends_def)

lemma demo_self_depends: "depRel demo_self = {(''b'', ''b'')}"
  by (auto simp: depRel_def demo_self_simps split: if_splits)

lemma demo_self_built: "BuildContainerGraph [''a'', ''b''] [''a'', ''b''] demo_self = Some (Inr (built [''a'', ''b''] demo_self))"
proof -
  have "x = y" if "(x, y) \<in> {(''b'', ''b'')}\<^sup>*" for x y using that by (induction rule: rtrancl_induct) auto
  then have "\<not> has_cycle demo_self" unfolding has_cycle_def demo_self_depends by blast
  then show ?thesis by (simp add: build_result[OF demo_self_simps(2,2)] demo_self_simps(1,3))
qed

theorem self_dependent_never_started_witness:
  "\<exists>tv :: string list Traversal. ''b'' \<notin> set (tv_visited tv) \<and>
     startContainers idle_ops False [''a'', ''b''] [''a'', ''b''] demo_self [] = Some (tv_world tv, Inr Map.empty)"
proof -
  have "cg_noDepNodes (built [''a'', ''b''] demo_self) \<noteq> []" by (simp add: graph_upto_def demo_self_simps(3))
  moreover have "snd (startActions idle_ops False m w) = None" for m w by (simp add: startActions_def idle_ops_def)
  moreover have "(''b'', ''b'') \<in> depRel demo_self" by (simp add: demo_self_depends)
  ultimately show ?thesis
    using self_dependent_never_started[OF demo_self_built demo_self_simps(2,2), of "''b''" idle_ops False "[]"] by blast
qed

section \<open>Removal\<close>

lemma depends_converse_acyclic: "acyclic (depRel ctrs) \<Longrightarrow> acyclic {(a, b). (b, a) \<in> depRel ctrs}"
  using acyclic_converse[of "depRel ctrs"] by (simp add: converse_unfold)



end
