(* ===== verification/GoUtf8.thy ===== *)
theory GoUtf8
  imports GoStrings
begin

text \<open>
  The part of the packages \<^verbatim>\<open>unicode/utf8\<close> and \<^verbatim>\<open>unicode\<close> of the Go standard library that the models
  use. A Go string is a sequence of bytes, here of characters; ranging over it decodes UTF-8 and yields
  the replacement character for every byte that does not belong to a valid encoding. A rune is a
  natural number.
\<close>

section \<open>Decoding and encoding\<close>

abbreviation byte :: "char \<Rightarrow> nat" where
  "byte c \<equiv> of_char c"

definition RuneError :: nat where
  "RuneError = 65533"

definition MaxRune :: nat where
  "MaxRune = 1114111"

definition cont :: "char \<Rightarrow> bool" where
  "cont c \<longleftrightarrow> 128 \<le> byte c \<and> byte c \<le> 191"

definition validRune :: "nat \<Rightarrow> bool" where
  "validRune r \<longleftrightarrow> r < 55296 \<or> 57344 \<le> r \<and> r \<le> MaxRune"

text \<open>The range of the second byte depends on the first one, which excludes overlong encodings and surrogates.\<close>

definition second :: "nat \<Rightarrow> char \<Rightarrow> bool" where
  "second x c \<longleftrightarrow> cont c \<and>
     (x = 224 \<longrightarrow> 160 \<le> byte c) \<and> (x = 237 \<longrightarrow> byte c \<le> 159) \<and>
     (x = 240 \<longrightarrow> 144 \<le> byte c) \<and> (x = 244 \<longrightarrow> byte c \<le> 143)"

fun decodeRune :: "string \<Rightarrow> nat \<times> nat" where
  "decodeRune [] = (RuneError, 0)"
| "decodeRune (a # s) =
     (let x = byte a in
      if x < 128 then (x, 1)
      else if x < 194 \<or> 244 < x then (RuneError, 1)
      else (case s of
        b # s2 \<Rightarrow>
          if \<not> second x b then (RuneError, 1)
          else if x < 224 then (64 * (x - 192) + (byte b - 128), 2)
          else (case s2 of
            c # s3 \<Rightarrow>
              if \<not> cont c then (RuneError, 1)
              else if x < 240 then (4096 * (x - 224) + 64 * (byte b - 128) + (byte c - 128), 3)
              else (case s3 of
                d # _ \<Rightarrow>
                  if \<not> cont d then (RuneError, 1)
                  else (262144 * (x - 240) + 4096 * (byte b - 128) + 64 * (byte c - 128) + (byte d - 128), 4)
              | [] \<Rightarrow> (RuneError, 1))
          | [] \<Rightarrow> (RuneError, 1))
      | [] \<Rightarrow> (RuneError, 1)))"

declare decodeRune.simps(2) [simp del]

definition encodeRune :: "nat \<Rightarrow> string" where
  "encodeRune r =
     (if r < 128 then [char_of r]
      else if r < 2048 then [char_of (192 + r div 64), char_of (128 + r mod 64)]
      else if \<not> validRune r then [char_of (239 :: nat), char_of (191 :: nat), char_of (189 :: nat)]
      else if r < 65536 then
        [char_of (224 + r div 4096), char_of (128 + r div 64 mod 64), char_of (128 + r mod 64)]
      else [char_of (240 + r div 262144), char_of (128 + r div 4096 mod 64),
            char_of (128 + r div 64 mod 64), char_of (128 + r mod 64)])"

lemma decodeRune_pos: "s \<noteq> [] \<Longrightarrow> 1 \<le> snd (decodeRune s)"
  by (cases s) (auto simp: decodeRune.simps(2) Let_def split: list.split)

text \<open>\<^verbatim>\<open>for _, c := range s\<close>.\<close>

function runes :: "string \<Rightarrow> nat list" where
  "runes s = (if s = [] then [] else fst (decodeRune s) # runes (drop (snd (decodeRune s)) s))"
  by auto

termination
  by (relation "measure length") (use decodeRune_pos in \<open>auto simp: Suc_le_eq\<close>)

declare runes.simps [simp del]

definition utf8 :: "nat list \<Rightarrow> string" where
  "utf8 rs = concat (map encodeRune rs)"

text \<open>\<^verbatim>\<open>utf8.DecodeLastRuneInString\<close> looks for the start of the last rune in the last four bytes.\<close>

definition decodeLastRune :: "string \<Rightarrow> nat \<times> nat" where
  "decodeLastRune s =
     (if s = [] then (RuneError, 0)
      else if byte (last s) < 128 then (byte (last s), 1)
      else let n = length s;
               k = (case filter (\<lambda>k. k \<le> n \<and> \<not> cont (s ! (n - k))) [2, 3, 4] of
                      [] \<Rightarrow> min 5 n | k # _ \<Rightarrow> k);
               (r, size) = decodeRune (drop (n - k) s)
           in if size = k then (r, size) else (RuneError, 1))"

text \<open>\<^verbatim>\<open>unicode.IsSpace\<close> and \<^verbatim>\<open>unicode.IsControl\<close>.\<close>

definition IsSpace :: "nat \<Rightarrow> bool" where
  "IsSpace r \<longleftrightarrow> 9 \<le> r \<and> r \<le> 13 \<or> r = 32 \<or> r = 133 \<or> r = 160 \<or> r = 5760 \<or>
     8192 \<le> r \<and> r \<le> 8202 \<or> r = 8232 \<or> r = 8233 \<or> r = 8239 \<or> r = 8287 \<or> r = 12288"

definition IsControl :: "nat \<Rightarrow> bool" where
  "IsControl r \<longleftrightarrow> r < 32 \<or> 127 \<le> r \<and> r < 160"

lemma decodeLastRune_pos: "s \<noteq> [] \<Longrightarrow> 1 \<le> snd (decodeLastRune s)"
  using decodeRune_pos[of "drop (length s - k) s" for k]
  by (auto simp: decodeLastRune_def Let_def case_prod_beta min_def Suc_le_eq split: list.split)

text \<open>\<^verbatim>\<open>strings.TrimRightFunc(s, unicode.IsSpace)\<close>.\<close>

function trimRightSpace :: "string \<Rightarrow> string" where
  "trimRightSpace s =
     (if s = [] \<or> \<not> IsSpace (fst (decodeLastRune s)) then s
      else trimRightSpace (take (length s - snd (decodeLastRune s)) s))"
  by auto

termination
  by (relation "measure length") (use decodeLastRune_pos in \<open>auto simp: Suc_le_eq\<close>)

declare trimRightSpace.simps [simp del]

text \<open>
  \<^verbatim>\<open>strings.EqualFold\<close> for a second argument of ASCII characters: letters agree up to case, and two further
  letters fold to ASCII, the long s and the Kelvin sign.
\<close>

definition foldRune :: "nat \<Rightarrow> nat" where
  "foldRune r = (if 65 \<le> r \<and> r \<le> 90 then r + 32 else if r = 383 then 115 else if r = 8490 then 107 else r)"

definition EqualFold :: "string \<Rightarrow> string \<Rightarrow> bool" where
  "EqualFold s t \<longleftrightarrow> map foldRune (runes s) = map foldRune (runes t)"

text \<open>\<^verbatim>\<open>strings.Cut\<close>: what is before and after the first occurrence of the separator, and whether there is one.\<close>

fun Cut :: "string \<Rightarrow> string \<Rightarrow> string \<times> string \<times> bool" where
  "Cut [] sep = ([], [], sep = [])"
| "Cut (c # cs) sep =
     (if prefix sep (c # cs) then ([], drop (length sep) (c # cs), True)
      else let (before, after, found) = Cut cs sep in (c # before, after, found))"

lemma Cut_found: "Cut s sep = (b, a, True) \<Longrightarrow> s = b @ sep @ a"
proof (induction s sep arbitrary: b rule: Cut.induct)
  case (2 c cs sep)
  then show ?case by (cases "Cut cs sep") (auto simp: prefix_def split: if_splits)
qed simp

section \<open>The round trip\<close>

lemma byte_char_of [simp]: "n < 256 \<Longrightarrow> byte (char_of (n :: nat)) = n"
  by simp

lemma decode_encode2:
  assumes "q < 32" "2 \<le> q" "t < 64"
  shows "decodeRune (encodeRune (64 * q + t) @ s) = (64 * q + t, 2)"
  using assms by (simp add: encodeRune_def decodeRune.simps(2) second_def cont_def)

lemma div_mod_64:
  fixes q t :: nat
  assumes "t < 64"
  shows "(64 * q + t) div 64 = q" "(64 * q + t) mod 64 = t"
  using assms by simp_all

lemma decode_bytes3:
  assumes "a < 16" "b < 64" "c < 64" "second (224 + a) (char_of (128 + b))"
  shows "decodeRune (char_of (224 + a) # char_of (128 + b) # char_of (128 + c) # s) = (4096 * a + 64 * b + c, 3)"
  using assms by (simp add: decodeRune.simps(2) Let_def cont_def)

lemma decode_bytes4:
  assumes "a < 5" "b < 64" "c < 64" "d < 64" "second (240 + a) (char_of (128 + b))"
  shows "decodeRune (char_of (240 + a) # char_of (128 + b) # char_of (128 + c) # char_of (128 + d) # s) =
    (262144 * a + 4096 * b + 64 * c + d, 4)"
  using assms by (simp add: decodeRune.simps(2) Let_def cont_def)

lemma decode_encode3:
  assumes "q < 1024" "t < 64" "32 \<le> q" "q < 864 \<or> 896 \<le> q"
  shows "decodeRune (encodeRune (64 * q + t) @ s) = (64 * q + t, 3)"
proof -
  let ?r = "64 * q + t"
  have d: "?r div 64 = q" "?r mod 64 = t" "?r div 4096 = q div 64"
    using div_mod_64[OF assms(2), of q] div_mult2_eq[of ?r 64 64] by simp_all
  have v: "validRune ?r" "\<not> ?r < 128" "\<not> ?r < 2048" "?r < 65536"
    using assms by (auto simp: validRune_def MaxRune_def)
  have e: "encodeRune ?r = [char_of (224 + q div 64), char_of (128 + q mod 64), char_of (128 + t)]"
    unfolding encodeRune_def d using v by simp
  have h: "q div 64 < 16" "q mod 64 < 64" and q: "64 * (q div 64) + q mod 64 = q"
    using assms(1) by (simp_all add: less_mult_imp_div_less)
  have "q div 64 = 0 \<Longrightarrow> 32 \<le> q mod 64" "q div 64 = 13 \<Longrightarrow> q mod 64 < 32"
    using assms(3,4) q by linarith+
  then have "second (224 + q div 64) (char_of (128 + q mod 64))"
    using h by (auto simp: second_def cont_def)
  then have "decodeRune (encodeRune ?r @ s) = (4096 * (q div 64) + 64 * (q mod 64) + t, 3)"
    unfolding e using decode_bytes3[OF h assms(2)] by simp
  moreover have "4096 * (q div 64) + 64 * (q mod 64) = 64 * q" using q by linarith
  ultimately show ?thesis by simp
qed

lemma decode_encode4:
  assumes "q < 17408" "t < 64" "1024 \<le> q"
  shows "decodeRune (encodeRune (64 * q + t) @ s) = (64 * q + t, 4)"
proof -
  let ?r = "64 * q + t" and ?a = "q div 4096" and ?b = "q div 64 mod 64" and ?c = "q mod 64"
  have d: "?r div 64 = q" "?r mod 64 = t" "?r div 4096 = q div 64" "?r div 262144 = ?a"
    using div_mod_64[OF assms(2), of q] div_mult2_eq[of ?r 64 64] div_mult2_eq[of ?r 64 4096] by simp_all
  have v: "validRune ?r" "\<not> ?r < 128" "\<not> ?r < 2048" "\<not> ?r < 65536"
    using assms by (auto simp: validRune_def MaxRune_def)
  have e: "encodeRune ?r = [char_of (240 + ?a), char_of (128 + ?b), char_of (128 + ?c), char_of (128 + t)]"
    unfolding encodeRune_def d using v by simp
  have h: "?a < 5" "?b < 64" "?c < 64" using assms(1) by (simp_all add: less_mult_imp_div_less)
  have a: "?a = q div 64 div 64" by (simp add: div_mult2_eq[of q 64 64, simplified])
  have p: "64 * ?a + ?b = q div 64" "64 * (q div 64) + ?c = q" unfolding a by simp_all
  have "16 \<le> q div 64" "q div 64 < 272" using assms(1,3) p(2) h(3) by linarith+
  then have "?a = 0 \<Longrightarrow> 16 \<le> ?b" "?a = 4 \<Longrightarrow> ?b < 16" using p(1) by linarith+
  then have "second (240 + ?a) (char_of (128 + ?b))" using h by (auto simp: second_def cont_def)
  then have "decodeRune (encodeRune ?r @ s) = (262144 * ?a + 4096 * ?b + 64 * ?c + t, 4)"
    unfolding e using decode_bytes4[OF h assms(2)] by simp
  moreover have "262144 * ?a + 4096 * ?b + 64 * ?c = 64 * q" using p by linarith
  ultimately show ?thesis by simp
qed

lemma decode_encode:
  assumes "validRune r"
  shows "decodeRune (encodeRune r @ s) = (r, length (encodeRune r))"
proof -
  define q t where "q = r div 64" and "t = r mod 64"
  then have r: "r = 64 * q + t" and t: "t < 64" by simp_all
  consider "r < 128" | "128 \<le> r" "r < 2048" | "2048 \<le> r" "r < 65536" | "65536 \<le> r" by linarith
  then show ?thesis
  proof cases
    case 1
    then show ?thesis by (simp add: encodeRune_def decodeRune.simps(2))
  next
    case 2
    then have "2 \<le> q" "q < 32" using r t by linarith+
    with 2 show ?thesis using decode_encode2[of q t] t unfolding r[symmetric] by (simp add: encodeRune_def)
  next
    case 3
    then have "32 \<le> q" "q < 1024" "q < 864 \<or> 896 \<le> q"
      using r t assms by (auto simp: validRune_def)
    with 3 show ?thesis using decode_encode3[of q t] t assms unfolding r[symmetric] by (simp add: encodeRune_def)
  next
    case 4
    then have "1024 \<le> q" "q < 17408" using r t assms by (auto simp: validRune_def MaxRune_def)
    with 4 show ?thesis using decode_encode4[of q t] t assms unfolding r[symmetric] by (simp add: encodeRune_def)
  qed
qed

lemma encodeRune_ne [simp]: "encodeRune r \<noteq> []"
  by (simp add: encodeRune_def)

lemma runes_encode: "validRune r \<Longrightarrow> runes (encodeRune r @ s) = r # runes s"
  by (subst runes.simps) (simp add: decode_encode)

lemma runes_Nil [simp]: "runes [] = []"
  by (simp add: runes.simps)

lemma runes_utf8: "\<forall>r \<in> set rs. validRune r \<Longrightarrow> runes (utf8 rs) = rs"
  by (induction rs) (simp_all add: utf8_def runes_encode)

text \<open>A rune outside of ASCII is encoded by bytes outside of ASCII.\<close>

lemma encodeRune_high:
  assumes "128 \<le> r" "c \<in> set (encodeRune r)"
  shows "128 \<le> byte c"
proof -
  have "128 \<le> byte (char_of (192 + r div 64) :: char)" if "r < 2048"
    using that less_mult_imp_div_less[of r 32 64] by simp
  moreover have "128 \<le> byte (char_of (224 + r div 4096) :: char)" if "r < 65536"
    using that less_mult_imp_div_less[of r 16 4096] by simp
  moreover have "128 \<le> byte (char_of (240 + r div 262144) :: char)" if "r \<le> MaxRune"
    using that less_mult_imp_div_less[of r 16 262144] by (simp add: MaxRune_def)
  moreover have "128 \<le> byte (char_of (128 + n mod 64) :: char)" for n :: nat
    using mod_less_divisor[of 64 n] by simp
  ultimately show ?thesis
    using assms by (auto simp: encodeRune_def validRune_def split: if_splits)
qed

lemma encodeRune_ASCII: "r < 128 \<Longrightarrow> encodeRune r = [char_of r]"
  by (simp add: encodeRune_def)

end
