(* ===== verification/UnitSplit.thy ===== *)
theory UnitSplit
  imports GoUtf8 "HOL-Library.Word"
begin

text \<open>
  Splitting a line of a unit file into words and joining words into a line, from
  \<^verbatim>\<open>src/pkg/systemd/parser/split.go\<close>. The scanner \<open>extractFirstWord\<close> of the source keeps an index into
  the line; the model keeps the rest of the line from that index on. The byte 0 stands for the end of
  the line, as in the source, so a zero byte inside of the line ends it.
\<close>

unbundle bit_operations_syntax

section \<open>Flags\<close>

type_synonym SplitFlags = "64 word"

definition SplitRelax :: SplitFlags where "SplitRelax = 1"
definition SplitCUnescape :: SplitFlags where "SplitCUnescape = 2"
definition SplitUnescapeRelax :: SplitFlags where "SplitUnescapeRelax = 4"
definition SplitUnescapeSeparators :: SplitFlags where "SplitUnescapeSeparators = 8"
definition SplitKeepQuote :: SplitFlags where "SplitKeepQuote = 16"
definition SplitUnquote :: SplitFlags where "SplitUnquote = 32"
definition SplitDontCoalesceSeparators :: SplitFlags where "SplitDontCoalesceSeparators = 64"
definition SplitRetainEscape :: SplitFlags where "SplitRetainEscape = 128"
definition SplitRetainSeparators :: SplitFlags where "SplitRetainSeparators = 256"

lemmas split_flags = SplitRelax_def SplitCUnescape_def SplitUnescapeRelax_def SplitUnescapeSeparators_def
  SplitKeepQuote_def SplitUnquote_def SplitDontCoalesceSeparators_def SplitRetainEscape_def
  SplitRetainSeparators_def

abbreviation hasFlag :: "SplitFlags \<Rightarrow> SplitFlags \<Rightarrow> bool" where
  "hasFlag flags f \<equiv> flags AND f \<noteq> 0"

definition WhitespaceSeparators :: string where
  "WhitespaceSeparators = [CHR '' '', CHR 0x09, CHR 0x0A, CHR 0x0D]"

section \<open>Unescaping\<close>

definition unoctchar :: "char \<Rightarrow> int" where
  "unoctchar v = (if CHR ''0'' \<le> v \<and> v \<le> CHR ''7'' then int (byte v) - int (byte (CHR ''0'')) else -1)"

definition unhexchar :: "char \<Rightarrow> int" where
  "unhexchar v =
     (if CHR ''0'' \<le> v \<and> v \<le> CHR ''9'' then int (byte v) - int (byte (CHR ''0''))
      else if CHR ''a'' \<le> v \<and> v \<le> CHR ''f'' then int (byte v) - int (byte (CHR ''a'')) + 10
      else if CHR ''A'' \<le> v \<and> v \<le> CHR ''F'' then int (byte v) - int (byte (CHR ''A'')) + 10
      else -1)"

definition isValidUnicode :: "nat \<Rightarrow> bool" where
  "isValidUnicode c \<longleftrightarrow> c \<le> MaxRune"

text \<open>The value of a sequence of digits in base 16 whose values are given.\<close>

definition hexval :: "int list \<Rightarrow> nat" where
  "hexval ds = nat (foldl (\<lambda>x d. 16 * x + d) 0 ds)"

text \<open>
  The result is the number of bytes that were used, negative when the sequence is not an escape, the
  rune and whether it stands for a byte. In the source the cases for the digits 0 to 6 are empty, as
  the cases of a Go switch do not fall through, and the one for 7 reads its first digit three times.
\<close>

definition cUnescapeOne :: "string \<Rightarrow> bool \<Rightarrow> int \<times> nat \<times> bool" where
  "cUnescapeOne p acceptNul =
     (case p of [] \<Rightarrow> (-1, 0, False)
      | c # _ \<Rightarrow>
        if c = CHR ''a'' then (1, 7, False)
        else if c = CHR ''b'' then (1, 8, False)
        else if c = CHR ''f'' then (1, 12, False)
        else if c = CHR ''n'' then (1, 10, False)
        else if c = CHR ''r'' then (1, 13, False)
        else if c = CHR ''t'' then (1, 9, False)
        else if c = CHR ''v'' then (1, 11, False)
        else if c = CHR 0x5C then (1, 92, False)
        else if c = CHR 0x22 then (1, 34, False)
        else if c = CHR 0x27 then (1, 39, False)
        else if c = CHR ''s'' then (1, 32, False)
        else if c = CHR ''x'' then
          if length p < 3 then (-1, 0, False)
          else let a = unhexchar (p ! 1); b = unhexchar (p ! 2) in
            if a < 0 then (-1, 0, False)
            else if b < 0 then (-1, 0, False)
            else if a = 0 \<and> b = 0 \<and> \<not> acceptNul then (-1, 0, False)
            else (3, hexval [a, b], True)
        else if c = CHR ''u'' then
          if length p < 5 then (-1, 0, False)
          else let a = map unhexchar (take 4 (drop 1 p)) in
            if \<exists>d \<in> set a. d < 0 then (-1, 0, False)
            else if hexval a = 0 \<and> \<not> acceptNul then (-1, 0, False)
            else (5, hexval a, False)
        else if c = CHR ''U'' then
          if length p < 9 then (-1, 0, False)
          else let a = map unhexchar (take 8 (drop 1 p)) in
            if \<exists>d \<in> set a. d < 0 then (-10, 0, False)
            else if hexval a = 0 \<and> \<not> acceptNul then (-1, 0, False)
            else if \<not> isValidUnicode (hexval a) then (-1, 0, False)
            else (9, hexval a, False)
        else if CHR ''0'' \<le> c \<and> c \<le> CHR ''6'' then (1, 0, False)
        else if c = CHR ''7'' then
          if length p < 3 then (-1, 0, False)
          else let a = unoctchar (p ! 0); b = unoctchar (p ! 0); d = unoctchar (p ! 0) in
            if a < 0 then (-1, 0, False)
            else if b < 0 then (-1, 0, False)
            else if d < 0 then (-1, 0, False)
            else if a = 0 \<and> b = 0 \<and> d = 0 \<and> \<not> acceptNul then (-1, 0, False)
            else let m = nat (64 * a + 8 * b + d) in
              if m > 255 then (-1, 0, False) else (3, m, True)
        else (-1, 0, False))"

section \<open>The first word\<close>

definition isSep :: "string \<Rightarrow> char \<Rightarrow> bool" where
  "isSep separators c \<longleftrightarrow> byte c \<in> set (runes separators)"

datatype split_error = UnbalancedEscape | UnbalancedQuotes | UnsupportedEscape

type_synonym first_word = "split_error + string \<times> string \<times> bool"

text \<open>The labels at the end of the source: with the rest of the line where the word ended.\<close>

definition finishForceNext :: "string \<Rightarrow> string \<Rightarrow> first_word" where
  "finishForceNext s rest = Inr (s, rest, True)"

definition finish :: "string \<Rightarrow> string \<Rightarrow> first_word" where
  "finish s rest = (if s = [] then Inr ([], [], False) else finishForceNext s rest)"

definition finishForceTerminate :: "string \<Rightarrow> first_word" where
  "finishForceTerminate s = finish s []"

text \<open>
  A separator ends the word; the separators that follow it are skipped.
\<close>

definition endWord :: "string \<Rightarrow> SplitFlags \<Rightarrow> string \<Rightarrow> string \<Rightarrow> first_word" where
  "endWord separators flags s rest =
     (if hasFlag flags SplitDontCoalesceSeparators
      then finishForceNext s (if hasFlag flags SplitRetainSeparators then rest else tl rest)
      else if hasFlag flags SplitRetainSeparators then finish s rest
      else case dropWhile (\<lambda>c. c \<noteq> CHR 0x00 \<and> isSep separators c) rest of
             [] \<Rightarrow> finishForceTerminate s
           | c # cs \<Rightarrow> if c = CHR 0x00 then finishForceTerminate s else finish s (c # cs))"

text \<open>
  The second loop of the source with the two loops inside of it. Whether an inner loop goes on or is
  left, the next thing is to read a character, and \<open>backslash\<close> and \<open>quote\<close> determine which of the
  cases handles it; so the three loops are one recursion. \<open>quote\<close> is the byte 0 outside of quotes.
\<close>

function scanWord :: "string \<Rightarrow> SplitFlags \<Rightarrow> string \<Rightarrow> char \<Rightarrow> bool \<Rightarrow> string \<Rightarrow> first_word" where
  "scanWord separators flags s quote backslash rest =
     (let c = (case rest of [] \<Rightarrow> CHR 0x00 | x # _ \<Rightarrow> x); next = tl rest in
      if backslash then
        if c = CHR 0x00 then
          if hasFlag flags SplitUnescapeRelax \<and> (quote = CHR 0x00 \<or> hasFlag flags SplitRelax)
          then finishForceTerminate (s @ [CHR 0x5C])
          else if hasFlag flags SplitRelax then finishForceTerminate s
          else Inl UnbalancedEscape
        else if hasFlag flags (SplitCUnescape OR SplitUnescapeSeparators) then
          let (r, u, _) = (if hasFlag flags SplitCUnescape then cUnescapeOne rest False else (-1, 0, False)) in
          if r > 0 then scanWord separators flags (s @ encodeRune u) quote False (drop (nat r - 1) next)
          else if hasFlag flags SplitUnescapeSeparators \<and> (isSep separators c \<or> c = CHR 0x5C)
          then scanWord separators flags (s @ [c]) quote False next
          else if hasFlag flags SplitUnescapeRelax
          then scanWord separators flags (s @ [CHR 0x5C, c]) quote False next
          else Inl UnsupportedEscape
        else scanWord separators flags (s @ [c]) quote False next
      else if quote \<noteq> CHR 0x00 then
        if c = CHR 0x00 then
          if hasFlag flags SplitRelax then finishForceTerminate s else Inl UnbalancedQuotes
        else if c = quote then
          if hasFlag flags SplitUnquote then scanWord separators flags s (CHR 0x00) False next
          else scanWord separators flags (s @ [c]) (CHR 0x00) False next
        else if c = CHR 0x5C \<and> \<not> hasFlag flags SplitRetainEscape
        then scanWord separators flags s quote True next
        else scanWord separators flags (s @ [c]) quote False next
      else
        if c = CHR 0x00 then finishForceTerminate s
        else if (c = CHR 0x27 \<or> c = CHR 0x22) \<and> hasFlag flags (SplitKeepQuote OR SplitUnquote) then
          if hasFlag flags SplitUnquote then scanWord separators flags s c False next
          else scanWord separators flags (s @ [c]) c False next
        else if c = CHR 0x5C \<and> \<not> hasFlag flags SplitRetainEscape
        then scanWord separators flags s quote True next
        else if isSep separators c then endWord separators flags s rest
        else scanWord separators flags (s @ [c]) quote False next)"
  by auto

termination
  by (relation "measure (\<lambda>(_, _, _, _, _, rest). length rest)") (auto split: list.splits)

declare scanWord.simps [simp del]

text \<open>The first loop skips the separators before the word.\<close>

definition extractFirstWord :: "string \<Rightarrow> string \<Rightarrow> SplitFlags \<Rightarrow> first_word" where
  "extractFirstWord input separators flags =
     (if input = [] then finish [] []
      else let c = hd input;
               rest = (if hasFlag flags SplitDontCoalesceSeparators then input
                       else dropWhile (\<lambda>c. c \<noteq> CHR 0x00 \<and> isSep separators c) input) in
        if hasFlag flags SplitDontCoalesceSeparators \<and> c \<noteq> CHR 0x00 \<and> isSep separators c
        then finishForceNext [] (if hasFlag flags SplitRetainSeparators then input else tl input)
        else case rest of
          [] \<Rightarrow> finishForceTerminate []
        | c # _ \<Rightarrow> if c = CHR 0x00 then finishForceTerminate []
                  else scanWord separators flags [] (CHR 0x00) False rest)"

text \<open>
  The loop over the words does not end when a separator that is kept is found again, so it may
  have no result.
\<close>

partial_function (option) splitStringAppend ::
    "string list \<Rightarrow> string \<Rightarrow> string \<Rightarrow> SplitFlags \<Rightarrow> (split_error + string list) option" where
  "splitStringAppend appendTo s separators flags =
     (case extractFirstWord s separators flags of
        Inl e \<Rightarrow> Some (Inl e)
      | Inr (word, remaining, moreWords) \<Rightarrow>
          if \<not> moreWords then Some (Inr appendTo)
          else splitStringAppend (appendTo @ [word]) remaining separators flags)"

definition splitString :: "string \<Rightarrow> string \<Rightarrow> SplitFlags \<Rightarrow> (split_error + string list) option" where
  "splitString s separators flags = splitStringAppend [] s separators flags"

section \<open>Escaping\<close>

definition charNeedEscape :: "nat \<Rightarrow> bool" where
  "charNeedEscape c =
     (if c > 128 then False
      else IsSpace c \<or> IsControl c \<or> c = 34 \<or> c = 39 \<or> c = 92)"

definition wordNeedEscape :: "string \<Rightarrow> bool" where
  "wordNeedEscape word \<longleftrightarrow> (\<exists>c \<in> set (runes word). charNeedEscape c)"

definition hexdigit :: "nat \<Rightarrow> char" where
  "hexdigit d = (if d < 10 then char_of (48 + d) else char_of (87 + d))"

definition escapeRune :: "nat \<Rightarrow> string" where
  "escapeRune c =
     (if charNeedEscape c then
        if c = 7 then [CHR 0x5C, CHR ''a'']
        else if c = 8 then [CHR 0x5C, CHR ''b'']
        else if c = 10 then [CHR 0x5C, CHR ''n'']
        else if c = 13 then [CHR 0x5C, CHR ''r'']
        else if c = 9 then [CHR 0x5C, CHR ''t'']
        else if c = 11 then [CHR 0x5C, CHR ''v'']
        else if c = 12 then [CHR 0x5C, CHR ''f'']
        else if c = 92 then [CHR 0x5C, CHR 0x5C]
        else if c = 32 then '' ''
        else if c = 34 then [CHR 0x5C, CHR 0x22]
        else if c = 39 then [CHR 0x27]
        else [CHR 0x5C, CHR ''x'', hexdigit (c div 16), hexdigit (c mod 16)]
      else encodeRune c)"

definition appendEscapeWord :: "string \<Rightarrow> string \<Rightarrow> string" where
  "appendEscapeWord escaped word =
     escaped @ [CHR 0x22] @ concat (map escapeRune (runes word)) @ [CHR 0x22]"

fun escapeFrom :: "string \<Rightarrow> string list \<Rightarrow> nat \<Rightarrow> string" where
  "escapeFrom escaped [] i = escaped"
| "escapeFrom escaped (word # words) i =
     (let escaped = (if i \<noteq> 0 then escaped @ '' '' else escaped) in
      escapeFrom (if wordNeedEscape word then appendEscapeWord escaped word else escaped @ word)
        words (Suc i))"

definition escapeWords :: "string list \<Rightarrow> string" where
  "escapeWords words = escapeFrom [] words 0"

end
