(* ===== verification/UnitFile.thy ===== *)
theory UnitFile
  imports UnitSplit Strconv Bolt
begin

text \<open>
  Unit files of systemd, from \<^verbatim>\<open>src/pkg/systemd/parser/unitfile.go\<close>: reading a file, printing it, and reading and
  changing its keys in memory. A file is a list of pointers to groups together with a map from names to
  the same pointers; the groups they point to are in \<open>uf_heap\<close>, in the order of their allocation.
  Lines are owned by one group and are values. Printing is to a string, where writing cannot fail.
\<close>

section \<open>Lines and groups\<close>

record unitLine =
  ul_key :: string
  ul_value :: string
  ul_isComment :: bool

record unitGroup =
  ug_name :: string
  ug_comments :: "unitLine list"
  ug_lines :: "unitLine list"

record UnitFile =
  uf_heap :: "unitGroup list"
  uf_groups :: "nat list"
  uf_groupByName :: "string \<rightharpoonup> nat"
  uf_Filename :: string
  uf_Path :: string

definition newUnitLine :: "string \<Rightarrow> string \<Rightarrow> bool \<Rightarrow> unitLine" where
  "newUnitLine key value isComment = \<lparr>ul_key = key, ul_value = value, ul_isComment = isComment\<rparr>"

definition setLine :: "string \<Rightarrow> unitLine \<Rightarrow> unitLine" where
  "setLine value l = l\<lparr>ul_value := value\<rparr>"

definition dupLine :: "unitLine \<Rightarrow> unitLine" where
  "dupLine l = newUnitLine (ul_key l) (ul_value l) (ul_isComment l)"

definition isKey :: "string \<Rightarrow> unitLine \<Rightarrow> bool" where
  "isKey key l \<longleftrightarrow> \<not> ul_isComment l \<and> ul_key l = key"

definition isEmpty :: "unitLine \<Rightarrow> bool" where
  "isEmpty l \<longleftrightarrow> length (ul_value l) = 0"

definition newUnitGroup :: "string \<Rightarrow> unitGroup" where
  "newUnitGroup name = \<lparr>ug_name = name, ug_comments = [], ug_lines = []\<rparr>"

definition addLine :: "unitLine \<Rightarrow> unitGroup \<Rightarrow> unitGroup" where
  "addLine line g = g\<lparr>ug_lines := ug_lines g @ [line]\<rparr>"

definition addComment :: "unitLine \<Rightarrow> unitGroup \<Rightarrow> unitGroup" where
  "addComment line g = g\<lparr>ug_comments := ug_comments g @ [line]\<rparr>"

definition prependComment :: "unitLine \<Rightarrow> unitGroup \<Rightarrow> unitGroup" where
  "prependComment line g = g\<lparr>ug_comments := line # ug_comments g\<rparr>"

definition addKey :: "string \<Rightarrow> string \<Rightarrow> unitGroup \<Rightarrow> unitGroup" where
  "addKey key value g = addLine (newUnitLine key value False) g"

text \<open>The search runs from the end; the result is the position of the line.\<close>

fun findFrom :: "string \<Rightarrow> unitLine list \<Rightarrow> nat \<Rightarrow> nat option" where
  "findFrom key lines 0 = None"
| "findFrom key lines (Suc i) = (if isKey key (lines ! i) then Some i else findFrom key lines i)"

definition findLast :: "string \<Rightarrow> unitGroup \<Rightarrow> nat option" where
  "findLast key g = findFrom key (ug_lines g) (length (ug_lines g))"

definition setKey :: "string \<Rightarrow> string \<Rightarrow> unitGroup \<Rightarrow> unitGroup" where
  "setKey key value g =
     (case findLast key g of
        Some i \<Rightarrow> g\<lparr>ug_lines := (ug_lines g)[i := setLine value (ug_lines g ! i)]\<rparr>
      | None \<Rightarrow> addKey key value g)"

definition unsetKey :: "string \<Rightarrow> unitGroup \<Rightarrow> unitGroup" where
  "unsetKey key g = g\<lparr>ug_lines := filter (\<lambda>l. \<not> isKey key l) (ug_lines g)\<rparr>"

definition mergeGroup :: "unitGroup \<Rightarrow> unitGroup \<Rightarrow> unitGroup" where
  "mergeGroup source g =
     g\<lparr>ug_comments := ug_comments g @ map dupLine (ug_comments source),
       ug_lines := ug_lines g @ map dupLine (ug_lines source)\<rparr>"

section \<open>Files\<close>

definition NewUnitFile :: UnitFile where
  "NewUnitFile = \<lparr>uf_heap = [], uf_groups = [], uf_groupByName = Map.empty, uf_Filename = [], uf_Path = []\<rparr>"

definition groupAt :: "UnitFile \<Rightarrow> nat \<Rightarrow> unitGroup" where
  "groupAt f p = uf_heap f ! p"

definition updGroup :: "nat \<Rightarrow> (unitGroup \<Rightarrow> unitGroup) \<Rightarrow> UnitFile \<Rightarrow> UnitFile" where
  "updGroup p h f = f\<lparr>uf_heap := (uf_heap f)[p := h (uf_heap f ! p)]\<rparr>"

definition ensureGroup :: "string \<Rightarrow> UnitFile \<Rightarrow> UnitFile \<times> nat" where
  "ensureGroup groupName f =
     (case uf_groupByName f groupName of
        Some g \<Rightarrow> (f, g)
      | None \<Rightarrow>
          let g = length (uf_heap f) in
          (f\<lparr>uf_heap := uf_heap f @ [newUnitGroup groupName],
             uf_groups := uf_groups f @ [g],
             uf_groupByName := (uf_groupByName f)(groupName \<mapsto> g)\<rparr>, g))"

definition onGroup :: "string \<Rightarrow> (unitGroup \<Rightarrow> unitGroup) \<Rightarrow> UnitFile \<Rightarrow> UnitFile" where
  "onGroup groupName h f = (let (f', g) = ensureGroup groupName f in updGroup g h f')"

definition mergeFile :: "UnitFile \<Rightarrow> UnitFile \<Rightarrow> UnitFile" where
  "mergeFile source f =
     fold (\<lambda>p f. let srcGroup = groupAt source p in onGroup (ug_name srcGroup) (mergeGroup srcGroup) f)
       (uf_groups source) f"

definition Dup :: "UnitFile \<Rightarrow> UnitFile" where
  "Dup f = (mergeFile f NewUnitFile)\<lparr>uf_Filename := uf_Filename f\<rparr>"

section \<open>Recognising lines\<close>

definition nl :: char where
  "nl = CHR 0x0A"

definition lineIsComment :: "string \<Rightarrow> bool" where
  "lineIsComment line \<longleftrightarrow> length line = 0 \<or> line ! 0 = CHR ''#'' \<or> line ! 0 = CHR '':''"

definition lineIsGroup :: "string \<Rightarrow> bool" where
  "lineIsGroup line =
     (if length line = 0 then False
      else if line ! 0 \<noteq> CHR ''['' then False
      else if CHR '']'' \<notin> set line then False
      else list_all (\<lambda>c. c = CHR '' '' \<or> c = CHR 0x09) (tl (dropWhile (\<lambda>c. c \<noteq> CHR '']'') line)))"

definition lineIsKeyValuePair :: "string \<Rightarrow> bool" where
  "lineIsKeyValuePair line =
     (if length line = 0 then False
      else if CHR ''='' \<notin> set line then False
      else if line ! 0 = CHR ''='' then False
      else True)"

definition groupNameIsValid :: "string \<Rightarrow> bool" where
  "groupNameIsValid name =
     (if length name = 0 then False
      else list_all (\<lambda>c. \<not> (c = 93 \<or> c = 91 \<or> IsControl c)) (runes name))"

definition keyNameIsValid :: "string \<Rightarrow> bool" where
  "keyNameIsValid name =
     (if length name = 0 then False
      else if \<not> list_all (\<lambda>c. c \<noteq> 61) (runes name) then False
      else if hd name = CHR '' '' \<or> last name = CHR '' '' then False
      else True)"

section \<open>Reading a file\<close>

datatype unit_error =
    InvalidGroupName string
  | NoGroup
  | InvalidKeyName string
  | BadLine nat string

record UnitFileParser =
  up_file :: UnitFile
  up_currentGroup :: "nat option"
  up_pendingComments :: "unitLine list"
  up_lineNr :: nat

definition parseComment :: "string \<Rightarrow> UnitFileParser \<Rightarrow> unit_error + UnitFileParser" where
  "parseComment line p =
     Inr (p\<lparr>up_pendingComments := up_pendingComments p @ [newUnitLine [] line True]\<rparr>)"

text \<open>Only called when there is a current group.\<close>

definition flushPendingComments :: "bool \<Rightarrow> UnitFileParser \<Rightarrow> UnitFileParser" where
  "flushPendingComments toComment p =
     p\<lparr>up_pendingComments := [],
       up_file := fold (\<lambda>l. updGroup (the (up_currentGroup p)) (if toComment then addComment l else addLine l))
         (up_pendingComments p) (up_file p)\<rparr>"

definition parseGroup :: "string \<Rightarrow> UnitFileParser \<Rightarrow> unit_error + UnitFileParser" where
  "parseGroup line p =
     (let groupName = tl (takeWhile (\<lambda>c. c \<noteq> CHR '']'') line) in
      if \<not> groupNameIsValid groupName then Inl (InvalidGroupName groupName)
      else let (f, g) = ensureGroup groupName (up_file p);
               p1 = p\<lparr>up_file := f, up_currentGroup := Some g\<rparr> in
        Inr (case up_pendingComments p1 of
               [] \<Rightarrow> p1
             | firstComment # comments \<Rightarrow>
                 flushPendingComments True
                   (if isEmpty firstComment then p1\<lparr>up_pendingComments := comments\<rparr> else p1)))"

definition chompKey :: "string \<Rightarrow> string" where
  "chompKey s = rev (dropWhile (\<lambda>c. IsSpace (byte c)) (rev s))"

definition chugValue :: "string \<Rightarrow> string" where
  "chugValue s = dropWhile (\<lambda>c. IsSpace (byte c)) s"

definition parseKeyValuePair :: "string \<Rightarrow> UnitFileParser \<Rightarrow> unit_error + UnitFileParser" where
  "parseKeyValuePair line p =
     (case up_currentGroup p of
        None \<Rightarrow> Inl NoGroup
      | Some g \<Rightarrow>
          let key = chompKey (takeWhile (\<lambda>c. c \<noteq> CHR ''='') line) in
          if \<not> keyNameIsValid key then Inl (InvalidKeyName key)
          else let value = chugValue (tl (dropWhile (\<lambda>c. c \<noteq> CHR ''='') line));
                   p1 = flushPendingComments False p in
            Inr (p1\<lparr>up_file := updGroup g (addKey key value) (up_file p1)\<rparr>))"

definition parseLine :: "string \<Rightarrow> UnitFileParser \<Rightarrow> unit_error + UnitFileParser" where
  "parseLine line p =
     (if lineIsComment line then parseComment line p
      else if lineIsGroup line then parseGroup line p
      else if lineIsKeyValuePair line then parseKeyValuePair line p
      else Inl (BadLine (up_lineNr p) line))"

text \<open>The first line break at or after a position; the position is not behind the end of the data.\<close>

definition nextLine :: "string \<Rightarrow> nat \<Rightarrow> string \<times> string" where
  "nextLine data afterPos =
     (let rest = drop afterPos data in
      if nl \<in> set rest
      then let i = length (takeWhile (\<lambda>c. c \<noteq> nl) rest) in
           (take (i + afterPos) data, drop (i + afterPos + 1) data)
      else (data, []))"

lemma length_takeWhile_less_iff: "x \<in> set xs \<Longrightarrow> length (takeWhile (\<lambda>c. c \<noteq> x) xs) < length xs"
  by (induction xs) auto

text \<open>The lines that continue a line whose last character is a backslash, with their number.\<close>

function continueLine :: "string \<Rightarrow> string \<Rightarrow> string \<Rightarrow> nat \<Rightarrow> string \<times> string \<times> nat" where
  "continueLine origdata line data nLines =
     (if data \<noteq> [] \<and> last line = CHR 0x5C
      then let (line', data') = nextLine origdata (length line + 1) in
           continueLine origdata line' data' (nLines + 1)
      else (line, data, nLines))"
  by auto

termination
proof (relation "measure (\<lambda>(origdata, line, data, _). if data = [] then 0 else Suc (length origdata - length line))")
  fix origdata line data :: string and nLines :: nat and x line' data'
  assume a: "data \<noteq> [] \<and> last line = CHR 0x5C" "x = nextLine origdata (length line + 1)" "(line', data') = x"
  let ?rest = "drop (length line + 1) origdata"
  show "((origdata, line', data', nLines + 1), origdata, line, data, nLines)
      \<in> measure (\<lambda>(origdata, line, data, _). if data = [] then 0 else Suc (length origdata - length line))"
  proof (cases "nl \<in> set ?rest")
    case True
    with a length_takeWhile_less_iff[OF True] show ?thesis by (auto simp: nextLine_def Let_def)
  next
    case False
    with a show ?thesis by (auto simp: nextLine_def Let_def)
  qed
qed simp

declare continueLine.simps [simp del]

definition takeLine :: "string \<Rightarrow> string \<times> string \<times> nat" where
  "takeLine data =
     (let (line, data') = nextLine data 0 in
      if lineIsKeyValuePair line then continueLine data line data' 1 else (line, data', 1))"

lemma nextLine_shorter: "data \<noteq> [] \<Longrightarrow> length (snd (nextLine data n)) < length data"
  by (auto simp: nextLine_def Let_def)

lemma continueLine_shorter:
  "origdata \<noteq> [] \<Longrightarrow> length data < length origdata \<Longrightarrow>
   length (fst (snd (continueLine origdata line data nLines))) < length origdata"
proof (induction origdata line data nLines rule: continueLine.induct)
  case (1 origdata line data nLines)
  show ?case
  proof (cases "data \<noteq> [] \<and> last line = CHR 0x5C")
    case True
    obtain line' data' where n: "nextLine origdata (length line + 1) = (line', data')"
      by (cases "nextLine origdata (length line + 1)")
    have "length data' < length origdata" using nextLine_shorter[OF 1(2), of "length line + 1"] n by simp
    from 1(1)[OF True refl n[symmetric] 1(2) this] True n show ?thesis
      by (subst continueLine.simps) simp
  next
    case False
    with 1(3) show ?thesis by (subst continueLine.simps) auto
  qed
qed

lemma takeLine_shorter: "data \<noteq> [] \<Longrightarrow> length (fst (snd (takeLine data))) < length data"
  using nextLine_shorter[of data 0] continueLine_shorter[of data]
  by (auto simp: takeLine_def Let_def split: prod.splits)

function parseLines :: "string \<Rightarrow> UnitFileParser \<Rightarrow> unit_error + UnitFileParser" where
  "parseLines data p =
     (if data = [] then Inr p
      else let (line, data', nLines) = takeLine data in
        bindE (parseLine line p) (\<lambda>p'.
          parseLines data' (p'\<lparr>up_lineNr := up_lineNr p' + nLines\<rparr>)))"
  by auto

termination
proof (relation "measure (\<lambda>(data, _). length data)")
  fix data :: string and p x line y data' nLines xa
  assume a: "data \<noteq> []" "x = takeLine data" "(line, y) = x" "(data', nLines) = y"
  from a(2-4) have "takeLine data = (line, data', nLines)" by simp
  with takeLine_shorter[OF a(1)] show "((data', xa\<lparr>up_lineNr := up_lineNr xa + nLines\<rparr>), data, p) \<in> measure (\<lambda>(data, _). length data)"
    by simp
qed simp

declare parseLines.simps [simp del]

definition Parse :: "string \<Rightarrow> UnitFile \<Rightarrow> unit_error + UnitFile" where
  "Parse data f =
     bindE (parseLines data \<lparr>up_file = f, up_currentGroup = None, up_pendingComments = [], up_lineNr = 1\<rparr>) (\<lambda>p.
       let p1 = (case up_currentGroup p of
                   None \<Rightarrow> (let (f', g) = ensureGroup [] (up_file p)
                             in p\<lparr>up_file := f', up_currentGroup := Some g\<rparr>)
                 | Some _ \<Rightarrow> p)
       in Inr (up_file (flushPendingComments False p1)))"

section \<open>Printing a file\<close>

definition writeLine :: "unitLine \<Rightarrow> string" where
  "writeLine l =
     (if ul_isComment l then ul_value l @ [nl] else ul_key l @ ''='' @ ul_value l @ [nl])"

definition writeGroup :: "unitGroup \<Rightarrow> string" where
  "writeGroup g =
     concat (map writeLine (ug_comments g)) @
     (if ug_name g = [] then []
      else ''['' @ ug_name g @ '']'' @ [nl] @ concat (map writeLine (ug_lines g)))"

definition Write :: "UnitFile \<Rightarrow> string" where
  "Write f =
     concat (map (\<lambda>(i, p). (if i \<noteq> 0 then [nl] else []) @ writeGroup (groupAt f p))
       (enumerate 0 (uf_groups f)))"

definition ToString :: "UnitFile \<Rightarrow> string" where
  "ToString f = Write f"

section \<open>Looking up keys\<close>

function removeContinuations :: "string \<Rightarrow> string \<Rightarrow> string" where
  "removeContinuations str raw =
     (if raw = [] then str
      else case Cut raw [CHR 0x5C, nl] of (first, rest, found) \<Rightarrow>
        if found then removeContinuations (str @ first) rest else str @ raw)"
  by auto

termination
  by (relation "measure (\<lambda>(_, raw). length raw)") (auto dest!: Cut_found[OF sym])

declare removeContinuations.simps [simp del]

definition applyLineContinuation :: "string \<Rightarrow> string" where
  "applyLineContinuation raw =
     (if \<not> sublist [CHR 0x5C, nl] raw then raw else removeContinuations [] raw)"

definition HasGroup :: "UnitFile \<Rightarrow> string \<Rightarrow> bool" where
  "HasGroup f groupName \<longleftrightarrow> uf_groupByName f groupName \<noteq> None"

definition RemoveGroup :: "string \<Rightarrow> UnitFile \<Rightarrow> UnitFile" where
  "RemoveGroup groupName f =
     (case uf_groupByName f groupName of
        None \<Rightarrow> f
      | Some g \<Rightarrow> f\<lparr>uf_groupByName := (uf_groupByName f)(groupName := None),
                   uf_groups := filter (\<lambda>oldgroup. oldgroup \<noteq> g) (uf_groups f)\<rparr>)"

definition RenameGroup :: "string \<Rightarrow> string \<Rightarrow> UnitFile \<Rightarrow> UnitFile" where
  "RenameGroup groupName newName f =
     (case uf_groupByName f groupName of
        None \<Rightarrow> f
      | Some g \<Rightarrow>
          (case uf_groupByName f newName of
             None \<Rightarrow> (updGroup g (\<lambda>x. x\<lparr>ug_name := newName\<rparr>) f)
                       \<lparr>uf_groupByName := (uf_groupByName f)(groupName := None, newName \<mapsto> g)\<rparr>
           | Some newGroup \<Rightarrow>
               if g \<noteq> newGroup then RemoveGroup groupName (updGroup newGroup (mergeGroup (groupAt f g)) f)
               else f))"

definition ListGroups :: "UnitFile \<Rightarrow> string list" where
  "ListGroups f = map (\<lambda>p. ug_name (groupAt f p)) (uf_groups f)"

fun firstKeys :: "string set \<Rightarrow> unitLine list \<Rightarrow> string list" where
  "firstKeys seen [] = []"
| "firstKeys seen (l # ls) =
     (if \<not> ul_isComment l \<and> ul_key l \<notin> seen then ul_key l # firstKeys (insert (ul_key l) seen) ls
      else firstKeys seen ls)"

definition ListKeys :: "UnitFile \<Rightarrow> string \<Rightarrow> string list" where
  "ListKeys f groupName =
     (case uf_groupByName f groupName of None \<Rightarrow> [] | Some g \<Rightarrow> firstKeys {} (ug_lines (groupAt f g)))"

definition LookupLastRaw :: "UnitFile \<Rightarrow> string \<Rightarrow> string \<Rightarrow> string option" where
  "LookupLastRaw f groupName key =
     (case uf_groupByName f groupName of
        None \<Rightarrow> None
      | Some g \<Rightarrow> (case findLast key (groupAt f g) of
                    None \<Rightarrow> None
                  | Some i \<Rightarrow> Some (ul_value (ug_lines (groupAt f g) ! i))))"

definition HasKey :: "UnitFile \<Rightarrow> string \<Rightarrow> string \<Rightarrow> bool" where
  "HasKey f groupName key \<longleftrightarrow> LookupLastRaw f groupName key \<noteq> None"

definition LookupLast :: "UnitFile \<Rightarrow> string \<Rightarrow> string \<Rightarrow> string option" where
  "LookupLast f groupName key = map_option applyLineContinuation (LookupLastRaw f groupName key)"

definition Lookup :: "UnitFile \<Rightarrow> string \<Rightarrow> string \<Rightarrow> string option" where
  "Lookup f groupName key = map_option trimRightSpace (LookupLast f groupName key)"

definition LookupBoolean :: "UnitFile \<Rightarrow> string \<Rightarrow> string \<Rightarrow> bool option" where
  "LookupBoolean f groupName key =
     (case Lookup f groupName key of
        None \<Rightarrow> None
      | Some v \<Rightarrow> Some (EqualFold v ''1'' \<or> EqualFold v ''yes'' \<or> EqualFold v ''true'' \<or> EqualFold v ''on''))"

definition LookupBooleanWithDefault :: "UnitFile \<Rightarrow> string \<Rightarrow> string \<Rightarrow> bool \<Rightarrow> bool" where
  "LookupBooleanWithDefault f groupName key defaultValue =
     (case LookupBoolean f groupName key of None \<Rightarrow> defaultValue | Some v \<Rightarrow> v)"

text \<open>\<^verbatim>\<open>strconv.ParseInt(s, base, 64)\<close> for the bases 8, 10 and 16.\<close>

fun readBase :: "nat \<Rightarrow> nat \<Rightarrow> string \<Rightarrow> nat option" where
  "readBase base acc [] = Some acc"
| "readBase base acc (c # cs) =
     (let d = unhexchar c in
      if d < 0 \<or> d \<ge> int base then None else readBase base (base * acc + nat d) cs)"

definition ParseInt :: "nat \<Rightarrow> string \<Rightarrow> error + int" where
  "ParseInt base s =
     (let (neg, ds) = (case s of
                         c # cs \<Rightarrow> if c = CHR ''-'' then (True, cs)
                                   else if c = CHR ''+'' then (False, cs) else (False, s)
                       | [] \<Rightarrow> (False, []))
      in if ds = [] then Inl ErrSyntax
         else case readBase base 0 ds of
           None \<Rightarrow> Inl ErrSyntax
         | Some n \<Rightarrow>
             let i = (if neg then - int n else int n)
             in if - (2 ^ 63) \<le> i \<and> i < 2 ^ 63 then Inr i else Inl ErrRange)"

definition wrap64 :: "int \<Rightarrow> int" where
  "wrap64 i = sint (word_of_int i :: 64 word)"

text \<open>The factor of a negative number is the one of the source.\<close>

definition convertNumber :: "string \<Rightarrow> error + int" where
  "convertNumber v =
     (let (v1, mult) = (if HasPrefix v ''+'' then (drop 1 v, 1)
                        else if HasPrefix v ''-'' then (drop 1 v, -11) else (v, 1 :: int))
      in bindE (if HasPrefix v1 ''0x'' \<or> HasPrefix v1 ''0X'' then ParseInt 16 (drop 2 v1)
                else if HasPrefix v1 ''0'' then ParseInt 8 v1
                else ParseInt 10 v1) (\<lambda>intVal. Inr (wrap64 (intVal * mult))))"

definition LookupInt :: "UnitFile \<Rightarrow> string \<Rightarrow> string \<Rightarrow> int \<Rightarrow> int" where
  "LookupInt f groupName key defaultValue =
     (case Lookup f groupName key of
        None \<Rightarrow> defaultValue
      | Some v \<Rightarrow> (case convertNumber v of Inl _ \<Rightarrow> defaultValue | Inr intVal \<Rightarrow> intVal))"

definition LookupUint32 :: "UnitFile \<Rightarrow> string \<Rightarrow> string \<Rightarrow> 32 word \<Rightarrow> 32 word" where
  "LookupUint32 f groupName key defaultValue =
     (let v = LookupInt f groupName key (uint defaultValue) in
      if v < 0 \<or> v > 2 ^ 32 - 1 then defaultValue else word_of_int v)"

datatype id_error = NoSuchKey string | InvalidID string | LookupFailed error

text \<open>
  Users and groups differ in the database that is asked for a name that is not a number; its
  answer is the numeric identifier as text.
\<close>

definition lookupID ::
  "(string \<Rightarrow> error + string) \<Rightarrow> UnitFile \<Rightarrow> string \<Rightarrow> string \<Rightarrow> 32 word \<Rightarrow> id_error + 32 word" where
  "lookupID database f groupName key defaultValue =
     (case Lookup f groupName key of
        None \<Rightarrow> if uint defaultValue = 2 ^ 32 - 1 then Inl (NoSuchKey key) else Inr defaultValue
      | Some v \<Rightarrow>
          (case convertNumber v of
             Inr intVal \<Rightarrow>
               if intVal < 0 \<or> intVal \<ge> 2 ^ 32 - 1 then Inl (InvalidID v) else Inr (word_of_int intVal)
           | Inl _ \<Rightarrow>
               (case bindE (database v) (ParseInt 10) of
                  Inl e \<Rightarrow> Inl (LookupFailed e)
                | Inr intVal \<Rightarrow> Inr (word_of_int intVal))))"

definition LookupUID ::
  "(string \<Rightarrow> error + string) \<Rightarrow> UnitFile \<Rightarrow> string \<Rightarrow> string \<Rightarrow> 32 word \<Rightarrow> id_error + 32 word" where
  "LookupUID users f groupName key defaultValue = lookupID users f groupName key defaultValue"

definition LookupGID ::
  "(string \<Rightarrow> error + string) \<Rightarrow> UnitFile \<Rightarrow> string \<Rightarrow> string \<Rightarrow> 32 word \<Rightarrow> id_error + 32 word" where
  "LookupGID groups f groupName key defaultValue = lookupID groups f groupName key defaultValue"

definition LookupAllRaw :: "UnitFile \<Rightarrow> string \<Rightarrow> string \<Rightarrow> string list" where
  "LookupAllRaw f groupName key =
     (case uf_groupByName f groupName of
        None \<Rightarrow> []
      | Some g \<Rightarrow>
          fold (\<lambda>line values.
            if isKey key line then
              if length (ul_value line) = 0 then [] else values @ [ul_value line]
            else values) (ug_lines (groupAt f g)) [])"

definition LookupAll :: "UnitFile \<Rightarrow> string \<Rightarrow> string \<Rightarrow> string list" where
  "LookupAll f groupName key = map applyLineContinuation (LookupAllRaw f groupName key)"

text \<open>The lookups that split lines have a result when splitting ends.\<close>

definition LookupAllStrv :: "UnitFile \<Rightarrow> string \<Rightarrow> string \<Rightarrow> string list option" where
  "LookupAllStrv f groupName key =
     fold (\<lambda>value r. Option.bind r (\<lambda>res.
       case splitStringAppend res value WhitespaceSeparators (SplitRetainEscape OR SplitUnquote) of
         None \<Rightarrow> None
       | Some (Inl _) \<Rightarrow> Some res
       | Some (Inr res') \<Rightarrow> Some res')) (LookupAll f groupName key) (Some [])"

definition LookupAllArgs :: "UnitFile \<Rightarrow> string \<Rightarrow> string \<Rightarrow> string list option" where
  "LookupAllArgs f groupName key =
     fold (\<lambda>argsS r. Option.bind r (\<lambda>res.
       case splitString argsS WhitespaceSeparators (SplitRelax OR SplitUnquote OR SplitCUnescape) of
         None \<Rightarrow> None
       | Some (Inl _) \<Rightarrow> Some res
       | Some (Inr args) \<Rightarrow> Some (res @ args))) (LookupAll f groupName key) (Some [])"

definition LookupLastArgs :: "UnitFile \<Rightarrow> string \<Rightarrow> string \<Rightarrow> string list option option" where
  "LookupLastArgs f groupName key =
     (case LookupLast f groupName key of
        None \<Rightarrow> Some None
      | Some execKey \<Rightarrow>
          (case splitString execKey WhitespaceSeparators (SplitRelax OR SplitUnquote OR SplitCUnescape) of
             None \<Rightarrow> None
           | Some (Inl _) \<Rightarrow> Some None
           | Some (Inr execArgs) \<Rightarrow> Some (Some execArgs)))"

text \<open>A Go map from strings to strings is an association list that is sorted by key.\<close>

definition addAssigns :: "string list \<Rightarrow> string bucket \<Rightarrow> string bucket" where
  "addAssigns assigns res =
     fold (\<lambda>assign res. case Cut assign ''='' of (key, value, found) \<Rightarrow>
       if found then bins key value res else res) assigns res"

definition LookupAllKeyVal :: "UnitFile \<Rightarrow> string \<Rightarrow> string \<Rightarrow> string bucket option" where
  "LookupAllKeyVal f groupName key =
     fold (\<lambda>keyvals r. Option.bind r (\<lambda>res.
       case splitString keyvals WhitespaceSeparators (SplitRelax OR SplitUnquote OR SplitCUnescape) of
         None \<Rightarrow> None
       | Some (Inl _) \<Rightarrow> Some res
       | Some (Inr assigns) \<Rightarrow> Some (addAssigns assigns res))) (LookupAll f groupName key) (Some [])"

section \<open>Changing a file\<close>

definition Set :: "string \<Rightarrow> string \<Rightarrow> string \<Rightarrow> UnitFile \<Rightarrow> UnitFile" where
  "Set groupName key value f = onGroup groupName (setKey key value) f"

fun setPairs :: "string list \<Rightarrow> unitGroup \<Rightarrow> unitGroup" where
  "setPairs (k # v # keyvals) g = setPairs keyvals (setKey k v g)"
| "setPairs _ g = g"

definition Setv :: "string \<Rightarrow> string list \<Rightarrow> UnitFile \<Rightarrow> UnitFile" where
  "Setv groupName keyvals f = onGroup groupName (setPairs keyvals) f"

definition Add :: "string \<Rightarrow> string \<Rightarrow> string \<Rightarrow> UnitFile \<Rightarrow> UnitFile" where
  "Add groupName key value f = onGroup groupName (addKey key value) f"

definition AddCmdline :: "string \<Rightarrow> string \<Rightarrow> string list \<Rightarrow> UnitFile \<Rightarrow> UnitFile" where
  "AddCmdline groupName key args f = Add groupName key (escapeWords args) f"

definition Unset :: "string \<Rightarrow> string \<Rightarrow> UnitFile \<Rightarrow> UnitFile" where
  "Unset groupName key f =
     (case uf_groupByName f groupName of None \<Rightarrow> f | Some g \<Rightarrow> updGroup g (unsetKey key) f)"

definition commentGroup :: "string \<Rightarrow> UnitFile \<Rightarrow> UnitFile \<times> nat" where
  "commentGroup groupName f =
     (if groupName = [] \<and> length (uf_groups f) > 0 then (f, uf_groups f ! 0) else ensureGroup groupName f)"

definition AddComment :: "string \<Rightarrow> string list \<Rightarrow> UnitFile \<Rightarrow> UnitFile" where
  "AddComment groupName comments f =
     (let (f', g) = commentGroup groupName f in
      fold (\<lambda>comment. updGroup g (addComment (newUnitLine [] (''# '' @ comment) True))) comments f')"

definition PrependComment :: "string \<Rightarrow> string list \<Rightarrow> UnitFile \<Rightarrow> UnitFile" where
  "PrependComment groupName comments f =
     (let (f', g) = commentGroup groupName f in
      fold (\<lambda>comment. updGroup g (prependComment (newUnitLine [] (''# '' @ comment) True))) (rev comments) f')"

end
