(* ===== verification/Quadlet.thy ===== *)
theory Quadlet
  imports UnitFile
begin

text \<open>
  Quadlet, from \<^verbatim>\<open>src/pkg/systemd/quadlet\<close>: unit files with a group for a container, a network, a volume or a
  Kubernetes pod are converted to service files for systemd that run podman. The environment of the process
  (the variable \<^verbatim>\<open>PODMAN\<close>, the directory of the binaries, the working directory) and the functions of the standard library that
  need tables of the Unicode standard or interpret format directives are arguments. Splitting a line may have no
  result in the model of the parser; \<open>Diverges\<close> marks this case and is proved not to occur.
\<close>

section \<open>Paths and text\<close>

text \<open>\<^verbatim>\<open>path.Clean\<close>: the elements without dots, where two dots remove the element before them.\<close>

definition cleanStep :: "bool \<Rightarrow> string \<Rightarrow> string list \<Rightarrow> string list" where
  "cleanStep rooted e out =
     (if e = [] \<or> e = ''.'' then out
      else if e = ''..'' then
        if out \<noteq> [] \<and> last out \<noteq> ''..'' then butlast out
        else if rooted then out else out @ [e]
      else out @ [e])"

definition Clean :: "string \<Rightarrow> string" where
  "Clean p =
     (let rooted = HasPrefix p ''/'';
          out = fold (cleanStep rooted) (Split (CHR ''/'') p) []
      in if rooted then ''/'' @ Join ''/'' out
         else if out = [] then ''.'' else Join ''/'' out)"

definition joinPath :: "string \<Rightarrow> string \<Rightarrow> string" where
  "joinPath a b =
     (if a \<noteq> [] then Clean (a @ ''/'' @ b) else if b \<noteq> [] then Clean b else [])"

definition lastIndexByte :: "char \<Rightarrow> string \<Rightarrow> nat option" where
  "lastIndexByte c s =
     (if c \<in> set s then Some (length s - 1 - length (takeWhile (\<lambda>x. x \<noteq> c) (rev s))) else None)"

definition Dir :: "string \<Rightarrow> string" where
  "Dir p = Clean (case lastIndexByte (CHR ''/'') p of None \<Rightarrow> [] | Some i \<Rightarrow> take (Suc i) p)"

function trimLeftSpace :: "string \<Rightarrow> string" where
  "trimLeftSpace s =
     (if s = [] \<or> \<not> IsSpace (fst (decodeRune s)) then s else trimLeftSpace (drop (snd (decodeRune s)) s))"
  by auto

termination
  by (relation "measure length") (use decodeRune_pos in \<open>auto simp: Suc_le_eq\<close>)

declare trimLeftSpace.simps [simp del]

definition TrimSpace :: "string \<Rightarrow> string" where
  "TrimSpace s = trimRightSpace (trimLeftSpace s)"

fun SplitN :: "nat \<Rightarrow> string \<Rightarrow> string \<Rightarrow> string list" where
  "SplitN 0 sep s = []"
| "SplitN (Suc 0) sep s = [s]"
| "SplitN (Suc (Suc n)) sep s =
     (case Cut s sep of (before, after, found) \<Rightarrow> if found then before # SplitN (Suc n) sep after else [s])"

record Env =
  env_PODMAN :: string
  env_binDir :: string
  env_Abs :: "string \<Rightarrow> error + string"
  env_ToLower :: "string \<Rightarrow> string"
  env_Sprintf :: "string \<Rightarrow> string"

section \<open>Command lines\<close>

type_synonym PodmanCmdline = "string list"

definition podmanBinary :: "Env \<Rightarrow> string" where
  "podmanBinary env = (if length (env_PODMAN env) > 0 then env_PODMAN env else joinPath (env_binDir env) ''podman'')"

definition addKeys :: "string \<Rightarrow> string bucket \<Rightarrow> PodmanCmdline \<Rightarrow> PodmanCmdline" where
  "addKeys arg keys c = c @ concat (map (\<lambda>(k, v). [arg, k @ ''='' @ v]) keys)"

definition addEnv :: "string bucket \<Rightarrow> PodmanCmdline \<Rightarrow> PodmanCmdline" where
  "addEnv env c = addKeys ''--env'' env c"

definition addLabels :: "string bucket \<Rightarrow> PodmanCmdline \<Rightarrow> PodmanCmdline" where
  "addLabels labels c = addKeys ''--label'' labels c"

definition addAnnotations :: "string bucket \<Rightarrow> PodmanCmdline \<Rightarrow> PodmanCmdline" where
  "addAnnotations annotations c = addKeys ''--annotation'' annotations c"

definition addBool :: "string \<Rightarrow> bool \<Rightarrow> PodmanCmdline \<Rightarrow> PodmanCmdline" where
  "addBool arg val c = (if val then c @ [arg] else c @ [arg @ ''=false''])"

definition NewPodmanCmdline :: "Env \<Rightarrow> string list \<Rightarrow> PodmanCmdline" where
  "NewPodmanCmdline env args = [podmanBinary env] @ args"

section \<open>Groups and keys\<close>

definition ContainerGroup :: string where "ContainerGroup = ''Container''"
definition KubeGroup :: string where "KubeGroup = ''Kube''"
definition NetworkGroup :: string where "NetworkGroup = ''Network''"
definition ServiceGroup :: string where "ServiceGroup = ''Service''"
definition UnitGroup :: string where "UnitGroup = ''Unit''"
definition VolumeGroup :: string where "VolumeGroup = ''Volume''"
definition XContainerGroup :: string where "XContainerGroup = ''X-Container''"
definition XKubeGroup :: string where "XKubeGroup = ''X-Kube''"
definition XNetworkGroup :: string where "XNetworkGroup = ''X-Network''"
definition XVolumeGroup :: string where "XVolumeGroup = ''X-Volume''"

lemmas group_names = ContainerGroup_def KubeGroup_def NetworkGroup_def ServiceGroup_def UnitGroup_def
  VolumeGroup_def XContainerGroup_def XKubeGroup_def XNetworkGroup_def XVolumeGroup_def

definition defaultLogDriver :: string where
  "defaultLogDriver = ''passthrough''"

definition supportedContainerKeys :: "string list" where
  "supportedContainerKeys =
     [''AddCapability'', ''AddDevice'', ''Annotation'', ''ContainerName'', ''DropCapability'', ''Environment'',
      ''EnvironmentFile'', ''EnvironmentHost'', ''Exec'', ''ExposeHostPort'', ''Group'', ''Image'', ''Label'',
      ''LogDriver'', ''Network'', ''NoNewPrivileges'', ''Notify'', ''PodmanArgs'', ''PublishPort'', ''ReadOnly'',
      ''RemapGid'', ''RemapUid'', ''RemapUidSize'', ''RemapUsers'', ''Rootfs'', ''RunInit'', ''SeccompProfile'',
      ''SecurityLabelDisable'', ''SecurityLabelFileType'', ''SecurityLabelLevel'', ''SecurityLabelType'',
      ''Secret'', ''Timezone'', ''User'', ''VolatileTmp'', ''Volume'']"

definition supportedVolumeKeys :: "string list" where
  "supportedVolumeKeys = [''Copy'', ''Device'', ''Group'', ''Label'', ''Options'', ''Type'', ''User'']"

definition supportedNetworkKeys :: "string list" where
  "supportedNetworkKeys =
     [''Label'', ''DisableDNS'', ''Driver'', ''Gateway'', ''IPAMDriver'', ''IPRange'', ''IPv6'', ''Internal'',
      ''Options'', ''Subnet'']"

definition supportedKubeKeys :: "string list" where
  "supportedKubeKeys =
     [''ConfigMap'', ''LogDriver'', ''Network'', ''PublishPort'', ''RemapGid'', ''RemapUid'', ''RemapUidSize'',
      ''RemapUsers'', ''Yaml'']"

datatype quadlet_error =
    UnsupportedKey string string
  | NoImage | ImageConflict
  | InvalidKillMode string | InvalidType string
  | InvalidPort string | InvalidPublishedPort string
  | MoreGateways | MoreRanges | NoSubnet
  | TypeWithoutDevice | OptionsWithoutDevice
  | NoYaml
  | UidMapWithoutRemap | GidMapWithoutRemap | ManualUnsupported | KeepIDSystem | UnsupportedRemap string
  | AbsFailed error
  | Diverges

definition must :: "'a option \<Rightarrow> quadlet_error + 'a" where
  "must r = requireE r Diverges"

section \<open>Helpers\<close>

definition replaceExtension :: "string \<Rightarrow> string \<Rightarrow> string \<Rightarrow> string \<Rightarrow> string" where
  "replaceExtension name extension extraPrefix extraSuffix =
     (let baseName = (case lastIndexByte (CHR ''.'') name of
                        Some dot \<Rightarrow> if dot > 0 then take dot name else name
                      | None \<Rightarrow> name)
      in extraPrefix @ baseName @ extraSuffix @ extension)"

definition isDigit :: "char \<Rightarrow> bool" where
  "isDigit c \<longleftrightarrow> CHR ''0'' \<le> c \<and> c \<le> CHR ''9''"

text \<open>
  The pattern \<^verbatim>\<open>\d+(-\d+)?(/udp|/tcp)?$\<close>. It has no anchor at its start, so a port range matches when one of
  its suffixes has the form.
\<close>

definition portForm :: "string \<Rightarrow> bool" where
  "portForm s =
     (let tails = [[], ''/udp'', ''/tcp'']; rest = dropWhile isDigit s in
      s \<noteq> [] \<and> isDigit (hd s) \<and>
      (rest \<in> set tails \<or>
       (case rest of
          c # rest2 \<Rightarrow> c = CHR ''-'' \<and> rest2 \<noteq> [] \<and> isDigit (hd rest2) \<and> dropWhile isDigit rest2 \<in> set tails
        | [] \<Rightarrow> False)))"

definition isPortRange :: "string \<Rightarrow> bool" where
  "isPortRange port \<longleftrightarrow> list_ex portForm (suffixes port)"

definition checkForUnknownKeys :: "UnitFile \<Rightarrow> string \<Rightarrow> string list \<Rightarrow> quadlet_error + unit" where
  "checkForUnknownKeys f groupName supportedKeys =
     foldE (\<lambda>key _. guardE (key \<in> set supportedKeys) (UnsupportedKey key groupName)) (ListKeys f groupName) ()"

text \<open>Splitting at colons outside of brackets; an open bracket extends to the end.\<close>

fun splitPortsFrom :: "bool \<Rightarrow> string \<Rightarrow> string \<Rightarrow> string list" where
  "splitPortsFrom inBracket part [] = [part]"
| "splitPortsFrom inBracket part (c # cs) =
     (if inBracket then splitPortsFrom (c \<noteq> CHR '']'') (part @ [c]) cs
      else if c = CHR ''['' then splitPortsFrom True (part @ [c]) cs
      else if c = CHR '':'' then part # splitPortsFrom False [] cs
      else splitPortsFrom False (part @ [c]) cs)"

definition splitPorts :: "string \<Rightarrow> string list" where
  "splitPorts ports = splitPortsFrom False [] ports"

definition usernsOpts :: "string \<Rightarrow> string list \<Rightarrow> string" where
  "usernsOpts kind opts = kind @ (if length opts > 0 then '':'' else []) @ Join '','' opts"

definition handleUserRemap ::
  "Env \<Rightarrow> UnitFile \<Rightarrow> string \<Rightarrow> bool \<Rightarrow> bool \<Rightarrow> PodmanCmdline \<Rightarrow> quadlet_error + PodmanCmdline" where
  "handleUserRemap env f groupName isUser supportManual podman =
     bindE (must (LookupAllStrv f groupName ''RemapUid'')) (\<lambda>uidMaps.
     bindE (must (LookupAllStrv f groupName ''RemapGid'')) (\<lambda>gidMaps.
     let remapUsers = (case LookupLast f groupName ''RemapUsers'' of None \<Rightarrow> [] | Some v \<Rightarrow> v) in
     if remapUsers = [] then
       bindE (guardE (length uidMaps = 0) UidMapWithoutRemap) (\<lambda>_.
       bindE (guardE (length gidMaps = 0) GidMapWithoutRemap) (\<lambda>_. Inr podman))
     else if remapUsers = ''manual'' then
       bindE (guardE supportManual ManualUnsupported) (\<lambda>_.
         Inr (podman @ map (\<lambda>m. ''--uidmap='' @ m) uidMaps @ map (\<lambda>m. ''--gidmap='' @ m) gidMaps))
     else if remapUsers = ''auto'' then
       let uidSize = LookupUint32 f groupName ''RemapUidSize'' 0;
           autoOpts = map (\<lambda>m. ''uidmapping='' @ m) uidMaps @ map (\<lambda>m. ''gidmapping='' @ m) gidMaps @
             (if uidSize > 0 then [''size='' @ showNat (unat uidSize)] else [])
       in Inr (podman @ [env_Sprintf env (''--userns='' @ usernsOpts ''auto'' autoOpts)])
     else if remapUsers = ''keep-id'' then
       bindE (guardE isUser KeepIDSystem) (\<lambda>_. Inr (podman @ [''--userns=keep-id'']))
     else Inl (UnsupportedRemap remapUsers)))"

definition addNetwork :: "string \<Rightarrow> UnitFile \<times> PodmanCmdline \<Rightarrow> UnitFile \<times> PodmanCmdline" where
  "addNetwork network = (\<lambda>(service, podman).
     if length network > 0 then
       case Cut network '':'' of (quadletNetworkName, options, found) \<Rightarrow>
         if HasSuffix quadletNetworkName ''.network'' then
           let networkName = replaceExtension quadletNetworkName [] ''systemd-'' [];
               networkServiceName = replaceExtension quadletNetworkName ''.service'' [] ''-network'';
               service = Add UnitGroup ''Requires'' networkServiceName service;
               service = Add UnitGroup ''After'' networkServiceName service;
               network = (if found then networkName @ '':'' @ options else networkName)
           in (service, podman @ [''--network='' @ network])
         else (service, podman @ [''--network='' @ network])
     else (service, podman))"

definition addNetworks :: "UnitFile \<Rightarrow> string \<Rightarrow> UnitFile \<times> PodmanCmdline \<Rightarrow> UnitFile \<times> PodmanCmdline" where
  "addNetworks f groupName sp = fold addNetwork (LookupAll f groupName ''Network'') sp"

definition getAbsolutePath :: "Env \<Rightarrow> UnitFile \<Rightarrow> string \<Rightarrow> quadlet_error + string" where
  "getAbsolutePath env f filePath =
     (if \<not> HasPrefix filePath ''/'' then
        if length (uf_Path f) > 0 then Inr (joinPath (Dir (uf_Path f)) filePath)
        else (case env_Abs env filePath of Inl e \<Rightarrow> Inl (AbsFailed e) | Inr p \<Rightarrow> Inr p)
      else Inr filePath)"

definition publishPort :: "string \<Rightarrow> PodmanCmdline \<Rightarrow> quadlet_error + PodmanCmdline" where
  "publishPort port podman =
     (let publishPort = TrimSpace port in
      bindE (case splitPorts publishPort of
               [containerPort] \<Rightarrow> Inr ([], [], containerPort)
             | [hostPort, containerPort] \<Rightarrow> Inr ([], hostPort, containerPort)
             | [ip, hostPort, containerPort] \<Rightarrow> Inr (ip, hostPort, containerPort)
             | _ \<Rightarrow> Inl (InvalidPublishedPort publishPort)) (\<lambda>(ip, hostPort, containerPort).
      let ip = (if ip = ''0.0.0.0'' then [] else ip) in
      bindE (guardE (\<not> (length hostPort > 0 \<and> \<not> isPortRange hostPort)) (InvalidPort hostPort)) (\<lambda>_.
      bindE (guardE (\<not> (length containerPort > 0 \<and> \<not> isPortRange containerPort)) (InvalidPort containerPort)) (\<lambda>_.
        Inr (podman @ [''--publish'',
          if length ip > 0 \<and> length hostPort > 0 then ip @ '':'' @ hostPort @ '':'' @ containerPort
          else if length ip > 0 then ip @ ''::'' @ containerPort
          else if length hostPort > 0 then hostPort @ '':'' @ containerPort
          else containerPort])))))"

definition handlePublishPorts :: "UnitFile \<Rightarrow> string \<Rightarrow> PodmanCmdline \<Rightarrow> quadlet_error + PodmanCmdline" where
  "handlePublishPorts f groupName podman = foldE publishPort (LookupAll f groupName ''PublishPort'') podman"

definition handleLogDriver :: "UnitFile \<Rightarrow> string \<Rightarrow> PodmanCmdline \<Rightarrow> PodmanCmdline" where
  "handleLogDriver f groupName podman =
     podman @ [''--log-driver'',
       case Lookup f groupName ''LogDriver'' of None \<Rightarrow> defaultLogDriver | Some d \<Rightarrow> d]"

end
