(* ===== verification/QuadletConvert.thy ===== *)
theory QuadletConvert
  imports Quadlet
begin

text \<open>
  The four conversions of Quadlet. Each copies the unit file, sets its own group aside under a name that systemd ignores,
  collects the command line from the keys of the group and adds it to the service.
\<close>

section \<open>Steps of the conversions\<close>

text \<open>The value of a key, or the empty string.\<close>

definition valueOf :: "UnitFile \<Rightarrow> string \<Rightarrow> string \<Rightarrow> string" where
  "valueOf f groupName key = (case Lookup f groupName key of None \<Rightarrow> [] | Some v \<Rightarrow> v)"

definition sourcePath :: "UnitFile \<Rightarrow> UnitFile \<Rightarrow> UnitFile" where
  "sourcePath f service = (if uf_Path f \<noteq> [] then Add UnitGroup ''SourcePath'' (uf_Path f) service else service)"

definition checkKillMode :: "UnitFile \<Rightarrow> quadlet_error + UnitFile" where
  "checkKillMode service =
     (case Lookup service ServiceGroup ''KillMode'' of
        Some killMode \<Rightarrow>
          if killMode = ''mixed'' \<or> killMode = ''control-group'' then Inr service else Inl (InvalidKillMode killMode)
      | None \<Rightarrow> Inr (Set ServiceGroup ''KillMode'' ''mixed'' service))"

definition syslogIdentifier :: "UnitFile \<Rightarrow> UnitFile \<Rightarrow> UnitFile" where
  "syslogIdentifier f service =
     (if \<not> HasKey f ServiceGroup ''SyslogIdentifier'' then Set ServiceGroup ''SyslogIdentifier'' ''%N'' service
      else service)"

definition serviceType :: "UnitFile \<Rightarrow> UnitFile \<times> PodmanCmdline \<Rightarrow> quadlet_error + UnitFile \<times> PodmanCmdline" where
  "serviceType container = (\<lambda>(service, podman).
     let type = Lookup service ServiceGroup ''Type'' in
     bindE (guardE (type \<in> {None, Some ''notify'', Some ''oneshot''}) (InvalidType (valueOf service ServiceGroup ''Type''))) (\<lambda>_.
     if type \<noteq> Some ''oneshot'' then
       let notify = LookupBooleanWithDefault container ContainerGroup ''Notify'' False;
           podman = podman @ [if notify then ''--sdnotify=container'' else ''--sdnotify=conmon''];
           service = Setv ServiceGroup [''Type'', ''notify'', ''NotifyAccess'', ''all''] service
       in Inr (service, podman @ [''-d''])
     else Inr (service, podman)))"

definition securityArgs :: "UnitFile \<Rightarrow> PodmanCmdline \<Rightarrow> PodmanCmdline" where
  "securityArgs container podman =
     podman @
     (if LookupBooleanWithDefault container ContainerGroup ''NoNewPrivileges'' False
      then [''--security-opt=no-new-privileges''] else []) @
     (if LookupBooleanWithDefault container ContainerGroup ''SecurityLabelDisable'' False
      then [''--security-opt'', ''label:disable''] else []) @
     (let t = valueOf container ContainerGroup ''SecurityLabelType'' in
      if length t > 0 then [''--security-opt'', ''label=type:'' @ t] else []) @
     (let t = valueOf container ContainerGroup ''SecurityLabelFileType'' in
      if length t > 0 then [''--security-opt'', ''label=filetype:'' @ t] else []) @
     (let t = valueOf container ContainerGroup ''SecurityLabelLevel'' in
      if length t > 0 then [''--security-opt'', ''label=level:'' @ t] else [])"

definition capabilityArgs :: "Env \<Rightarrow> UnitFile \<Rightarrow> PodmanCmdline \<Rightarrow> quadlet_error + PodmanCmdline" where
  "capabilityArgs env container podman =
     bindE (must (LookupAllStrv container ContainerGroup ''AddDevice'')) (\<lambda>devices.
     bindE (must (LookupAllStrv container ContainerGroup ''DropCapability'')) (\<lambda>dropCaps.
     bindE (must (LookupAllStrv container ContainerGroup ''AddCapability'')) (\<lambda>addCaps.
       Inr (podman @ map (\<lambda>d. ''--device='' @ d) devices @
         (case Lookup container ContainerGroup ''SeccompProfile'' of
            None \<Rightarrow> [] | Some p \<Rightarrow> [''--security-opt'', ''seccomp='' @ p]) @
         map (\<lambda>c. ''--cap-drop='' @ env_ToLower env c) dropCaps @
         map (\<lambda>c. ''--cap-add='' @ env_ToLower env c) addCaps))))"

definition readOnlyArgs :: "UnitFile \<Rightarrow> PodmanCmdline \<Rightarrow> PodmanCmdline" where
  "readOnlyArgs container podman =
     (let ro = LookupBoolean container ContainerGroup ''ReadOnly'';
          readOnly = (ro = Some True);
          podman = (case ro of None \<Rightarrow> podman | Some b \<Rightarrow> addBool ''--read-only'' b podman)
      in if LookupBooleanWithDefault container ContainerGroup ''VolatileTmp'' False
         then if \<not> readOnly then podman @ [''--tmpfs'', ''/tmp:rw,size=512M,mode=1777''] else podman
         else if readOnly then podman @ [''--read-only-tmpfs=false''] else podman)"

definition userArgs :: "UnitFile \<Rightarrow> PodmanCmdline \<Rightarrow> PodmanCmdline" where
  "userArgs container podman =
     (let hasUser = HasKey container ContainerGroup ''User''; hasGroup = HasKey container ContainerGroup ''Group'' in
      if hasUser \<or> hasGroup then
        let uid = LookupUint32 container ContainerGroup ''User'' 0;
            gid = LookupUint32 container ContainerGroup ''Group'' 0
        in podman @ [''--user'',
             if hasGroup then showNat (unat uid) @ '':'' @ showNat (unat gid) else showNat (unat uid)]
      else podman)"

definition mountVolume :: "string \<Rightarrow> UnitFile \<times> PodmanCmdline \<Rightarrow> UnitFile \<times> PodmanCmdline" where
  "mountVolume volume = (\<lambda>(service, podman).
     let parts = SplitN 3 '':'' volume;
         source = (if length parts \<ge> 2 then parts ! 0 else []);
         dest = (if length parts \<ge> 2 then parts ! 1 else parts ! 0);
         options = (if length parts \<ge> 3 then '':'' @ parts ! 2 else []);
         (service, source) =
           (if source \<noteq> [] then
              if source ! 0 = CHR ''/'' then (Add UnitGroup ''RequiresMountsFor'' source service, source)
              else if HasSuffix source ''.volume'' then
                let volumeName = replaceExtension source [] ''systemd-'' [];
                    volumeServiceName = replaceExtension source ''.service'' [] ''-volume''
                in (Add UnitGroup ''After'' volumeServiceName (Add UnitGroup ''Requires'' volumeServiceName service), volumeName)
              else (service, source)
            else (service, source))
     in (service, podman @ [''-v'', if source = [] then dest else source @ '':'' @ dest @ options]))"

definition exposeHostPort :: "string \<Rightarrow> PodmanCmdline \<Rightarrow> quadlet_error + PodmanCmdline" where
  "exposeHostPort port podman =
     (let exposedPort = TrimSpace port in
      bindE (guardE (isPortRange exposedPort) (InvalidPort exposedPort)) (\<lambda>_.
        Inr (podman @ [''--expose='' @ exposedPort])))"

definition fileArgs :: "Env \<Rightarrow> UnitFile \<Rightarrow> string \<Rightarrow> string list \<Rightarrow> PodmanCmdline \<Rightarrow> quadlet_error + PodmanCmdline" where
  "fileArgs env f arg files podman =
     foldE (\<lambda>file podman. bindE (getAbsolutePath env f file) (\<lambda>filePath. Inr (podman @ [arg, filePath]))) files podman"

section \<open>Containers\<close>

definition containerService :: "Env \<Rightarrow> UnitFile \<Rightarrow> UnitFile" where
  "containerService env service =
     (let cidfile = podmanBinary env @ '' rm -f -i --cidfile=%t/%N.cid'';
          service = Add UnitGroup ''RequiresMountsFor'' ''%t/containers'' service;
          service = Add ServiceGroup ''ExecStop'' cidfile service
      in Add ServiceGroup ''ExecStopPost'' (''-'' @ cidfile) service)"

definition containerArgs :: "Env \<Rightarrow> UnitFile \<Rightarrow> PodmanCmdline" where
  "containerArgs env container =
     (let name = valueOf container ContainerGroup ''ContainerName'';
          containerName = (if length name = 0 then ''systemd-%N'' else name)
      in NewPodmanCmdline env [''run''] @
           [''--name='' @ containerName, ''--cidfile=%t/%N.cid'', ''--replace'', ''--rm''])"

definition lastArgs :: "Env \<Rightarrow> UnitFile \<Rightarrow> string bucket \<Rightarrow> PodmanCmdline \<Rightarrow> quadlet_error + PodmanCmdline" where
  "lastArgs env container podmanEnv podman =
     bindE (must (LookupAllKeyVal container ContainerGroup ''Label'')) (\<lambda>labels.
     bindE (must (LookupAllKeyVal container ContainerGroup ''Annotation'')) (\<lambda>annotations.
     bindE (must (LookupAllArgs container ContainerGroup ''EnvironmentFile'')) (\<lambda>envFiles.
     let podman = addAnnotations annotations (addLabels labels (addEnv podmanEnv podman)) in
     bindE (fileArgs env container ''--env-file'' envFiles podman) (\<lambda>podman.
     let podman = (case LookupBoolean container ContainerGroup ''EnvironmentHost'' of
                     None \<Rightarrow> podman | Some envHost \<Rightarrow> addBool ''--env-host'' envHost podman) in
     bindE (must (LookupAllArgs container ContainerGroup ''Secret'')) (\<lambda>secrets.
     bindE (must (LookupAllArgs container ContainerGroup ''PodmanArgs'')) (\<lambda>podmanArgs.
     bindE (must (LookupLastArgs container ContainerGroup ''Exec'')) (\<lambda>execArgs.
     let image = valueOf container ContainerGroup ''Image'' in
       Inr (podman @ concat (map (\<lambda>s. [''--secret'', s]) secrets) @ podmanArgs @
         (if length image > 0 then [image] else [''--rootfs'', valueOf container ContainerGroup ''Rootfs'']) @
         (case execArgs of None \<Rightarrow> [] | Some args \<Rightarrow> args)))))))))"

definition ConvertContainer :: "Env \<Rightarrow> UnitFile \<Rightarrow> bool \<Rightarrow> quadlet_error + UnitFile" where
  "ConvertContainer env container isUser =
     (let service = (Dup container)\<lparr>uf_Filename := replaceExtension (uf_Filename container) ''.service'' [] []\<rparr>;
          service = sourcePath container service in
      bindE (checkForUnknownKeys container ContainerGroup supportedContainerKeys) (\<lambda>_.
      let service = RenameGroup ContainerGroup XContainerGroup service;
          image = valueOf container ContainerGroup ''Image''; rootfs = valueOf container ContainerGroup ''Rootfs'' in
      bindE (guardE (\<not> (length image = 0 \<and> length rootfs = 0)) NoImage) (\<lambda>_.
      bindE (guardE (\<not> (length image > 0 \<and> length rootfs > 0)) ImageConflict) (\<lambda>_.
      let service = Add ServiceGroup ''Environment'' ''PODMAN_SYSTEMD_UNIT=%n'' service in
      bindE (checkKillMode service) (\<lambda>service.
      bindE (must (LookupAllKeyVal container ContainerGroup ''Environment'')) (\<lambda>podmanEnv.
      let service = containerService env service;
          podman = handleLogDriver container ContainerGroup (containerArgs env container);
          service = Add ServiceGroup ''Delegate'' ''yes'' service;
          podman = podman @ [''--cgroups=split''];
          timezone = valueOf container ContainerGroup ''Timezone'';
          podman = (if length timezone > 0 then podman @ [''--tz='' @ timezone] else podman);
          (service, podman) = addNetworks container ContainerGroup (service, podman);
          podman = (case LookupBoolean container ContainerGroup ''RunInit'' of
                      None \<Rightarrow> podman | Some runInit \<Rightarrow> addBool ''--init'' runInit podman) in
      bindE (serviceType container (service, podman)) (\<lambda>(service, podman).
      let service = syslogIdentifier container service in
      bindE (capabilityArgs env container (securityArgs container podman)) (\<lambda>podman.
      let podman = userArgs container (readOnlyArgs container podman) in
      bindE (handleUserRemap env container ContainerGroup isUser True podman) (\<lambda>podman.
      let (service, podman) = fold mountVolume (LookupAll container ContainerGroup ''Volume'') (service, podman) in
      bindE (foldE exposeHostPort (LookupAll container ContainerGroup ''ExposeHostPort'') podman) (\<lambda>podman.
      bindE (handlePublishPorts container ContainerGroup podman) (\<lambda>podman.
      bindE (lastArgs env container podmanEnv podman) (\<lambda>podman.
        Inr (AddCmdline ServiceGroup ''ExecStart'' podman service)))))))))))))"

section \<open>Networks\<close>

fun subnetArgs :: "string list \<Rightarrow> string list \<Rightarrow> string list \<Rightarrow> string list" where
  "subnetArgs [] gateways ipRanges = []"
| "subnetArgs (s # subnets) gateways ipRanges =
     [''--subnet='' @ s] @
     (case gateways of [] \<Rightarrow> [] | g # _ \<Rightarrow> [''--gateway='' @ g]) @
     (case ipRanges of [] \<Rightarrow> [] | r # _ \<Rightarrow> [''--ip-range='' @ r]) @
     subnetArgs subnets (tl gateways) (tl ipRanges)"

definition oneshot :: "UnitFile \<Rightarrow> UnitFile" where
  "oneshot service =
     Setv ServiceGroup [''Type'', ''oneshot'', ''RemainAfterExit'', ''yes'', ''SyslogIdentifier'', ''%N''] service"

definition ConvertNetwork :: "Env \<Rightarrow> UnitFile \<Rightarrow> string \<Rightarrow> quadlet_error + UnitFile" where
  "ConvertNetwork env network name =
     (let service = (Dup network)\<lparr>uf_Filename := replaceExtension (uf_Filename network) ''.service'' [] ''-network''\<rparr> in
      bindE (checkForUnknownKeys network NetworkGroup supportedNetworkKeys) (\<lambda>_.
      let service = RenameGroup NetworkGroup XNetworkGroup service;
          networkName = replaceExtension name [] ''systemd-'' [];
          service = Add UnitGroup ''RequiresMountsFor'' ''%t/containers'' service;
          podman = NewPodmanCmdline env [''network'', ''create'', ''--ignore''];
          podman = (if LookupBooleanWithDefault network NetworkGroup ''DisableDNS'' False
                    then podman @ [''--disable-dns''] else podman);
          driver = valueOf network NetworkGroup ''Driver'';
          podman = (if length driver > 0 then podman @ [''--driver='' @ driver] else podman);
          subnets = LookupAll network NetworkGroup ''Subnet'';
          gateways = LookupAll network NetworkGroup ''Gateway'';
          ipRanges = LookupAll network NetworkGroup ''IPRange'' in
      bindE (if length subnets > 0 then
               bindE (guardE (\<not> length gateways > length subnets) MoreGateways) (\<lambda>_.
               bindE (guardE (\<not> length ipRanges > length subnets) MoreRanges) (\<lambda>_.
                 Inr (podman @ subnetArgs subnets gateways ipRanges)))
             else bindE (guardE (\<not> (length ipRanges > 0 \<or> length gateways > 0)) NoSubnet) (\<lambda>_. Inr podman)) (\<lambda>podman.
      let podman = (if LookupBooleanWithDefault network NetworkGroup ''Internal'' False
                    then podman @ [''--internal''] else podman);
          ipamDriver = valueOf network NetworkGroup ''IPAMDriver'';
          podman = (if length ipamDriver > 0 then podman @ [''--ipam-driver='' @ ipamDriver] else podman);
          podman = (if LookupBooleanWithDefault network NetworkGroup ''IPv6'' False
                    then podman @ [''--ipv6''] else podman) in
      bindE (must (LookupAllKeyVal network NetworkGroup ''Options'')) (\<lambda>networkOptions.
      bindE (must (LookupAllKeyVal network NetworkGroup ''Label'')) (\<lambda>labels.
      let podman = (if length networkOptions > 0 then addKeys ''--opt'' networkOptions podman else podman);
          podman = (if length labels > 0 then addLabels labels podman else podman);
          service = AddCmdline ServiceGroup ''ExecStart'' (podman @ [networkName]) service
      in Inr (oneshot service))))))"

section \<open>Volumes\<close>

definition volumeOpts :: "UnitFile \<Rightarrow> string" where
  "volumeOpts volume =
     (let opts = ''o='';
          opts = (if HasKey volume VolumeGroup ''User''
                  then opts @ (if length opts > 2 then '','' else []) @
                       ''uid='' @ showNat (unat (LookupUint32 volume VolumeGroup ''User'' 0)) else opts);
          opts = (if HasKey volume VolumeGroup ''Group''
                  then opts @ (if length opts > 2 then '','' else []) @
                       ''gid='' @ showNat (unat (LookupUint32 volume VolumeGroup ''Group'' 0)) else opts)
      in opts)"

definition ConvertVolume :: "Env \<Rightarrow> UnitFile \<Rightarrow> string \<Rightarrow> quadlet_error + UnitFile" where
  "ConvertVolume env volume name =
     (let service = (Dup volume)\<lparr>uf_Filename := replaceExtension (uf_Filename volume) ''.service'' [] ''-volume''\<rparr> in
      bindE (checkForUnknownKeys volume VolumeGroup supportedVolumeKeys) (\<lambda>_.
      let service = RenameGroup VolumeGroup XVolumeGroup service;
          volumeName = replaceExtension name [] ''systemd-'' [];
          service = Add UnitGroup ''RequiresMountsFor'' ''%t/containers'' service in
      bindE (must (LookupAllKeyVal volume VolumeGroup ''Label'')) (\<lambda>labels.
      let podman = NewPodmanCmdline env [''volume'', ''create'', ''--ignore''];
          opts = volumeOpts volume;
          podman = (case LookupBoolean volume VolumeGroup ''Copy'' of
                      None \<Rightarrow> podman
                    | Some copy \<Rightarrow> podman @ [''--opt'', if copy then ''copy'' else ''nocopy'']);
          dev = valueOf volume VolumeGroup ''Device'';
          devValid = (length dev \<noteq> 0);
          podman = (if devValid then podman @ [''--opt'', ''device='' @ dev] else podman);
          devType = valueOf volume VolumeGroup ''Type'' in
      bindE (if length devType \<noteq> 0
             then bindE (guardE devValid TypeWithoutDevice) (\<lambda>_. Inr (podman @ [''--opt'', ''type='' @ devType]))
             else Inr podman) (\<lambda>podman.
      let mountOpts = valueOf volume VolumeGroup ''Options'' in
      bindE (if length mountOpts \<noteq> 0
             then bindE (guardE devValid OptionsWithoutDevice) (\<lambda>_.
                    Inr (opts @ (if length opts > 2 then '','' else []) @ mountOpts))
             else Inr opts) (\<lambda>opts.
      let podman = (if length opts > 2 then podman @ [''--opt'', opts] else podman);
          podman = addLabels labels podman @ [volumeName];
          service = AddCmdline ServiceGroup ''ExecStart'' podman service
      in Inr (oneshot service))))))"

section \<open>Kubernetes\<close>

definition ConvertKube :: "Env \<Rightarrow> UnitFile \<Rightarrow> bool \<Rightarrow> quadlet_error + UnitFile" where
  "ConvertKube env kube isUser =
     (let service = (Dup kube)\<lparr>uf_Filename := replaceExtension (uf_Filename kube) ''.service'' [] []\<rparr>;
          service = sourcePath kube service in
      bindE (checkForUnknownKeys kube KubeGroup supportedKubeKeys) (\<lambda>_.
      let service = RenameGroup KubeGroup XKubeGroup service;
          yamlPath = valueOf kube KubeGroup ''Yaml'' in
      bindE (guardE (\<not> length yamlPath = 0) NoYaml) (\<lambda>_.
      bindE (getAbsolutePath env kube yamlPath) (\<lambda>yamlPath.
      bindE (checkKillMode service) (\<lambda>service.
      let service = Add ServiceGroup ''Environment'' ''PODMAN_SYSTEMD_UNIT=%n'' service;
          service = Add UnitGroup ''RequiresMountsFor'' ''%t/containers'' service;
          service = Setv ServiceGroup [''Type'', ''notify'', ''NotifyAccess'', ''all''] service;
          service = syslogIdentifier kube service;
          execStart = NewPodmanCmdline env [''kube'', ''play''] @ [''--replace'', ''--service-container=true''];
          execStart = handleLogDriver kube KubeGroup execStart in
      bindE (handleUserRemap env kube KubeGroup isUser False execStart) (\<lambda>execStart.
      let (service, execStart) = addNetworks kube KubeGroup (service, execStart) in
      bindE (must (LookupAllStrv kube KubeGroup ''ConfigMap'')) (\<lambda>configMaps.
      bindE (fileArgs env kube ''--configmap'' configMaps execStart) (\<lambda>execStart.
      bindE (handlePublishPorts kube KubeGroup execStart) (\<lambda>execStart.
      let service = AddCmdline ServiceGroup ''ExecStart'' (execStart @ [yamlPath]) service
      in Inr (AddCmdline ServiceGroup ''ExecStop'' (NewPodmanCmdline env [''kube'', ''down''] @ [yamlPath]) service))))))))))"

section \<open>The generator\<close>

text \<open>The suffix of its name decides how a unit is converted; other files are skipped.\<close>

definition convertUnit :: "Env \<Rightarrow> bool \<Rightarrow> string \<Rightarrow> UnitFile \<Rightarrow> (quadlet_error + UnitFile) option" where
  "convertUnit env isUser name unit =
     (if HasSuffix name ''.container'' then Some (ConvertContainer env unit isUser)
      else if HasSuffix name ''.volume'' then Some (ConvertVolume env unit name)
      else if HasSuffix name ''.kube'' then Some (ConvertKube env unit isUser)
      else if HasSuffix name ''.network'' then Some (ConvertNetwork env unit name)
      else None)"

end
