(* ===== verification/UnitSplitLaws.thy ===== *)
theory UnitSplitLaws
  imports UnitSplit
begin

text \<open>
  Laws of splitting: the loop over the words ends unless separators are both significant and
  kept, and words that were escaped and joined are split into the same words.
\<close>

section \<open>Splitting ends\<close>

lemma finish_shorter: "finish s rest = Inr (w, r, True) \<Longrightarrow> r = rest"
  by (auto simp: finish_def finishForceNext_def split: if_splits)

lemma terminate_shorter: "finishForceTerminate s = Inr (w, r, True) \<Longrightarrow> r = []"
  by (auto simp: finishForceTerminate_def dest: finish_shorter)

lemma length_dropWhile_Cons:
  "dropWhile P xs = y # ys \<Longrightarrow> length ys < length xs"
  using length_dropWhile_le[of P xs] by simp

lemma endWord_rest:
  assumes "endWord seps flags s rest = Inr (w, r, True)" "rest \<noteq> []"
  shows "length r \<le> length rest"
    and "hasFlag flags SplitDontCoalesceSeparators \<Longrightarrow> \<not> hasFlag flags SplitRetainSeparators \<Longrightarrow> length r < length rest"
proof -
  show "length r \<le> length rest"
    using assms length_dropWhile_Cons[of _ rest]
    by (auto simp: endWord_def finishForceNext_def Suc_le_eq dest!: finish_shorter terminate_shorter split: if_splits list.splits)
  show "length r < length rest"
    if "hasFlag flags SplitDontCoalesceSeparators" "\<not> hasFlag flags SplitRetainSeparators"
    using assms that by (auto simp: endWord_def finishForceNext_def)
qed

text \<open>A scan terminates the line, ends the word at a separator, or goes on behind the first character.\<close>

lemma scanWord_step:
  assumes "scanWord seps flags s quote bs rest = Inr (w, r, True)"
  shows "r = [] \<or> rest \<noteq> [] \<and> quote = CHR 0x00 \<and> \<not> bs \<and> hd rest \<noteq> CHR 0x00 \<and> isSep seps (hd rest) \<and>
      endWord seps flags s rest = Inr (w, r, True) \<or>
    rest \<noteq> [] \<and> (\<exists>s' q' b' k. scanWord seps flags s' q' b' (drop k (tl rest)) = Inr (w, r, True))"
proof (cases rest)
  case Nil
  then show ?thesis
    using assms by (subst (asm) scanWord.simps) (auto simp: Let_def dest!: terminate_shorter split: if_splits)
next
  case (Cons c cs)
  have on: "\<exists>s' q' b' k. scanWord seps flags s' q' b' (drop k cs) = Inr (w, r, True)"
    if "scanWord seps flags s' q' b' (drop k cs) = Inr (w, r, True)" for s' q' b' k
    using that by blast
  note on0 = on[of _ _ _ 0, simplified]
  show ?thesis
    using assms unfolding Cons
    by (subst (asm) scanWord.simps)
      (auto simp: Let_def intro: on on0 dest: terminate_shorter split: if_splits prod.splits)
qed

lemma scanWord_rest:
  "scanWord seps flags s quote bs rest = Inr (w, r, True) \<Longrightarrow> length r \<le> length rest"
proof (induction "length rest" arbitrary: s quote bs rest rule: less_induct)
  case less
  from scanWord_step[OF less.prems] show ?case
  proof (elim disjE conjE exE)
    fix s' q' b' k
    assume ne: "rest \<noteq> []" and s': "scanWord seps flags s' q' b' (drop k (tl rest)) = Inr (w, r, True)"
    from ne have "length (drop k (tl rest)) < length rest" by (cases rest) auto
    with less.hyps[OF this s'] show ?thesis by simp
  qed (auto dest: endWord_rest(1))
qed

lemma scanWord_consumes:
  assumes "scanWord seps flags s (CHR 0x00) False (c # cs) = Inr (w, r, True)" "\<not> isSep seps c"
  shows "length r \<le> length cs"
  using scanWord_step[OF assms(1)] assms(2) scanWord_rest[of seps flags]
  by (fastforce dest: le_trans[OF _ diff_le_self])

lemma extractFirstWord_shorter:
  assumes "extractFirstWord input seps flags = Inr (w, r, True)"
    and "\<not> (hasFlag flags SplitDontCoalesceSeparators \<and> hasFlag flags SplitRetainSeparators)"
  shows "length r < length input"
proof (cases "input")
  case Nil
  then show ?thesis using assms(1) by (simp add: extractFirstWord_def finish_def)
next
  case (Cons c cs)
  show ?thesis
  proof (cases "hasFlag flags SplitDontCoalesceSeparators")
    case True
    then show ?thesis
      using assms scanWord_consumes[of seps flags "[]" c cs w r] unfolding Cons
      by (auto simp: extractFirstWord_def finishForceNext_def Let_def dest!: terminate_shorter split: if_splits)
  next
    case False
    then obtain d ds where d: "dropWhile (\<lambda>c. c \<noteq> CHR 0x00 \<and> isSep seps c) input = d # ds" "d \<noteq> CHR 0x00"
      "scanWord seps flags [] (CHR 0x00) False (d # ds) = Inr (w, r, True)"
      using assms(1) unfolding Cons
      by (auto simp: extractFirstWord_def finish_def finishForceTerminate_def Let_def split: if_splits list.splits)
    have "\<not> isSep seps d" using hd_dropWhile[of "\<lambda>c. c \<noteq> CHR 0x00 \<and> isSep seps c" input] d by simp
    from scanWord_consumes[OF d(3) this] length_dropWhile_Cons[OF d(1)] show ?thesis by simp
  qed
qed

theorem splitString_ends:
  assumes "\<not> (hasFlag flags SplitDontCoalesceSeparators \<and> hasFlag flags SplitRetainSeparators)"
  shows "\<exists>r. splitStringAppend acc input seps flags = Some r"
proof (induction "length input" arbitrary: input acc rule: less_induct)
  case less
  show ?case
  proof (cases "extractFirstWord input seps flags")
    case (Inr x)
    obtain w r m where x: "x = (w, r, m)" by (cases x)
    show ?thesis
    proof (cases m)
      case True
      have "length r < length input" using extractFirstWord_shorter[OF _ assms] Inr x True by simp
      from less.hyps[OF this, of "acc @ [w]"] show ?thesis
        using Inr x True by (subst splitStringAppend.simps) simp
    qed (use Inr x in \<open>subst splitStringAppend.simps, simp\<close>)
  qed (subst splitStringAppend.simps, simp)
qed

section \<open>Escaped words are split into the same words\<close>

text \<open>The flags with which command lines are read.\<close>

abbreviation execFlags :: SplitFlags where
  "execFlags \<equiv> SplitRelax OR SplitUnquote OR SplitCUnescape"

lemma execFlags_simps [simp]:
  "hasFlag execFlags SplitRelax" "hasFlag execFlags SplitUnquote" "hasFlag execFlags SplitCUnescape"
  "hasFlag execFlags (SplitCUnescape OR SplitUnescapeSeparators)" "hasFlag execFlags (SplitKeepQuote OR SplitUnquote)"
  "\<not> hasFlag execFlags SplitDontCoalesceSeparators" "\<not> hasFlag execFlags SplitRetainSeparators"
  "\<not> hasFlag execFlags SplitRetainEscape" "\<not> hasFlag execFlags SplitUnescapeSeparators"
  "\<not> hasFlag execFlags SplitUnescapeRelax"
  by (simp_all add: split_flags)

lemma runes_ASCII: "byte c < 128 \<Longrightarrow> runes (c # s) = byte c # runes s"
  by (subst runes.simps) (simp add: decodeRune.simps(2))

abbreviation wsSep :: "char \<Rightarrow> bool" where
  "wsSep \<equiv> isSep WhitespaceSeparators"

lemma wsSep_iff: "wsSep c \<longleftrightarrow> byte c \<in> {9, 10, 13, 32}"
  by (auto simp: isSep_def WhitespaceSeparators_def runes_ASCII)

definition plainByte :: "char \<Rightarrow> bool" where
  "plainByte c \<longleftrightarrow> byte c \<notin> {0, 9, 10, 13, 32, 34, 39, 92}"

lemma byte_eq_iff: "c = d \<longleftrightarrow> byte c = byte d"
  by (metis char_of_char)

abbreviation scan :: "string \<Rightarrow> char \<Rightarrow> bool \<Rightarrow> string \<Rightarrow> first_word" where
  "scan \<equiv> scanWord WhitespaceSeparators execFlags"

lemma scan_plain: "plainByte c \<Longrightarrow> scan s (CHR 0x00) False (c # rest) = scan (s @ [c]) (CHR 0x00) False rest"
  by (subst scanWord.simps) (simp add: plainByte_def wsSep_iff byte_eq_iff[of c])

lemma scan_quoted:
  "byte c \<notin> {0, 34, 92} \<Longrightarrow> scan s (CHR 0x22) False (c # rest) = scan (s @ [c]) (CHR 0x22) False rest"
  by (subst scanWord.simps) (simp add: byte_eq_iff[of c])

lemma scan_plain_word:
  "\<forall>c \<in> set w. plainByte c \<Longrightarrow> scan s (CHR 0x00) False (w @ rest) = scan (s @ w) (CHR 0x00) False rest"
  by (induction w arbitrary: s) (simp_all add: scan_plain)

lemma scan_quoted_word:
  "\<forall>c \<in> set w. byte c \<notin> {0, 34, 92} \<Longrightarrow> scan s (CHR 0x22) False (w @ rest) = scan (s @ w) (CHR 0x22) False rest"
  by (induction w arbitrary: s) (simp_all add: scan_quoted)

lemma scan_unescape:
  assumes "cUnescapeOne (e # es @ rest) False = (int (Suc (length es)), u, b)" "e \<noteq> CHR 0x00"
  shows "scan s (CHR 0x22) False (CHR 0x5C # e # es @ rest) = scan (s @ encodeRune u) (CHR 0x22) False rest"
proof -
  have "scan s (CHR 0x22) False (CHR 0x5C # e # es @ rest) = scan s (CHR 0x22) True (e # es @ rest)"
    by (subst scanWord.simps) simp
  also have "\<dots> = scan (s @ encodeRune u) (CHR 0x22) False rest"
    using assms by (subst scanWord.simps) simp
  finally show ?thesis .
qed

lemma unhexchar_hexdigit: "d < 16 \<Longrightarrow> unhexchar (hexdigit d) = int d"
  by (auto simp: unhexchar_def hexdigit_def less_eq_char_def)

lemma unescape_hex:
  assumes "c < 256" "c \<noteq> 0"
  shows "cUnescapeOne (CHR ''x'' # hexdigit (c div 16) # hexdigit (c mod 16) # rest) False = (3, c, True)"
proof -
  have "c div 16 < 16" "c mod 16 < 16" using assms(1) by (simp_all add: less_mult_imp_div_less)
  moreover have "\<not> (c div 16 = 0 \<and> c mod 16 = 0)" using assms(2) by presburger
  moreover have "hexval [int (c div 16), int (c mod 16)] = c" by (simp add: hexval_def nat_add_distrib nat_mult_distrib)
  ultimately show ?thesis by (auto simp: cUnescapeOne_def unhexchar_hexdigit Let_def)
qed

lemma charNeedEscape_iff: "charNeedEscape c \<longleftrightarrow> c \<le> 128 \<and> (c \<le> 32 \<or> c \<in> {34, 39, 92, 127, 128})"
  by (auto simp: charNeedEscape_def IsSpace_def IsControl_def)

lemma encodeRune_bytes:
  assumes "c \<in> set (encodeRune r)" "validRune r"
  shows "byte c = r \<or> 128 \<le> byte c"
  using assms encodeRune_high[of r c] by (cases "r < 128") (auto simp: encodeRune_ASCII)

lemma scan_escapeRune:
  assumes "validRune r" "r \<noteq> 0"
  shows "scan s (CHR 0x22) False (escapeRune r @ rest) = scan (s @ encodeRune r) (CHR 0x22) False rest"
proof (cases "charNeedEscape r")
  case False
  then have "\<forall>c \<in> set (encodeRune r). byte c \<notin> {0, 34, 92}"
    using encodeRune_bytes[OF _ assms(1)] assms(2) by (fastforce simp: charNeedEscape_iff)
  with False show ?thesis by (simp add: escapeRune_def scan_quoted_word)
next
  case True
  then have r: "r \<le> 128" by (auto simp: charNeedEscape_iff split: if_splits)
  have hex: "scan s (CHR 0x22) False (CHR 0x5C # CHR ''x'' # [hexdigit (r div 16), hexdigit (r mod 16)] @ rest) =
      scan (s @ encodeRune r) (CHR 0x22) False rest"
    by (rule scan_unescape) (use unescape_hex[of r rest] r assms(2) in simp_all)
  have one: "scan s (CHR 0x22) False (CHR 0x5C # e # rest) = scan (s @ encodeRune u) (CHR 0x22) False rest"
    if "cUnescapeOne (e # rest) False = (1, u, False)" "e \<noteq> CHR 0x00" for e u
    using scan_unescape[of e "[]" rest] that by simp
  have copy: "scan s (CHR 0x22) False (c # rest) = scan (s @ encodeRune (byte c)) (CHR 0x22) False rest"
    if "c = CHR '' '' \<or> c = CHR 0x27" for c
    using that scan_quoted[of c s rest] by (auto simp: encodeRune_def)
  show ?thesis
    using True hex copy[of "CHR '' ''"] copy[of "CHR 0x27"]
    by (auto simp: escapeRune_def one cUnescapeOne_def)
qed

lemma scan_escapeRunes:
  "\<forall>r \<in> set rs. validRune r \<and> r \<noteq> 0 \<Longrightarrow>
   scan s (CHR 0x22) False (concat (map escapeRune rs) @ rest) = scan (s @ utf8 rs) (CHR 0x22) False rest"
  by (induction rs arbitrary: s) (simp_all add: utf8_def scan_escapeRune)

text \<open>A word that an escaped line can carry: not empty, valid UTF-8, no zero byte.\<close>

definition argument :: "string \<Rightarrow> bool" where
  "argument w \<longleftrightarrow> (\<exists>rs. w = utf8 rs \<and> rs \<noteq> [] \<and> (\<forall>r \<in> set rs. validRune r \<and> r \<noteq> 0))"

definition escapeWord :: "string \<Rightarrow> string" where
  "escapeWord w = (if wordNeedEscape w then appendEscapeWord [] w else w)"

lemma argument_ne: "argument w \<Longrightarrow> w \<noteq> []"
  by (auto simp: argument_def utf8_def)

lemma argument_plain:
  assumes "argument w" "\<not> wordNeedEscape w"
  shows "\<forall>c \<in> set w. plainByte c"
proof
  fix c assume c: "c \<in> set w"
  from assms(1) obtain rs where rs: "w = utf8 rs" "\<forall>r \<in> set rs. validRune r \<and> r \<noteq> 0" by (auto simp: argument_def)
  with c obtain r where r: "r \<in> set rs" "c \<in> set (encodeRune r)" by (auto simp: utf8_def)
  have "runes w = rs" using rs runes_utf8 by simp
  with assms(2) r(1) have "\<not> charNeedEscape r" by (auto simp: wordNeedEscape_def)
  with encodeRune_bytes[OF r(2)] rs(2) r(1) show "plainByte c"
    by (fastforce simp: charNeedEscape_iff plainByte_def)
qed

lemma scan_escapeWord:
  assumes "argument w"
  shows "scan [] (CHR 0x00) False (escapeWord w @ rest) = scan w (CHR 0x00) False rest"
proof (cases "wordNeedEscape w")
  case False
  then show ?thesis using scan_plain_word[OF argument_plain[OF assms False], of "[]"] by (simp add: escapeWord_def)
next
  case True
  from assms obtain rs where rs: "w = utf8 rs" "\<forall>r \<in> set rs. validRune r \<and> r \<noteq> 0" by (auto simp: argument_def)
  then have runes: "runes (utf8 rs) = rs" using runes_utf8 by simp
  have q1: "scan [] (CHR 0x00) False (CHR 0x22 # body) = scan [] (CHR 0x22) False body" for body
    by (subst scanWord.simps) simp
  have q2: "scan w (CHR 0x22) False (CHR 0x22 # rest) = scan w (CHR 0x00) False rest"
    by (subst scanWord.simps) simp
  show ?thesis
    using True scan_escapeRunes[OF rs(2), of "[]" "CHR 0x22 # rest"] rs(1) q2
    by (simp add: escapeWord_def appendEscapeWord_def runes q1)
qed

lemma escapeWord_hd:
  assumes "argument w"
  obtains c cs where "escapeWord w = c # cs" "c \<noteq> CHR 0x00" "\<not> wsSep c"
proof (cases "wordNeedEscape w")
  case True
  then have "escapeWord w = CHR 0x22 # concat (map escapeRune (runes w)) @ [CHR 0x22]" "\<not> wsSep (CHR 0x22)"
    by (simp_all add: escapeWord_def appendEscapeWord_def wsSep_iff)
  then show ?thesis using that by simp
next
  case False
  obtain c cs where w: "w = c # cs" using argument_ne[OF assms] by (cases w) auto
  moreover have "plainByte c" using argument_plain[OF assms False] w by simp
  then have "c \<noteq> CHR 0x00" "\<not> wsSep c" by (auto simp: plainByte_def wsSep_iff byte_eq_iff[of c])
  ultimately show ?thesis using that False by (simp add: escapeWord_def)
qed

lemma extract_escaped:
  assumes "argument w"
  shows "extractFirstWord (escapeWord w @ rest) WhitespaceSeparators execFlags = scan w (CHR 0x00) False rest"
proof -
  obtain c cs where c: "escapeWord w = c # cs" "c \<noteq> CHR 0x00" "\<not> wsSep c" using escapeWord_hd[OF assms] .
  then have "extractFirstWord (escapeWord w @ rest) WhitespaceSeparators execFlags =
      scan [] (CHR 0x00) False (escapeWord w @ rest)"
    by (simp add: extractFirstWord_def Let_def)
  then show ?thesis using scan_escapeWord[OF assms] by simp
qed

lemma extract_last:
  assumes "argument w"
  shows "extractFirstWord (escapeWord w) WhitespaceSeparators execFlags = Inr (w, [], True)"
proof -
  have "scan w (CHR 0x00) False [] = Inr (w, [], True)"
    using argument_ne[OF assms]
    by (subst scanWord.simps) (simp add: finishForceTerminate_def finish_def finishForceNext_def)
  then show ?thesis using extract_escaped[OF assms, of "[]"] by simp
qed

lemma extract_more:
  assumes "argument w" "argument v"
  shows "extractFirstWord (escapeWord w @ CHR '' '' # escapeWord v @ rest) WhitespaceSeparators execFlags =
    Inr (w, escapeWord v @ rest, True)"
proof -
  obtain c cs where c: "escapeWord v = c # cs" "c \<noteq> CHR 0x00" "\<not> wsSep c" using escapeWord_hd[OF assms(2)] .
  have "scan w (CHR 0x00) False (CHR '' '' # escapeWord v @ rest) = Inr (w, escapeWord v @ rest, True)"
    using argument_ne[OF assms(1)] c
    by (subst scanWord.simps) (simp add: wsSep_iff endWord_def finish_def finishForceNext_def)
  then show ?thesis using extract_escaped[OF assms(1)] by simp
qed

lemma escapeFrom_eq:
  "escapeFrom escaped ws (Suc i) = escaped @ concat (map (\<lambda>v. CHR '' '' # escapeWord v) ws)"
  by (induction ws arbitrary: escaped i) (simp_all add: escapeWord_def appendEscapeWord_def)

lemma escapeWords_Cons:
  "escapeWords (w # ws) = escapeWord w @ concat (map (\<lambda>v. CHR '' '' # escapeWord v) ws)"
  by (simp add: escapeWords_def escapeFrom_eq escapeWord_def appendEscapeWord_def)

lemma split_escaped:
  "argument w \<Longrightarrow> \<forall>v \<in> set ws. argument v \<Longrightarrow>
   splitStringAppend acc (escapeWords (w # ws)) WhitespaceSeparators execFlags = Some (Inr (acc @ w # ws))"
proof (induction ws arbitrary: w acc)
  case Nil
  have "splitStringAppend (acc @ [w]) [] WhitespaceSeparators execFlags = Some (Inr (acc @ [w]))"
    by (subst splitStringAppend.simps) (simp add: extractFirstWord_def finish_def)
  with Nil show ?case by (subst splitStringAppend.simps) (simp add: escapeWords_Cons extract_last)
next
  case (Cons v ws)
  have e: "escapeWords (w # v # ws) = escapeWord w @ CHR '' '' # escapeWords (v # ws)" by (simp add: escapeWords_Cons)
  have "extractFirstWord (escapeWords (w # v # ws)) WhitespaceSeparators execFlags = Inr (w, escapeWords (v # ws), True)"
    unfolding e using Cons.prems by (simp add: escapeWords_Cons extract_more)
  with Cons show ?case by (subst splitStringAppend.simps) simp
qed

lemma splitString_escapeWords:
  assumes "\<forall>w \<in> set ws. argument w"
  shows "splitString (escapeWords ws) WhitespaceSeparators execFlags = Some (Inr ws)"
proof (cases ws)
  case Nil
  then show ?thesis
    by (subst splitString_def, subst splitStringAppend.simps) (simp add: escapeWords_def extractFirstWord_def finish_def)
next
  case (Cons w vs)
  with assms show ?thesis using split_escaped[of w vs "[]"] by (simp add: splitString_def)
qed

text \<open>An escaped line has no line break.\<close>

lemma escapeRune_no_newline:
  assumes "validRune r" "c \<in> set (escapeRune r)"
  shows "c \<noteq> CHR 0x0A"
proof (cases "charNeedEscape r")
  case False
  then have "byte c \<noteq> 10" using encodeRune_bytes[OF _ assms(1), of c] assms(2)
    by (auto simp: escapeRune_def charNeedEscape_iff split: if_splits)
  then show ?thesis by auto
next
  case True
  have "hexdigit d \<noteq> CHR 0x0A" if "d < 16" for d
    using unhexchar_hexdigit[OF that] by (auto simp: unhexchar_def less_eq_char_def)
  moreover have "r div 16 < 16" using True by (auto simp: charNeedEscape_iff split: if_splits)
  ultimately have "hexdigit (r div 16) \<noteq> CHR 0x0A" "hexdigit (r mod 16) \<noteq> CHR 0x0A" by simp_all
  then show ?thesis using assms(2) True by (auto simp: escapeRune_def split: if_splits)
qed

lemma escapeWords_no_newline:
  assumes "\<forall>w \<in> set ws. argument w"
  shows "CHR 0x0A \<notin> set (escapeWords ws)"
proof -
  have "CHR 0x0A \<notin> set (escapeWord w)" if "argument w" for w
  proof (cases "wordNeedEscape w")
    case True
    from that obtain rs where "w = utf8 rs" "\<forall>r \<in> set rs. validRune r \<and> r \<noteq> 0" by (auto simp: argument_def)
    then have "runes w = rs" "\<forall>r \<in> set rs. validRune r" using runes_utf8 by auto
    with True show ?thesis using escapeRune_no_newline by (auto simp: escapeWord_def appendEscapeWord_def)
  next
    case False
    with argument_plain[OF that] show ?thesis by (auto simp: escapeWord_def plainByte_def)
  qed
  moreover have "escapeWords [] = []" by (simp add: escapeWords_def)
  ultimately show ?thesis using assms by (cases ws) (auto simp: escapeWords_Cons)
qed

end
