(* ===== verification/UnitFileLaws.thy ===== *)
theory UnitFileLaws
  imports UnitFile UnitSplitLaws
begin

text \<open>
  Laws of unit files in memory. A file represents the list of its groups; the invariant says that the map from names leads
  to exactly the groups of the list, so that names are unique. The operations keep the invariant and act on the list of
  groups like simple functions on lists.
\<close>

section \<open>The list of groups\<close>

definition view :: "UnitFile \<Rightarrow> unitGroup list" where
  "view f = map (groupAt f) (uf_groups f)"

definition file_ok :: "UnitFile \<Rightarrow> bool" where
  "file_ok f \<longleftrightarrow>
     distinct (uf_groups f) \<and> (\<forall>p \<in> set (uf_groups f). p < length (uf_heap f)) \<and>
     (\<forall>n p. uf_groupByName f n = Some p \<longleftrightarrow> p \<in> set (uf_groups f) \<and> ug_name (groupAt f p) = n)"

definition named :: "string \<Rightarrow> unitGroup list \<Rightarrow> unitGroup option" where
  "named n gs = find (\<lambda>g. ug_name g = n) gs"

definition update_named :: "string \<Rightarrow> (unitGroup \<Rightarrow> unitGroup) \<Rightarrow> unitGroup list \<Rightarrow> unitGroup list" where
  "update_named n h gs =
     (if n \<in> ug_name ` set gs then map (\<lambda>g. if ug_name g = n then h g else g) gs
      else gs @ [h (newUnitGroup n)])"

lemma file_okD:
  assumes "file_ok f"
  shows "distinct (uf_groups f)" "\<And>p. p \<in> set (uf_groups f) \<Longrightarrow> p < length (uf_heap f)"
    "\<And>n p. uf_groupByName f n = Some p \<longleftrightarrow> p \<in> set (uf_groups f) \<and> ug_name (groupAt f p) = n"
  using assms by (simp_all add: file_ok_def)

lemma file_ok_New [simp]: "file_ok NewUnitFile" "view NewUnitFile = []"
  by (simp_all add: file_ok_def NewUnitFile_def view_def)

lemma file_ok_names:
  assumes "file_ok f"
  shows "distinct (map ug_name (view f))"
proof -
  have "inj_on (\<lambda>p. ug_name (groupAt f p)) (set (uf_groups f))"
  proof (rule inj_onI)
    fix p q assume a: "p \<in> set (uf_groups f)" "q \<in> set (uf_groups f)" "ug_name (groupAt f p) = ug_name (groupAt f q)"
    then have "uf_groupByName f (ug_name (groupAt f q)) = Some p" "uf_groupByName f (ug_name (groupAt f q)) = Some q"
      using file_okD(3)[OF assms] by simp_all
    then show "p = q" by simp
  qed
  then show ?thesis using file_okD(1)[OF assms] by (simp add: view_def distinct_map comp_def)
qed

lemma byName_None:
  assumes "file_ok f"
  shows "uf_groupByName f n = None \<longleftrightarrow> n \<notin> ug_name ` set (view f)"
proof -
  have "n \<in> ug_name ` set (view f) \<longleftrightarrow> (\<exists>p. uf_groupByName f n = Some p)"
    by (auto simp: view_def file_okD(3)[OF assms])
  then show ?thesis by auto
qed

lemma named_view:
  assumes "file_ok f"
  shows "named n (view f) = map_option (groupAt f) (uf_groupByName f n)"
proof (cases "uf_groupByName f n")
  case None
  then show ?thesis using byName_None[OF assms, of n] by (auto simp: named_def find_None_iff)
next
  case (Some p)
  then have p: "p \<in> set (uf_groups f)" "ug_name (groupAt f p) = n" using file_okD(3)[OF assms] by auto
  have "find (\<lambda>g. ug_name g = n) (view f) \<noteq> None" using p by (auto simp: find_None_iff view_def)
  then obtain g where g: "find (\<lambda>g. ug_name g = n) (view f) = Some g" by blast
  then have "g \<in> set (view f)" "ug_name g = n" by (auto simp: find_Some_iff)
  then obtain q where "q \<in> set (uf_groups f)" "g = groupAt f q" "ug_name (groupAt f q) = n" by (auto simp: view_def)
  then have "uf_groupByName f n = Some q" using file_okD(3)[OF assms] by blast
  with Some g \<open>g = groupAt f q\<close> show ?thesis by (simp add: named_def)
qed

lemma groupAt_updGroup:
  "p < length (uf_heap f) \<Longrightarrow> groupAt (updGroup p h f) q = (if q = p then h (groupAt f p) else groupAt f q)"
  by (simp add: updGroup_def groupAt_def)

lemma updGroup_simps [simp]:
  "uf_groups (updGroup p h f) = uf_groups f" "uf_groupByName (updGroup p h f) = uf_groupByName f"
  "length (uf_heap (updGroup p h f)) = length (uf_heap f)"
  by (simp_all add: updGroup_def)

lemma file_ok_updGroup:
  assumes "file_ok f" "p \<in> set (uf_groups f)" "\<And>g. ug_name (h g) = ug_name g"
  shows "file_ok (updGroup p h f)"
proof -
  have "p < length (uf_heap f)" using file_okD(2)[OF assms(1,2)] .
  then have "ug_name (groupAt (updGroup p h f) q) = ug_name (groupAt f q)" for q
    by (simp add: groupAt_updGroup assms(3))
  with assms(1) show ?thesis by (simp add: file_ok_def)
qed

lemma view_updGroup:
  assumes "file_ok f" "uf_groupByName f n = Some p"
  shows "view (updGroup p h f) = map (\<lambda>g. if ug_name g = n then h g else g) (view f)"
proof -
  have p: "p \<in> set (uf_groups f)" "ug_name (groupAt f p) = n" using file_okD(3)[OF assms(1)] assms(2) by blast+
  have "q = p \<longleftrightarrow> ug_name (groupAt f q) = n" if "q \<in> set (uf_groups f)" for q
  proof -
    have "uf_groupByName f n = Some q \<longleftrightarrow> q \<in> set (uf_groups f) \<and> ug_name (groupAt f q) = n"
      using file_okD(3)[OF assms(1)] .
    with that assms(2) show ?thesis by auto
  qed
  then show ?thesis using file_okD(2)[OF assms(1) p(1)] by (auto simp: view_def groupAt_updGroup)
qed

lemma ensureGroup_ok:
  assumes "file_ok f" "ensureGroup n f = (f', p)"
  shows "file_ok f'" "uf_groupByName f' n = Some p"
    "view f' = (if n \<in> ug_name ` set (view f) then view f else view f @ [newUnitGroup n])"
proof -
  show "uf_groupByName f' n = Some p"
    using assms(2) by (auto simp: ensureGroup_def Let_def split: option.splits)
  have "file_ok f' \<and> view f' = (if n \<in> ug_name ` set (view f) then view f else view f @ [newUnitGroup n])"
  proof (cases "uf_groupByName f n")
    case (Some q)
    then show ?thesis using assms byName_None[OF assms(1), of n] by (auto simp: ensureGroup_def)
  next
    case None
    let ?g = "length (uf_heap f)"
    have new: "?g \<notin> set (uf_groups f)" using file_okD(2)[OF assms(1), of ?g] by auto
    have f': "f' = f\<lparr>uf_heap := uf_heap f @ [newUnitGroup n], uf_groups := uf_groups f @ [?g],
        uf_groupByName := (uf_groupByName f)(n \<mapsto> ?g)\<rparr>"
      using None assms(2) by (auto simp: ensureGroup_def Let_def)
    have old: "groupAt f' q = groupAt f q" if "q \<in> set (uf_groups f)" for q
      using file_okD(2)[OF assms(1) that] by (simp add: f' groupAt_def nth_append)
    have "groupAt f' ?g = newUnitGroup n" by (simp add: f' groupAt_def)
    then have v: "view f' = view f @ [newUnitGroup n]" using old by (simp add: view_def f')
    have "n \<notin> ug_name ` set (view f)" using None byName_None[OF assms(1)] by simp
    moreover have "uf_groupByName f' m = Some q \<longleftrightarrow> q \<in> set (uf_groups f') \<and> ug_name (groupAt f' q) = m" for m q
    proof (cases "q = ?g")
      case True
      then show ?thesis using new file_okD(3)[OF assms(1), of m q] \<open>groupAt f' ?g = newUnitGroup n\<close>
        by (auto simp: f' newUnitGroup_def)
    next
      case False
      then show ?thesis
        using old[of q] file_okD(3)[OF assms(1), of m q] None file_okD(3)[OF assms(1), of n q] by (auto simp: f')
    qed
    then have "file_ok f'" using file_okD(1,2)[OF assms(1)] new by (auto simp: file_ok_def f' less_Suc_eq)
    ultimately show ?thesis using v by simp
  qed
  then show "file_ok f'" "view f' = (if n \<in> ug_name ` set (view f) then view f else view f @ [newUnitGroup n])"
    by simp_all
qed

text \<open>The operations on one group act on the group of that name, which they add when it is missing.\<close>

lemma onGroup_refines:
  assumes "file_ok f" "\<And>g. ug_name (h g) = ug_name g"
  shows "file_ok (onGroup n h f)" "view (onGroup n h f) = update_named n h (view f)"
proof -
  obtain f' p where e: "ensureGroup n f = (f', p)" by (cases "ensureGroup n f")
  note ok = ensureGroup_ok[OF assms(1) e]
  have p: "p \<in> set (uf_groups f')" using file_okD(3)[OF ok(1)] ok(2) by blast
  show "file_ok (onGroup n h f)" using file_ok_updGroup[OF ok(1) p assms(2)] by (simp add: onGroup_def e)
  have "view (onGroup n h f) = map (\<lambda>g. if ug_name g = n then h g else g) (view f')"
    using view_updGroup[OF ok(1,2)] by (simp add: onGroup_def e)
  then show "view (onGroup n h f) = update_named n h (view f)"
    unfolding ok(3) update_named_def by (auto simp: newUnitGroup_def intro!: map_idI)
qed

lemma updGroup_refines:
  assumes "file_ok f" "uf_groupByName f n = Some p" "\<And>g. ug_name (h g) = ug_name g"
  shows "file_ok (updGroup p h f)" "view (updGroup p h f) = update_named n h (view f)"
proof -
  have "p \<in> set (uf_groups f)" using file_okD(3)[OF assms(1)] assms(2) by blast
  then show "file_ok (updGroup p h f)" using file_ok_updGroup assms(1,3) by blast
  have "n \<in> ug_name ` set (view f)" using byName_None[OF assms(1), of n] assms(2) by simp
  then show "view (updGroup p h f) = update_named n h (view f)"
    using view_updGroup[OF assms(1,2)] by (simp add: update_named_def)
qed

text \<open>The names of the groups do not change when a group is changed.\<close>

lemma group_ops_name [simp]:
  "ug_name (addLine l g) = ug_name g" "ug_name (addComment l g) = ug_name g" "ug_name (prependComment l g) = ug_name g"
  "ug_name (addKey k v g) = ug_name g" "ug_name (setKey k v g) = ug_name g" "ug_name (unsetKey k g) = ug_name g"
  "ug_name (mergeGroup s g) = ug_name g" "ug_name (newUnitGroup n) = n"
  by (simp_all add: addLine_def addComment_def prependComment_def addKey_def setKey_def unsetKey_def
      mergeGroup_def newUnitGroup_def split: option.split)

lemma setPairs_name [simp]: "ug_name (setPairs kvs g) = ug_name g"
  by (induction kvs g rule: setPairs.induct) simp_all

lemmas edit_defs = Set_def Setv_def Add_def AddCmdline_def

lemma edit_refines:
  assumes "file_ok f"
  shows "file_ok (Set n k v f)" "view (Set n k v f) = update_named n (setKey k v) (view f)"
    and "file_ok (Setv n kvs f)" "view (Setv n kvs f) = update_named n (setPairs kvs) (view f)"
    and "file_ok (Add n k v f)" "view (Add n k v f) = update_named n (addKey k v) (view f)"
    and "file_ok (AddCmdline n k args f)"
      "view (AddCmdline n k args f) = update_named n (addKey k (escapeWords args)) (view f)"
  by (simp_all add: edit_defs onGroup_refines[OF assms])

lemma Unset_refines:
  assumes "file_ok f"
  shows "file_ok (Unset n k f)"
    and "view (Unset n k f) = (if n \<in> ug_name ` set (view f) then update_named n (unsetKey k) (view f) else view f)"
  using updGroup_refines[OF assms] byName_None[OF assms, of n] assms
  by (auto simp: Unset_def split: option.split)

lemma RemoveGroup_refines:
  assumes "file_ok f"
  shows "file_ok (RemoveGroup n f)" "view (RemoveGroup n f) = filter (\<lambda>g. ug_name g \<noteq> n) (view f)"
proof -
  have "file_ok (RemoveGroup n f) \<and> view (RemoveGroup n f) = filter (\<lambda>g. ug_name g \<noteq> n) (view f)"
  proof (cases "uf_groupByName f n")
    case None
    then have "n \<notin> ug_name ` set (view f)" using byName_None[OF assms] by simp
    then have "filter (\<lambda>g. ug_name g \<noteq> n) (view f) = view f" by (auto intro: filter_True)
    with None assms show ?thesis by (simp add: RemoveGroup_def)
  next
    case (Some p)
    have iff: "q \<noteq> p \<longleftrightarrow> ug_name (groupAt f q) \<noteq> n" if "q \<in> set (uf_groups f)" for q
      using file_okD(3)[OF assms, of n q] Some that by auto
    let ?f = "RemoveGroup n f"
    have f: "uf_groups ?f = filter (\<lambda>q. q \<noteq> p) (uf_groups f)" "uf_heap ?f = uf_heap f"
      "uf_groupByName ?f = (uf_groupByName f)(n := None)" "groupAt ?f = groupAt f"
      using Some by (simp_all add: RemoveGroup_def groupAt_def fun_eq_iff)
    have "uf_groupByName ?f m = Some q \<longleftrightarrow> q \<in> set (uf_groups ?f) \<and> ug_name (groupAt ?f q) = m" for m q
      using file_okD(3)[OF assms, of m q] iff[of q] by (auto simp: f)
    then have "file_ok ?f" using file_okD(1,2)[OF assms] by (simp add: file_ok_def f)
    moreover have "view ?f = filter (\<lambda>g. ug_name g \<noteq> n) (view f)"
      using filter_cong[OF refl iff, of "uf_groups f"] by (simp add: view_def f filter_map comp_def)
    ultimately show ?thesis by simp
  qed
  then show "file_ok (RemoveGroup n f)" "view (RemoveGroup n f) = filter (\<lambda>g. ug_name g \<noteq> n) (view f)" by simp_all
qed

text \<open>Renaming a group moves its lines to the end of the group of the new name when there is one.\<close>

definition rename_named :: "string \<Rightarrow> string \<Rightarrow> unitGroup list \<Rightarrow> unitGroup list" where
  "rename_named n m gs =
     (case named n gs of
        None \<Rightarrow> gs
      | Some g \<Rightarrow>
          if n = m then gs
          else if m \<in> ug_name ` set gs
          then filter (\<lambda>x. ug_name x \<noteq> n) (update_named m (mergeGroup g) gs)
          else map (\<lambda>x. if ug_name x = n then x\<lparr>ug_name := m\<rparr> else x) gs)"

lemma RenameGroup_refines:
  assumes "file_ok f"
  shows "file_ok (RenameGroup n m f)" "view (RenameGroup n m f) = rename_named n m (view f)"
proof -
  have "file_ok (RenameGroup n m f) \<and> view (RenameGroup n m f) = rename_named n m (view f)"
  proof (cases "uf_groupByName f n")
    case None
    then show ?thesis using assms by (simp add: RenameGroup_def rename_named_def named_view[OF assms])
  next
    case p: (Some p)
    then have nm: "named n (view f) = Some (groupAt f p)" by (simp add: named_view[OF assms])
    have pn: "p \<in> set (uf_groups f)" "ug_name (groupAt f p) = n" using file_okD(3)[OF assms] p by blast+
    show ?thesis
    proof (cases "uf_groupByName f m")
      case (Some q)
      then have q: "ug_name (groupAt f q) = m" "q \<in> set (uf_groups f)" using file_okD(3)[OF assms] by blast+
      have m: "m \<in> ug_name ` set (view f)" using byName_None[OF assms, of m] Some by simp
      show ?thesis
      proof (cases "n = m")
        case True
        then show ?thesis using p Some assms nm by (simp add: RenameGroup_def rename_named_def)
      next
        case False
        then have "p \<noteq> q" using q pn by auto
        then have R: "RenameGroup n m f = RemoveGroup n (updGroup q (mergeGroup (groupAt f p)) f)"
          using p Some by (simp add: RenameGroup_def)
        note u = updGroup_refines[OF assms Some, of "mergeGroup (groupAt f p)", simplified]
        show ?thesis
          using RemoveGroup_refines[OF u(1)] u(2) False m nm unfolding R by (simp add: rename_named_def)
      qed
    next
      case None
      let ?h = "\<lambda>x :: unitGroup. x\<lparr>ug_name := m\<rparr>" and ?f = "RenameGroup n m f"
      have nm': "m \<noteq> n" "m \<notin> ug_name ` set (view f)" using None p byName_None[OF assms, of m] by auto
      have len: "p < length (uf_heap f)" using file_okD(2)[OF assms pn(1)] .
      have f: "uf_groups ?f = uf_groups f" "length (uf_heap ?f) = length (uf_heap f)"
        "uf_groupByName ?f = (uf_groupByName f)(n := None, m \<mapsto> p)"
        "groupAt ?f q = (if q = p then ?h (groupAt f p) else groupAt f q)" for q
        using p None len by (simp_all add: RenameGroup_def updGroup_def groupAt_def)
      have iff: "q = p \<longleftrightarrow> ug_name (groupAt f q) = n" if "q \<in> set (uf_groups f)" for q
        using file_okD(3)[OF assms, of n q] p that by auto
      have "view ?f = map (\<lambda>x. if ug_name x = n then ?h x else x) (view f)"
        using iff by (auto simp: view_def f)
      moreover have "uf_groupByName ?f k = Some q \<longleftrightarrow> q \<in> set (uf_groups ?f) \<and> ug_name (groupAt ?f q) = k" for k q
        using file_okD(3)[OF assms, of k q] iff[of q] pn nm' None p by (auto simp: f view_def split: if_splits)
      then have "file_ok ?f" using file_okD(1,2)[OF assms] by (simp add: file_ok_def f)
      ultimately show ?thesis using nm nm' by (simp add: rename_named_def)
    qed
  qed
  then show "file_ok (RenameGroup n m f)" "view (RenameGroup n m f) = rename_named n m (view f)" by simp_all
qed

lemma mergeFile_refines:
  assumes "file_ok f"
  shows "file_ok (mergeFile src f)"
    "view (mergeFile src f) = fold (\<lambda>g. update_named (ug_name g) (mergeGroup g)) (view src) (view f)"
proof -
  have "file_ok (fold (\<lambda>p f. let g = groupAt src p in onGroup (ug_name g) (mergeGroup g) f) ps f) \<and>
      view (fold (\<lambda>p f. let g = groupAt src p in onGroup (ug_name g) (mergeGroup g) f) ps f) =
        fold (\<lambda>g. update_named (ug_name g) (mergeGroup g)) (map (groupAt src) ps) (view f)" for ps
    using assms
  proof (induction ps arbitrary: f)
    case (Cons p ps)
    let ?f = "onGroup (ug_name (groupAt src p)) (mergeGroup (groupAt src p)) f"
    have "file_ok ?f" "view ?f = update_named (ug_name (groupAt src p)) (mergeGroup (groupAt src p)) (view f)"
      using onGroup_refines[OF Cons.prems] by simp_all
    with Cons.IH[of ?f] show ?case by (simp add: Let_def)
  qed simp
  then show "file_ok (mergeFile src f)"
    "view (mergeFile src f) = fold (\<lambda>g. update_named (ug_name g) (mergeGroup g)) (view src) (view f)"
    by (simp_all add: mergeFile_def view_def)
qed

lemma map_dupLine [simp]: "map dupLine ls = ls"
  by (simp add: dupLine_def newUnitLine_def map_idI)

lemma mergeGroup_new: "mergeGroup g (newUnitGroup (ug_name g)) = g"
  by (simp add: mergeGroup_def newUnitGroup_def)

lemma merge_distinct:
  "distinct (map ug_name (acc @ gs)) \<Longrightarrow> fold (\<lambda>g. update_named (ug_name g) (mergeGroup g)) gs acc = acc @ gs"
proof (induction gs arbitrary: acc)
  case (Cons g gs)
  have "ug_name g \<notin> ug_name ` set acc" using Cons.prems by auto
  then have "update_named (ug_name g) (mergeGroup g) acc = acc @ [g]" by (simp add: update_named_def mergeGroup_new)
  with Cons.IH[of "acc @ [g]"] Cons.prems show ?case by simp
qed simp

lemma view_simps [simp]:
  "view (f\<lparr>uf_Filename := x\<rparr>) = view f" "file_ok (f\<lparr>uf_Filename := x\<rparr>) = file_ok f"
  "view (f\<lparr>uf_Path := x\<rparr>) = view f" "file_ok (f\<lparr>uf_Path := x\<rparr>) = file_ok f"
  by (simp_all add: view_def file_ok_def groupAt_def[abs_def])

text \<open>A copy has the same groups.\<close>

lemma Dup_refines:
  assumes "file_ok f"
  shows "file_ok (Dup f)" "view (Dup f) = view f"
  using mergeFile_refines[of NewUnitFile f] merge_distinct[of "[]" "view f"] file_ok_names[OF assms]
  by (simp_all add: Dup_def)

section \<open>Keys and values\<close>

definition lastValue :: "string \<Rightarrow> unitLine list \<Rightarrow> string option" where
  "lastValue k ls = (if filter (isKey k) ls = [] then None else Some (ul_value (last (filter (isKey k) ls))))"

lemma lastValue_simps [simp]:
  "lastValue k [] = None"
  "lastValue k (ls @ [l]) = (if isKey k l then Some (ul_value l) else lastValue k ls)"
  by (simp_all add: lastValue_def)

lemma lastValue_append: "lastValue k (xs @ ys) = (case lastValue k ys of None \<Rightarrow> lastValue k xs | v \<Rightarrow> v)"
  by (induction ys rule: rev_induct) (simp_all add: append_assoc[symmetric] del: append_assoc)

lemma lastValue_mid:
  "lastValue k (xs @ l # ys) =
     (case lastValue k ys of None \<Rightarrow> if isKey k l then Some (ul_value l) else lastValue k xs | x \<Rightarrow> x)"
  using lastValue_append[of k "xs @ [l]" ys] by (cases "lastValue k ys") simp_all

lemma findFrom_value:
  "n \<le> length ls \<Longrightarrow> map_option (\<lambda>i. ul_value (ls ! i)) (findFrom k ls n) = lastValue k (take n ls)"
  by (induction n) (simp_all add: take_Suc_conv_app_nth)

lemma findFrom_Some:
  "findFrom k ls n = Some i \<Longrightarrow> i < n \<and> isKey k (ls ! i) \<and> (\<forall>j. i < j \<and> j < n \<longrightarrow> \<not> isKey k (ls ! j))"
  by (induction n) (auto simp: less_Suc_eq split: if_splits)

lemma findFrom_None: "findFrom k ls n = None \<Longrightarrow> n \<le> length ls \<Longrightarrow> lastValue k (take n ls) = None"
  using findFrom_value[of n ls k] by simp

lemma findLast_value:
  "map_option (\<lambda>i. ul_value (ug_lines g ! i)) (findLast k g) = lastValue k (ug_lines g)"
  using findFrom_value[of "length (ug_lines g)" "ug_lines g" k] by (simp add: findLast_def)

lemma LookupLastRaw_view:
  assumes "file_ok f"
  shows "LookupLastRaw f n k = Option.bind (named n (view f)) (\<lambda>g. lastValue k (ug_lines g))"
  unfolding named_view[OF assms]
  by (auto simp: LookupLastRaw_def findLast_value[symmetric] split: option.split)

lemma lastValue_addKey: "lastValue k (ug_lines (addKey k' v g)) = (if k = k' then Some v else lastValue k (ug_lines g))"
  by (auto simp: addKey_def addLine_def newUnitLine_def isKey_def)

lemma lastValue_setKey: "lastValue k (ug_lines (setKey k' v g)) = (if k = k' then Some v else lastValue k (ug_lines g))"
proof (cases "findLast k' g")
  case None
  then show ?thesis by (simp add: setKey_def lastValue_addKey)
next
  case (Some i)
  let ?ls = "ug_lines g"
  have i: "i < length ?ls" "isKey k' (?ls ! i)" "\<And>j. i < j \<Longrightarrow> j < length ?ls \<Longrightarrow> \<not> isKey k' (?ls ! j)"
    using findFrom_Some[of k' ?ls "length ?ls" i] Some by (auto simp: findLast_def)
  have after: "lastValue k' (drop (Suc i) ?ls) = None"
    using i(3) by (auto simp: lastValue_def filter_empty_conv in_set_conv_nth)
  have key: "isKey j (setLine v (?ls ! i)) = isKey j (?ls ! i)" for j by (simp add: isKey_def setLine_def)
  have ls: "?ls = take i ?ls @ ?ls ! i # drop (Suc i) ?ls" using id_take_nth_drop[OF i(1)] .
  have "ug_lines (setKey k' v g) = take i ?ls @ setLine v (?ls ! i) # drop (Suc i) ?ls"
    using Some i(1) by (simp add: setKey_def upd_conv_take_nth_drop)
  then have "lastValue k (ug_lines (setKey k' v g)) =
      (case lastValue k (drop (Suc i) ?ls) of
         None \<Rightarrow> if isKey k (?ls ! i) then Some v else lastValue k (take i ?ls) | x \<Rightarrow> x)"
    by (cases "lastValue k (drop (Suc i) ?ls)") (simp_all add: lastValue_mid key, simp add: setLine_def)
  moreover have "lastValue k ?ls = (case lastValue k (drop (Suc i) ?ls) of
         None \<Rightarrow> if isKey k (?ls ! i) then Some (ul_value (?ls ! i)) else lastValue k (take i ?ls) | x \<Rightarrow> x)"
    using lastValue_mid[of k "take i ?ls" "?ls ! i" "drop (Suc i) ?ls"] ls by simp
  moreover have "isKey k (?ls ! i) \<longleftrightarrow> k = k'" using i(2) by (auto simp: isKey_def)
  ultimately show ?thesis using after by (auto split: option.split)
qed

lemma named_update:
  assumes "\<And>g. ug_name (h g) = ug_name g"
  shows "named m (update_named n h gs) =
    (if m = n then Some (h (case named n gs of Some g \<Rightarrow> g | None \<Rightarrow> newUnitGroup n)) else named m gs)"
proof (cases "n \<in> ug_name ` set gs")
  case True
  have "named m (map (\<lambda>g. if ug_name g = n then h g else g) gs) =
      (if m = n then map_option h (named n gs) else named m gs)"
    by (induction gs) (auto simp: named_def assms)
  moreover have "named n gs \<noteq> None" using True by (auto simp: named_def find_None_iff)
  ultimately show ?thesis using True by (auto simp: update_named_def)
next
  case False
  then have "named n gs = None" by (auto simp: named_def find_None_iff)
  moreover have "named m (gs @ [h (newUnitGroup n)]) = (case named m gs of None \<Rightarrow> if m = n then Some (h (newUnitGroup n)) else None | x \<Rightarrow> x)"
    by (induction gs) (auto simp: named_def assms)
  ultimately show ?thesis using False by (auto simp: update_named_def split: option.split)
qed

section \<open>Files as stores of keys\<close>

text \<open>What a client of a unit file relies on: the value that was written last for a key of a group is the one that is read.\<close>

locale key_store =
  fixes ok :: "'f \<Rightarrow> bool"
    and lookup :: "'f \<Rightarrow> string \<Rightarrow> string \<Rightarrow> string option"
    and put :: "string \<Rightarrow> string \<Rightarrow> string \<Rightarrow> 'f \<Rightarrow> 'f"
  assumes ok_put: "ok f \<Longrightarrow> ok (put n k v f)"
    and lookup_put: "ok f \<Longrightarrow> lookup (put n k v f) m j = (if m = n \<and> j = k then Some v else lookup f m j)"
begin

lemma ok_puts: "ok f \<Longrightarrow> ok (fold (\<lambda>(n, k, v). put n k v) ps f)"
  by (induction ps arbitrary: f) (auto simp: ok_put)

lemma lookup_puts_other:
  "ok f \<Longrightarrow> (n, k) \<notin> (\<lambda>(n, k, v). (n, k)) ` set ps \<Longrightarrow> lookup (fold (\<lambda>(n, k, v). put n k v) ps f) n k = lookup f n k"
  by (induction ps arbitrary: f) (auto simp: ok_put lookup_put)

lemma lookup_puts_last:
  assumes "ok f" "(n, k) \<notin> (\<lambda>(n, k, v). (n, k)) ` set qs"
  shows "lookup (fold (\<lambda>(n, k, v). put n k v) (ps @ (n, k, v) # qs) f) n k = Some v"
  using lookup_puts_other[OF ok_put[OF ok_puts[OF assms(1)]] assms(2)] ok_puts[OF assms(1), of ps]
  by (simp add: lookup_put)

end

interpretation set_store: key_store file_ok LookupLastRaw Set
proof
  fix f n k v m j assume ok: "file_ok f"
  show s: "file_ok (Set n k v f)" using edit_refines[OF ok] by blast
  show "LookupLastRaw (Set n k v f) m j = (if m = n \<and> j = k then Some v else LookupLastRaw f m j)"
    by (auto simp: LookupLastRaw_view[OF ok] LookupLastRaw_view[OF s] edit_refines[OF ok] named_update
        lastValue_setKey newUnitGroup_def split: option.split)
qed

interpretation add_store: key_store file_ok LookupLastRaw Add
proof
  fix f n k v m j assume ok: "file_ok f"
  show s: "file_ok (Add n k v f)" using edit_refines[OF ok] by blast
  show "LookupLastRaw (Add n k v f) m j = (if m = n \<and> j = k then Some v else LookupLastRaw f m j)"
    by (auto simp: LookupLastRaw_view[OF ok] LookupLastRaw_view[OF s] edit_refines[OF ok] named_update
        lastValue_addKey newUnitGroup_def split: option.split)
qed

end
