(* ===== verification/UnitFileParse.thy ===== *)
theory UnitFileParse
  imports UnitFileLaws
begin

text \<open>
  Reading back a printed unit file. Lines that the printer writes are taken apart again one by one: a line with
  line breaks inside is one line for the parser when a backslash is in front of each break. The state of the
  parser between two lines is described by the groups read so far, the current group, which is the last one, and the
  comments that wait for the next line.
\<close>

section \<open>Lines\<close>

inductive joined :: "string \<Rightarrow> bool" where
  joined_last: "nl \<notin> set c \<Longrightarrow> c = [] \<or> last c \<noteq> CHR 0x5C \<Longrightarrow> joined c"
| joined_more: "nl \<notin> set c \<Longrightarrow> c \<noteq> [] \<Longrightarrow> last c = CHR 0x5C \<Longrightarrow> joined b \<Longrightarrow> joined (c @ nl # b)"

lemma takeWhile_ne: "d \<notin> set c \<Longrightarrow> takeWhile (\<lambda>x. x \<noteq> d) (c @ b) = c @ takeWhile (\<lambda>x. x \<noteq> d) b"
  by (induction c) auto

lemma dropWhile_ne: "d \<notin> set c \<Longrightarrow> dropWhile (\<lambda>x. x \<noteq> d) (c @ b) = dropWhile (\<lambda>x. x \<noteq> d) b"
  by (induction c) auto

lemma nextLine_after:
  "nl \<notin> set c \<Longrightarrow> nextLine (a @ nl # c @ nl # b) (length a + 1) = (a @ nl # c, b)"
  by (simp add: nextLine_def Let_def takeWhile_ne)

lemma nextLine_0: "nl \<notin> set c \<Longrightarrow> nextLine (c @ nl # b) 0 = (c, b)"
  by (simp add: nextLine_def Let_def takeWhile_ne)

lemma continueLine_joined:
  "joined b \<Longrightarrow> last a = CHR 0x5C \<Longrightarrow>
   \<exists>m. continueLine (a @ nl # b @ nl # rest) a (b @ nl # rest) n = (a @ nl # b, rest, m)"
proof (induction b arbitrary: a n rule: joined.induct)
  case (joined_last c)
  have "last (a @ nl # c) \<noteq> CHR 0x5C" using joined_last(2) by (auto simp: nl_def)
  then have "continueLine (a @ nl # c @ nl # rest) (a @ nl # c) rest (n + 1) = (a @ nl # c, rest, n + 1)"
    by (subst continueLine.simps) simp
  then have "continueLine (a @ nl # c @ nl # rest) a (c @ nl # rest) n = (a @ nl # c, rest, n + 1)"
    using joined_last(3) nextLine_after[OF joined_last(1), of a rest] by (subst continueLine.simps) simp
  then show ?case by blast
next
  case (joined_more c b)
  have "last (a @ nl # c) = CHR 0x5C" using joined_more(2,3) by simp
  from joined_more.IH[OF this, of "n + 1"] obtain m where
    "continueLine (a @ nl # c @ nl # b @ nl # rest) (a @ nl # c) (b @ nl # rest) (n + 1) = (a @ nl # c @ nl # b, rest, m)"
    by auto
  then have "continueLine (a @ nl # c @ nl # b @ nl # rest) a (c @ nl # b @ nl # rest) n = (a @ nl # c @ nl # b, rest, m)"
    using joined_more(6) nextLine_after[OF joined_more(1), of a "b @ nl # rest"] by (subst continueLine.simps) simp
  then show ?case by auto
qed

lemma takeLine_plain:
  assumes "nl \<notin> set c" "c = [] \<or> last c \<noteq> CHR 0x5C"
  shows "\<exists>m. takeLine (c @ nl # rest) = (c, rest, m)"
proof (cases "lineIsKeyValuePair c")
  case True
  then have "c \<noteq> []" by (auto simp: lineIsKeyValuePair_def)
  with assms(2) have "continueLine (c @ nl # rest) c rest 1 = (c, rest, 1)" by (subst continueLine.simps) simp
  with True show ?thesis by (simp add: takeLine_def nextLine_0[OF assms(1)])
next
  case False
  then show ?thesis by (simp add: takeLine_def nextLine_0[OF assms(1)])
qed

lemma takeLine_joined:
  assumes "joined t" "lineIsKeyValuePair (takeWhile (\<lambda>x. x \<noteq> nl) t)"
  shows "\<exists>m. takeLine (t @ nl # rest) = (t, rest, m)"
  using assms(1)
proof cases
  case joined_last
  then show ?thesis using takeLine_plain by blast
next
  case (joined_more c b)
  from continueLine_joined[OF joined_more(5,4), of rest 1] joined_more assms(2) show ?thesis
    by (simp add: takeLine_def nextLine_0[OF joined_more(2)] takeWhile_ne)
qed

text \<open>What the printer can write so that it is read back as the same line.\<close>

definition comment_ok :: "unitLine \<Rightarrow> bool" where
  "comment_ok l \<longleftrightarrow> ul_isComment l \<and> ul_key l = [] \<and> lineIsComment (ul_value l) \<and> nl \<notin> set (ul_value l) \<and>
     (ul_value l = [] \<or> last (ul_value l) \<noteq> CHR 0x5C)"

definition key_ok :: "string \<Rightarrow> bool" where
  "key_ok k \<longleftrightarrow> keyNameIsValid k \<and> CHR ''='' \<notin> set k \<and> chompKey k = k \<and> nl \<notin> set k \<and> hd k \<notin> {CHR ''#'', CHR '':'', CHR ''[''}"

definition value_ok :: "string \<Rightarrow> bool" where
  "value_ok v \<longleftrightarrow> joined v \<and> chugValue v = v"

definition line_ok :: "unitLine \<Rightarrow> bool" where
  "line_ok l \<longleftrightarrow> comment_ok l \<or> \<not> ul_isComment l \<and> key_ok (ul_key l) \<and> value_ok (ul_value l)"

lemma joined_prefix: "joined v \<Longrightarrow> nl \<notin> set k \<Longrightarrow> k \<noteq> [] \<Longrightarrow> last k \<noteq> CHR 0x5C \<Longrightarrow> joined (k @ v)"
proof (induction rule: joined.induct)
  case (joined_last c)
  then show ?case by (intro joined.joined_last) (auto simp: last_append)
next
  case (joined_more c b)
  then show ?case using joined.joined_more[of "k @ c" b] by simp
qed

lemma key_nonempty: "key_ok k \<Longrightarrow> k \<noteq> []"
  by (auto simp: key_ok_def keyNameIsValid_def)

lemma takeLine_key:
  assumes "key_ok k" "value_ok v"
  shows "\<exists>m. takeLine (k @ CHR ''='' # v @ nl # rest) = (k @ CHR ''='' # v, rest, m)"
proof -
  let ?t = "k @ CHR ''='' # v"
  have k: "nl \<notin> set (k @ ''='')" using assms(1) by (simp add: key_ok_def nl_def)
  have "joined ?t" using joined_prefix[OF _ k] assms(2) by (simp add: value_ok_def)
  moreover have "takeWhile (\<lambda>x. x \<noteq> nl) ?t = k @ CHR ''='' # takeWhile (\<lambda>x. x \<noteq> nl) v"
    using k by (auto simp: takeWhile_ne)
  moreover have "k \<noteq> []" "k ! 0 \<noteq> CHR ''=''"
    using key_nonempty[OF assms(1)] assms(1) by (cases k; auto simp: key_ok_def)+
  ultimately show ?thesis using takeLine_joined[of ?t rest] by (simp add: lineIsKeyValuePair_def nth_append)
qed

section \<open>The state of the parser\<close>

definition read_groups :: "UnitFileParser \<Rightarrow> unitGroup list \<Rightarrow> unitLine list \<Rightarrow> bool" where
  "read_groups p gs pend \<longleftrightarrow> file_ok (up_file p) \<and> view (up_file p) = gs \<and> up_pendingComments p = pend"

definition in_group :: "UnitFileParser \<Rightarrow> unitGroup list \<Rightarrow> unitGroup \<Rightarrow> unitLine list \<Rightarrow> bool" where
  "in_group p gs g pend \<longleftrightarrow> read_groups p (gs @ [g]) pend \<and>
     up_currentGroup p = uf_groupByName (up_file p) (ug_name g)"

lemma read_groups_lineNr [simp]: "read_groups (p\<lparr>up_lineNr := n\<rparr>) gs pend = read_groups p gs pend"
  by (simp add: read_groups_def)

lemma in_group_lineNr [simp]: "in_group (p\<lparr>up_lineNr := n\<rparr>) gs g pend = in_group p gs g pend"
  by (simp add: in_group_def)

lemma in_group_pending: "in_group p gs g pend \<Longrightarrow> in_group (p\<lparr>up_pendingComments := x\<rparr>) gs g x"
  by (simp add: in_group_def read_groups_def)

lemma update_last:
  assumes "distinct (map ug_name (gs @ [g]))"
  shows "update_named (ug_name g) h (gs @ [g]) = gs @ [h g]"
proof -
  have "map (\<lambda>x. if ug_name x = ug_name g then h x else x) gs = gs"
    using assms by (intro map_idI) (auto simp: image_iff)
  then show ?thesis by (simp add: update_named_def)
qed

lemma in_group_current:
  assumes "in_group p gs g pend"
  obtains q where "up_currentGroup p = Some q" "uf_groupByName (up_file p) (ug_name g) = Some q"
proof -
  have "file_ok (up_file p)" "ug_name g \<in> ug_name ` set (view (up_file p))"
    using assms by (auto simp: in_group_def read_groups_def)
  then obtain q where "uf_groupByName (up_file p) (ug_name g) = Some q"
    using byName_None[of "up_file p" "ug_name g"] by blast
  with assms that show ?thesis by (simp add: in_group_def)
qed

lemma in_group_upd:
  assumes "in_group p gs g pend" "up_currentGroup p = Some q" "\<And>x. ug_name (h x) = ug_name x"
  shows "in_group (p\<lparr>up_file := updGroup q h (up_file p)\<rparr>) gs (h g) pend"
proof -
  have ok: "file_ok (up_file p)" "view (up_file p) = gs @ [g]" "uf_groupByName (up_file p) (ug_name g) = Some q"
    using assms(1,2) by (simp_all add: in_group_def read_groups_def)
  have "view (updGroup q h (up_file p)) = gs @ [h g]"
    using updGroup_refines(2)[OF ok(1,3) assms(3)] update_last[of gs g h] file_ok_names[OF ok(1)] by (simp add: ok(2))
  then show ?thesis
    using assms updGroup_refines(1)[OF ok(1,3) assms(3)] by (simp add: in_group_def read_groups_def)
qed

lemma in_group_folds:
  assumes "\<And>l x. ug_name (h l x) = ug_name x"
  shows "in_group p gs g pend \<Longrightarrow> up_currentGroup p = Some q \<Longrightarrow>
    in_group (p\<lparr>up_file := fold (\<lambda>l. updGroup q (h l)) ls (up_file p)\<rparr>) gs (fold h ls g) pend"
proof (induction ls arbitrary: p g)
  case (Cons l ls)
  let ?p = "p\<lparr>up_file := updGroup q (h l) (up_file p)\<rparr>"
  have "in_group ?p gs (h l g) pend" using in_group_upd[OF Cons.prems] assms by blast
  from Cons.IH[OF this] Cons.prems(2) show ?case by simp
qed simp

lemma fold_addLine: "fold addLine ls g = g\<lparr>ug_lines := ug_lines g @ ls\<rparr>"
  by (induction ls arbitrary: g) (simp_all add: addLine_def)

lemma fold_addComment: "fold addComment ls g = g\<lparr>ug_comments := ug_comments g @ ls\<rparr>"
  by (induction ls arbitrary: g) (simp_all add: addComment_def)

lemma flush_in_group:
  assumes "in_group p gs g pend"
  shows "in_group (flushPendingComments toComment p) gs
    (if toComment then g\<lparr>ug_comments := ug_comments g @ pend\<rparr> else g\<lparr>ug_lines := ug_lines g @ pend\<rparr>) []"
proof -
  obtain q where q: "up_currentGroup p = Some q" using in_group_current[OF assms] by blast
  have pend: "up_pendingComments p = pend" using assms by (simp add: in_group_def read_groups_def)
  let ?h = "\<lambda>l. if toComment then addComment l else addLine l"
  have "in_group (p\<lparr>up_file := fold (\<lambda>l. updGroup q (?h l)) pend (up_file p)\<rparr>) gs (fold ?h pend g) pend"
    by (rule in_group_folds[OF _ assms q]) simp
  moreover have "fold ?h pend g =
      (if toComment then g\<lparr>ug_comments := ug_comments g @ pend\<rparr> else g\<lparr>ug_lines := ug_lines g @ pend\<rparr>)"
    by (simp add: fold_addLine fold_addComment)
  ultimately have f: "in_group (p\<lparr>up_file := fold (\<lambda>l. updGroup q (?h l)) pend (up_file p)\<rparr>) gs
      (if toComment then g\<lparr>ug_comments := ug_comments g @ pend\<rparr> else g\<lparr>ug_lines := ug_lines g @ pend\<rparr>) pend"
    by (simp only:)
  have e: "flushPendingComments toComment p =
      p\<lparr>up_file := fold (\<lambda>l. updGroup q (?h l)) pend (up_file p), up_pendingComments := []\<rparr>"
    by (simp add: flushPendingComments_def q pend)
  show ?thesis unfolding e by (rule in_group_pending[OF f])
qed

section \<open>Reading one line\<close>

lemma parseLine_comment:
  assumes "comment_ok l"
  shows "parseLine (ul_value l) p = Inr (p\<lparr>up_pendingComments := up_pendingComments p @ [l]\<rparr>)"
  using assms by (simp add: parseLine_def parseComment_def comment_ok_def newUnitLine_def)

lemma parseLine_key:
  assumes "key_ok k" "value_ok v" "in_group p gs g pend"
  shows "\<exists>p'. parseLine (k @ CHR ''='' # v) p = Inr p' \<and>
    in_group p' gs (g\<lparr>ug_lines := ug_lines g @ pend @ [newUnitLine k v False]\<rparr>) []"
proof -
  let ?t = "k @ CHR ''='' # v"
  obtain q where q: "up_currentGroup p = Some q" using in_group_current[OF assms(3)] by blast
  have k: "k \<noteq> []" "CHR ''='' \<notin> set k" "hd k \<notin> {CHR ''#'', CHR '':'', CHR ''[''}" "chompKey k = k" "keyNameIsValid k"
    using key_nonempty[OF assms(1)] assms(1) by (simp_all add: key_ok_def)
  obtain c cs where "k = c # cs" using k(1) by (cases k) auto
  then have h: "?t ! 0 = hd k" "hd k \<noteq> CHR ''=''" using k(2) by auto
  have "\<not> lineIsComment ?t" "\<not> lineIsGroup ?t" "lineIsKeyValuePair ?t"
    using k(3) h by (simp_all add: lineIsComment_def lineIsGroup_def lineIsKeyValuePair_def)
  moreover let ?p = "flushPendingComments False p"
  have "parseKeyValuePair ?t p = Inr (?p\<lparr>up_file := updGroup q (addKey k v) (up_file ?p)\<rparr>)"
    using k assms(2) by (simp add: parseKeyValuePair_def q takeWhile_ne dropWhile_ne Let_def value_ok_def)
  moreover have "up_currentGroup ?p = Some q" using q by (simp add: flushPendingComments_def)
  from in_group_upd[OF flush_in_group[OF assms(3)] this, of "addKey k v"]
  have "in_group (?p\<lparr>up_file := updGroup q (addKey k v) (up_file ?p)\<rparr>) gs
      (g\<lparr>ug_lines := ug_lines g @ pend @ [newUnitLine k v False]\<rparr>) []"
    by (simp add: addKey_def addLine_def)
  ultimately show ?thesis by (simp add: parseLine_def)
qed

definition strip :: "unitLine list \<Rightarrow> unitLine list" where
  "strip pend = (case pend of [] \<Rightarrow> [] | c # cs \<Rightarrow> if isEmpty c then cs else pend)"

definition name_ok :: "string \<Rightarrow> bool" where
  "name_ok n \<longleftrightarrow> groupNameIsValid n \<and> CHR '']'' \<notin> set n \<and> nl \<notin> set n"

lemma parseLine_group:
  assumes "name_ok n" "read_groups p gs pend" "n \<notin> ug_name ` set gs"
  shows "\<exists>p'. parseLine (CHR ''['' # n @ '']'') p = Inr p' \<and>
    in_group p' gs ((newUnitGroup n)\<lparr>ug_comments := strip pend\<rparr>) []"
proof -
  let ?t = "CHR ''['' # n @ '']''"
  obtain f q where e: "ensureGroup n (up_file p) = (f, q)" by (cases "ensureGroup n (up_file p)")
  have ok: "file_ok (up_file p)" "view (up_file p) = gs" "up_pendingComments p = pend"
    using assms(2) by (simp_all add: read_groups_def)
  note en = ensureGroup_ok[OF ok(1) e]
  let ?p1 = "p\<lparr>up_file := f, up_currentGroup := Some q\<rparr>"
  have at: "in_group (?p1\<lparr>up_pendingComments := cs\<rparr>) gs (newUnitGroup n) cs" for cs
    using en assms(3) by (simp add: in_group_def read_groups_def ok)
  have "\<not> lineIsComment ?t" "lineIsGroup ?t"
    using assms(1) by (simp_all add: lineIsComment_def lineIsGroup_def name_ok_def dropWhile_ne)
  moreover have "parseGroup ?t p = Inr (case pend of [] \<Rightarrow> ?p1 | c # cs \<Rightarrow>
      flushPendingComments True (if isEmpty c then ?p1\<lparr>up_pendingComments := cs\<rparr> else ?p1))"
    using assms(1) by (simp add: parseGroup_def name_ok_def takeWhile_ne e ok(3) Let_def)
  moreover have "in_group (case pend of [] \<Rightarrow> ?p1 | c # cs \<Rightarrow>
      flushPendingComments True (if isEmpty c then ?p1\<lparr>up_pendingComments := cs\<rparr> else ?p1)) gs
        ((newUnitGroup n)\<lparr>ug_comments := strip pend\<rparr>) []"
  proof (cases pend)
    case Nil
    with at[of "[]"] ok(3) show ?thesis by (simp add: strip_def newUnitGroup_def in_group_def read_groups_def)
  next
    case (Cons c cs)
    have "?p1\<lparr>up_pendingComments := pend\<rparr> = ?p1" using ok(3) by simp
    with flush_in_group[OF at[of cs], of True] flush_in_group[OF at[of pend], of True] Cons show ?thesis
      by (simp add: strip_def newUnitGroup_def)
  qed
  ultimately show ?thesis by (simp add: parseLine_def)
qed

section \<open>Reading the printed file\<close>

lemma parse_step:
  assumes "takeLine (t @ nl # rest) = (t, rest, m)" "parseLine t p = Inr p'"
  shows "\<exists>n. parseLines (t @ nl # rest) p = parseLines rest (p'\<lparr>up_lineNr := n\<rparr>)"
  using assms by (subst parseLines.simps) auto

lemma parse_comment_step:
  assumes "comment_ok l"
  shows "\<exists>n. parseLines (writeLine l @ rest) p =
    parseLines rest (p\<lparr>up_pendingComments := up_pendingComments p @ [l], up_lineNr := n\<rparr>)"
proof -
  obtain m where "takeLine (ul_value l @ nl # rest) = (ul_value l, rest, m)"
    using takeLine_plain[of "ul_value l" rest] assms by (auto simp: comment_ok_def)
  from parse_step[OF this parseLine_comment[OF assms, of p]] assms show ?thesis
    by (simp add: writeLine_def comment_ok_def)
qed

lemma read_comments:
  "\<forall>l \<in> set cs. comment_ok l \<Longrightarrow> read_groups p gs pend \<Longrightarrow>
   \<exists>p'. parseLines (concat (map writeLine cs) @ rest) p = parseLines rest p' \<and> read_groups p' gs (pend @ cs)"
proof (induction cs arbitrary: p pend)
  case Nil
  then show ?case by auto
next
  case (Cons c cs)
  from parse_comment_step[of c "concat (map writeLine cs) @ rest" p] Cons.prems(1) obtain n where n:
    "parseLines (writeLine c @ concat (map writeLine cs) @ rest) p = parseLines (concat (map writeLine cs) @ rest)
       (p\<lparr>up_pendingComments := up_pendingComments p @ [c], up_lineNr := n\<rparr>)" by auto
  have "read_groups (p\<lparr>up_pendingComments := up_pendingComments p @ [c], up_lineNr := n\<rparr>) gs (pend @ [c])"
    using Cons.prems(2) by (simp add: read_groups_def)
  from Cons.IH[OF _ this] Cons.prems(1) n show ?case by auto
qed

lemma read_lines:
  "\<forall>l \<in> set ls. line_ok l \<Longrightarrow> in_group p gs g pend \<Longrightarrow>
   \<exists>p' X Y. parseLines (concat (map writeLine ls) @ rest) p = parseLines rest p' \<and>
     in_group p' gs (g\<lparr>ug_lines := X\<rparr>) Y \<and> X @ Y = ug_lines g @ pend @ ls \<and>
     (if ls = [] then Y = pend else ul_isComment (last ls) \<or> Y = [])"
proof (induction ls arbitrary: p g pend)
  case Nil
  then show ?case by (intro exI[of _ p] exI[of _ "ug_lines g"] exI[of _ pend]) simp
next
  case (Cons l ls)
  let ?rest = "concat (map writeLine ls) @ rest"
  show ?case
  proof (cases "comment_ok l")
    case True
    from parse_comment_step[OF True, of ?rest p] obtain n where n: "parseLines (writeLine l @ ?rest) p =
        parseLines ?rest (p\<lparr>up_pendingComments := up_pendingComments p @ [l], up_lineNr := n\<rparr>)" by blast
    have "up_pendingComments p = pend" using Cons.prems(2) by (simp add: in_group_def read_groups_def)
    then have "in_group (p\<lparr>up_pendingComments := up_pendingComments p @ [l], up_lineNr := n\<rparr>) gs g (pend @ [l])"
      using in_group_pending[OF Cons.prems(2), of "pend @ [l]"] by simp
    from Cons.IH[OF _ this] Cons.prems(1) obtain p' X Y where
      "parseLines ?rest (p\<lparr>up_pendingComments := up_pendingComments p @ [l], up_lineNr := n\<rparr>) = parseLines rest p'"
      "in_group p' gs (g\<lparr>ug_lines := X\<rparr>) Y" "X @ Y = ug_lines g @ (pend @ [l]) @ ls"
      "if ls = [] then Y = pend @ [l] else ul_isComment (last ls) \<or> Y = []" by auto
    moreover have "ul_isComment l" using True by (simp add: comment_ok_def)
    ultimately show ?thesis using n by (intro exI[of _ p'] exI[of _ X] exI[of _ Y]) auto
  next
    case False
    with Cons.prems(1) have l: "\<not> ul_isComment l" "key_ok (ul_key l)" "value_ok (ul_value l)" by (auto simp: line_ok_def)
    then have w: "writeLine l @ ?rest = (ul_key l @ CHR ''='' # ul_value l) @ nl # ?rest" by (simp add: writeLine_def)
    have new: "newUnitLine (ul_key l) (ul_value l) False = l" using l(1) by (simp add: newUnitLine_def)
    obtain q where q: "parseLine (ul_key l @ CHR ''='' # ul_value l) p = Inr q"
      "in_group q gs (g\<lparr>ug_lines := ug_lines g @ pend @ [l]\<rparr>) []"
      using parseLine_key[OF l(2,3) Cons.prems(2)] new by auto
    obtain m where "takeLine ((ul_key l @ CHR ''='' # ul_value l) @ nl # ?rest) = (ul_key l @ CHR ''='' # ul_value l, ?rest, m)"
      using takeLine_key[OF l(2,3), of ?rest] by auto
    from parse_step[OF this q(1)] obtain n where n: "parseLines (writeLine l @ ?rest) p = parseLines ?rest (q\<lparr>up_lineNr := n\<rparr>)"
      unfolding w by blast
    have "in_group (q\<lparr>up_lineNr := n\<rparr>) gs (g\<lparr>ug_lines := ug_lines g @ pend @ [l]\<rparr>) []" using q(2) by simp
    from Cons.IH[OF _ this] Cons.prems(1) obtain p' X Y where
      "parseLines ?rest (q\<lparr>up_lineNr := n\<rparr>) = parseLines rest p'"
      "in_group p' gs (g\<lparr>ug_lines := X\<rparr>) Y" "X @ Y = ug_lines g @ pend @ [l] @ ls"
      "if ls = [] then Y = [] else ul_isComment (last ls) \<or> Y = []" by auto
    then show ?thesis using n l(1) by (intro exI[of _ p'] exI[of _ X] exI[of _ Y]) auto
  qed
qed

definition group_ok :: "unitGroup \<Rightarrow> bool" where
  "group_ok g \<longleftrightarrow> name_ok (ug_name g) \<and> (\<forall>l \<in> set (ug_comments g). comment_ok l) \<and> (\<forall>l \<in> set (ug_lines g). line_ok l)"

lemma read_group:
  assumes "group_ok g" "read_groups p gs pend" "ug_name g \<notin> ug_name ` set gs"
    and "strip (pend @ ug_comments g) = ug_comments g"
  shows "\<exists>p' X Y. parseLines (writeGroup g @ rest) p = parseLines rest p' \<and>
    in_group p' gs (g\<lparr>ug_lines := X\<rparr>) Y \<and> X @ Y = ug_lines g \<and>
    (if ug_lines g = [] then Y = [] else ul_isComment (last (ug_lines g)) \<or> Y = [])"
proof -
  let ?n = "ug_name g" and ?lines = "concat (map writeLine (ug_lines g)) @ rest"
  have ok: "name_ok ?n" "\<forall>l \<in> set (ug_comments g). comment_ok l" "\<forall>l \<in> set (ug_lines g). line_ok l"
    using assms(1) by (simp_all add: group_ok_def)
  have "?n \<noteq> []" using ok(1) by (auto simp: name_ok_def groupNameIsValid_def)
  then have w: "writeGroup g @ rest = concat (map writeLine (ug_comments g)) @ (CHR ''['' # ?n @ '']'') @ nl # ?lines"
    by (simp add: writeGroup_def)
  obtain p1 where p1: "parseLines (writeGroup g @ rest) p = parseLines ((CHR ''['' # ?n @ '']'') @ nl # ?lines) p1"
    "read_groups p1 gs (pend @ ug_comments g)"
    using read_comments[OF ok(2) assms(2), of "(CHR ''['' # ?n @ '']'') @ nl # ?lines"] unfolding w by blast
  obtain p2 where p2: "parseLine (CHR ''['' # ?n @ '']'') p1 = Inr p2"
    "in_group p2 gs ((newUnitGroup ?n)\<lparr>ug_comments := ug_comments g\<rparr>) []"
    using parseLine_group[OF ok(1) p1(2) assms(3)] assms(4) by auto
  have "nl \<notin> set (CHR ''['' # ?n @ '']'')" using ok(1) by (auto simp: name_ok_def nl_def)
  then obtain m where "takeLine ((CHR ''['' # ?n @ '']'') @ nl # ?lines) = (CHR ''['' # ?n @ '']'', ?lines, m)"
    using takeLine_plain[of "CHR ''['' # ?n @ '']''" ?lines] by auto
  from parse_step[OF this p2(1)] obtain n where n:
    "parseLines ((CHR ''['' # ?n @ '']'') @ nl # ?lines) p1 = parseLines ?lines (p2\<lparr>up_lineNr := n\<rparr>)" by blast
  have "in_group (p2\<lparr>up_lineNr := n\<rparr>) gs ((newUnitGroup ?n)\<lparr>ug_comments := ug_comments g\<rparr>) []" using p2(2) by simp
  from read_lines[OF ok(3) this, of rest] obtain p' X Y where
    "parseLines ?lines (p2\<lparr>up_lineNr := n\<rparr>) = parseLines rest p'"
    "in_group p' gs ((newUnitGroup ?n)\<lparr>ug_comments := ug_comments g, ug_lines := X\<rparr>) Y" "X @ Y = ug_lines g"
    "if ug_lines g = [] then Y = [] else ul_isComment (last (ug_lines g)) \<or> Y = []"
    by (auto simp: newUnitGroup_def)
  moreover have "(newUnitGroup ?n)\<lparr>ug_comments := ug_comments g, ug_lines := X\<rparr> = g\<lparr>ug_lines := X\<rparr>" for X
    by (simp add: newUnitGroup_def)
  ultimately show ?thesis using p1(1) n by (intro exI[of _ p'] exI[of _ X] exI[of _ Y]) simp
qed

definition emptyComment :: unitLine where
  "emptyComment = newUnitLine [] [] True"

lemma emptyComment_ok: "comment_ok emptyComment" "writeLine emptyComment = [nl]" "isEmpty emptyComment"
  by (simp_all add: emptyComment_def newUnitLine_def comment_ok_def lineIsComment_def writeLine_def isEmpty_def)

text \<open>
  Comments at the end of a group belong to the next group when the file is read, so only the last
  group may end with one; and an empty line in front of the first group is dropped.
\<close>

definition ends_with_key :: "unitGroup \<Rightarrow> bool" where
  "ends_with_key g \<longleftrightarrow> ug_lines g = [] \<or> \<not> ul_isComment (last (ug_lines g))"

definition printable :: "unitGroup list \<Rightarrow> bool" where
  "printable gs \<longleftrightarrow> gs \<noteq> [] \<and> distinct (map ug_name gs) \<and> (\<forall>g \<in> set gs. group_ok g) \<and>
     (\<forall>g \<in> set (butlast gs). ends_with_key g) \<and> strip (ug_comments (hd gs)) = ug_comments (hd gs)"

lemma read_rest:
  assumes "in_group p gs (g\<lparr>ug_lines := X\<rparr>) Y" "X @ Y = ug_lines g" "hs = [] \<or> Y = []"
    and "distinct (map ug_name (gs @ g # hs))" "\<forall>h \<in> set hs. group_ok h" "\<forall>h \<in> set (butlast hs). ends_with_key h"
  shows "\<exists>p' gs' g' X Y. parseLines (concat (map (\<lambda>h. nl # writeGroup h) hs)) p = Inr p' \<and>
    in_group p' gs' (g'\<lparr>ug_lines := X\<rparr>) Y \<and> X @ Y = ug_lines g' \<and> gs' @ [g'] = gs @ g # hs"
  using assms
proof (induction hs arbitrary: p gs g X Y)
  case Nil
  then show ?case by (subst parseLines.simps) auto
next
  case (Cons h hs)
  let ?rest = "concat (map (\<lambda>h. nl # writeGroup h) hs)"
  have g: "g\<lparr>ug_lines := X\<rparr> = g" "Y = []" using Cons.prems(2,3) by simp_all
  have r: "read_groups p (gs @ [g]) []" using Cons.prems(1) unfolding g by (simp add: in_group_def)
  from read_comments[of "[emptyComment]", OF _ r, of "writeGroup h @ ?rest"] obtain p1 where p1:
    "parseLines (nl # writeGroup h @ ?rest) p = parseLines (writeGroup h @ ?rest) p1" "read_groups p1 (gs @ [g]) [emptyComment]"
    using emptyComment_ok(1,2) by auto
  have "strip ([emptyComment] @ ug_comments h) = ug_comments h" using emptyComment_ok(3) by (simp add: strip_def)
  moreover have "ug_name h \<notin> ug_name ` set (gs @ [g])" using Cons.prems(4) by auto
  ultimately obtain p2 X' Y' where p2: "parseLines (writeGroup h @ ?rest) p1 = parseLines ?rest p2"
    "in_group p2 (gs @ [g]) (h\<lparr>ug_lines := X'\<rparr>) Y'" "X' @ Y' = ug_lines h"
    "if ug_lines h = [] then Y' = [] else ul_isComment (last (ug_lines h)) \<or> Y' = []"
    using read_group[OF _ p1(2), of h ?rest] Cons.prems(5) by auto
  have "hs = [] \<or> Y' = []"
    using p2(4) Cons.prems(6) by (auto simp: ends_with_key_def split: if_splits)
  from Cons.IH[OF p2(2,3) this] Cons.prems(4-6) p1(1) p2(1) show ?case by (auto split: if_splits)
qed

lemma Write_view: "Write f = (case view f of [] \<Rightarrow> [] | g # gs \<Rightarrow> writeGroup g @ concat (map (\<lambda>h. nl # writeGroup h) gs))"
proof -
  have "concat (map (\<lambda>(i, p). (if i \<noteq> 0 then [nl] else []) @ writeGroup (groupAt f p)) (enumerate (Suc n) ps)) =
      concat (map (\<lambda>h. nl # writeGroup h) (map (groupAt f) ps))" for n ps
    by (induction ps arbitrary: n) simp_all
  then show ?thesis by (cases "uf_groups f") (simp_all add: Write_def view_def)
qed

lemma Parse_ToString:
  assumes "printable (view f)"
  shows "\<exists>f'. Parse (ToString f) NewUnitFile = Inr f' \<and> file_ok f' \<and> view f' = view f"
proof -
  from assms obtain g hs where v: "view f = g # hs" by (cases "view f") (auto simp: printable_def)
  let ?p = "\<lparr>up_file = NewUnitFile, up_currentGroup = None, up_pendingComments = [], up_lineNr = 1\<rparr>"
  let ?rest = "concat (map (\<lambda>h. nl # writeGroup h) hs)"
  have s: "ToString f = writeGroup g @ ?rest" by (simp add: ToString_def Write_view v)
  have "read_groups ?p [] []" by (simp add: read_groups_def)
  from read_group[OF _ this, of g ?rest] assms obtain p1 X Y where p1: "parseLines (ToString f) ?p = parseLines ?rest p1"
    "in_group p1 [] (g\<lparr>ug_lines := X\<rparr>) Y" "X @ Y = ug_lines g"
    "if ug_lines g = [] then Y = [] else ul_isComment (last (ug_lines g)) \<or> Y = []"
    by (auto simp: s v printable_def)
  have "hs = [] \<or> Y = []"
    using p1(4) assms by (auto simp: v printable_def ends_with_key_def split: if_splits)
  from read_rest[OF p1(2,3) this] assms obtain p2 gs' g' X' Y' where p2: "parseLines ?rest p1 = Inr p2"
    "in_group p2 gs' (g'\<lparr>ug_lines := X'\<rparr>) Y'" "X' @ Y' = ug_lines g'" "gs' @ [g'] = g # hs"
    by (auto simp: v printable_def split: if_splits)
  obtain q where q: "up_currentGroup p2 = Some q" using in_group_current[OF p2(2)] by blast
  have "in_group (flushPendingComments False p2) gs' g' []" using flush_in_group[OF p2(2), of False] p2(3) by simp
  then have "file_ok (up_file (flushPendingComments False p2))" "view (up_file (flushPendingComments False p2)) = view f"
    by (simp_all add: in_group_def read_groups_def v p2(4))
  then show ?thesis using p1(1) p2(1) q by (simp add: Parse_def)
qed

end
