(* ===== verification/UnitProps.thy ===== *)
theory UnitProps
  imports UnitFileParse
begin

text \<open>
  Properties of unit files: editing refines functions on the list of groups, splitting ends, printed files are read
  back, and a command line survives being written to a file.
\<close>

section \<open>Editing\<close>

datatype unit_edit =
    ESet string string string
  | ESetv string "string list"
  | EAdd string string string
  | EAddCmdline string string "string list"
  | EUnset string string
  | ERemoveGroup string
  | ERenameGroup string string
  | EAddComment string "string list"
  | EPrependComment string "string list"
  | EMerge UnitFile
  | EDup

fun edit :: "unit_edit \<Rightarrow> UnitFile \<Rightarrow> UnitFile" where
  "edit (ESet n k v) f = Set n k v f"
| "edit (ESetv n kvs) f = Setv n kvs f"
| "edit (EAdd n k v) f = Add n k v f"
| "edit (EAddCmdline n k args) f = AddCmdline n k args f"
| "edit (EUnset n k) f = Unset n k f"
| "edit (ERemoveGroup n) f = RemoveGroup n f"
| "edit (ERenameGroup n m) f = RenameGroup n m f"
| "edit (EAddComment n cs) f = AddComment n cs f"
| "edit (EPrependComment n cs) f = PrependComment n cs f"
| "edit (EMerge source) f = mergeFile source f"
| "edit EDup f = Dup f"

definition comment_named :: "string \<Rightarrow> (unitGroup \<Rightarrow> unitGroup) \<Rightarrow> unitGroup list \<Rightarrow> unitGroup list" where
  "comment_named n h gs = (if n = [] \<and> gs \<noteq> [] then h (hd gs) # tl gs else update_named n h gs)"

definition commentLines :: "string list \<Rightarrow> unitLine list" where
  "commentLines cs = map (\<lambda>c. newUnitLine [] (''# '' @ c) True) cs"

fun edit_groups :: "unit_edit \<Rightarrow> unitGroup list \<Rightarrow> unitGroup list" where
  "edit_groups (ESet n k v) gs = update_named n (setKey k v) gs"
| "edit_groups (ESetv n kvs) gs = update_named n (setPairs kvs) gs"
| "edit_groups (EAdd n k v) gs = update_named n (addKey k v) gs"
| "edit_groups (EAddCmdline n k args) gs = update_named n (addKey k (escapeWords args)) gs"
| "edit_groups (EUnset n k) gs = map (\<lambda>g. if ug_name g = n then unsetKey k g else g) gs"
| "edit_groups (ERemoveGroup n) gs = filter (\<lambda>g. ug_name g \<noteq> n) gs"
| "edit_groups (ERenameGroup n m) gs = rename_named n m gs"
| "edit_groups (EAddComment n cs) gs =
     comment_named n (\<lambda>g. g\<lparr>ug_comments := ug_comments g @ commentLines cs\<rparr>) gs"
| "edit_groups (EPrependComment n cs) gs =
     comment_named n (\<lambda>g. g\<lparr>ug_comments := commentLines cs @ ug_comments g\<rparr>) gs"
| "edit_groups (EMerge source) gs = fold (\<lambda>g. update_named (ug_name g) (mergeGroup g)) (view source) gs"
| "edit_groups EDup gs = gs"

lemma updGroup_updGroup:
  "p < length (uf_heap f) \<Longrightarrow> updGroup p h (updGroup p k f) = updGroup p (\<lambda>g. h (k g)) f"
  by (simp add: updGroup_def)

lemma fold_updGroup:
  "p < length (uf_heap f) \<Longrightarrow> fold (\<lambda>x. updGroup p (h x)) xs f = updGroup p (fold h xs) f"
proof (induction xs arbitrary: f)
  case Nil
  then show ?case by (simp add: updGroup_def)
next
  case (Cons x xs)
  then show ?case by (simp add: updGroup_updGroup comp_def)
qed

lemma fold_prependComment: "fold prependComment ls g = g\<lparr>ug_comments := rev ls @ ug_comments g\<rparr>"
  by (induction ls arbitrary: g) (simp_all add: prependComment_def)

lemma commentGroup_refines:
  assumes "file_ok f" "commentGroup n f = (f', p)" "\<And>g. ug_name (h g) = ug_name g"
  shows "file_ok (updGroup p h f')" "view (updGroup p h f') = comment_named n h (view f)" "p < length (uf_heap f')"
proof -
  have "file_ok (updGroup p h f') \<and> view (updGroup p h f') = comment_named n h (view f) \<and> p < length (uf_heap f')"
  proof (cases "n = [] \<and> length (uf_groups f) > 0")
    case True
    then obtain q qs where gs: "uf_groups f = q # qs" by (cases "uf_groups f") auto
    then have p: "p = q" "f' = f" using True assms(2) by (simp_all add: commentGroup_def)
    have q: "q < length (uf_heap f)" "q \<notin> set qs" "q \<in> set (uf_groups f)"
      using file_okD(1,2)[OF assms(1)] gs by auto
    then have "view (updGroup q h f) = h (groupAt f q) # map (groupAt f) qs"
      by (auto simp: view_def gs groupAt_updGroup)
    then show ?thesis
      using True q file_ok_updGroup[OF assms(1) q(3) assms(3)] by (simp add: p comment_named_def view_def gs)
  next
    case False
    then have e: "ensureGroup n f = (f', p)" using assms(2) by (auto simp: commentGroup_def)
    note ok = ensureGroup_ok[OF assms(1) e]
    have "p \<in> set (uf_groups f')" using file_okD(3)[OF ok(1)] ok(2) by blast
    moreover have "updGroup p h f' = onGroup n h f" by (simp add: onGroup_def e)
    moreover have "\<not> (n = [] \<and> view f \<noteq> [])" using False by (auto simp: view_def)
    ultimately show ?thesis
      using onGroup_refines[OF assms(1,3), of n] file_okD(2)[OF ok(1)] by (auto simp: comment_named_def)
  qed
  then show "file_ok (updGroup p h f')" "view (updGroup p h f') = comment_named n h (view f)" "p < length (uf_heap f')"
    by simp_all
qed

lemma AddComment_refines:
  assumes "file_ok f"
  shows "file_ok (AddComment n cs f) \<and>
    view (AddComment n cs f) = comment_named n (\<lambda>g. g\<lparr>ug_comments := ug_comments g @ commentLines cs\<rparr>) (view f)"
proof -
  obtain f' p where c: "commentGroup n f = (f', p)" by (cases "commentGroup n f")
  let ?h = "\<lambda>g. g\<lparr>ug_comments := ug_comments g @ commentLines cs\<rparr>"
  have "fold (\<lambda>c. addComment (newUnitLine [] (''# '' @ c) True)) cs = ?h"
    using fold_addComment[of "commentLines cs"] by (simp add: commentLines_def fold_map comp_def fun_eq_iff)
  then have "AddComment n cs f = updGroup p ?h f'"
    using fold_updGroup[OF commentGroup_refines(3)[OF assms c refl], of "\<lambda>c. addComment (newUnitLine [] (''# '' @ c) True)" cs]
    by (simp add: AddComment_def c)
  then show ?thesis using commentGroup_refines(1,2)[OF assms c, of ?h] by simp
qed

lemma PrependComment_refines:
  assumes "file_ok f"
  shows "file_ok (PrependComment n cs f) \<and>
    view (PrependComment n cs f) = comment_named n (\<lambda>g. g\<lparr>ug_comments := commentLines cs @ ug_comments g\<rparr>) (view f)"
proof -
  obtain f' p where c: "commentGroup n f = (f', p)" by (cases "commentGroup n f")
  let ?h = "\<lambda>g. g\<lparr>ug_comments := commentLines cs @ ug_comments g\<rparr>"
  have "fold (\<lambda>c. prependComment (newUnitLine [] (''# '' @ c) True)) (rev cs) = ?h"
    using fold_prependComment[of "commentLines (rev cs)"] by (simp add: commentLines_def fold_map comp_def fun_eq_iff rev_map)
  then have "PrependComment n cs f = updGroup p ?h f'"
    using fold_updGroup[OF commentGroup_refines(3)[OF assms c refl], of "\<lambda>c. prependComment (newUnitLine [] (''# '' @ c) True)" "rev cs"]
    by (simp add: PrependComment_def c)
  then show ?thesis using commentGroup_refines(1,2)[OF assms c, of ?h] by simp
qed

lemma edit_refines_groups:
  assumes "file_ok f"
  shows "file_ok (edit e f)" "view (edit e f) = edit_groups e (view f)"
proof -
  have u: "(if n \<in> ug_name ` set (view f) then update_named n (unsetKey k) (view f) else view f) =
      map (\<lambda>g. if ug_name g = n then unsetKey k g else g) (view f)" for n k
    by (force simp: update_named_def intro!: map_idI[symmetric])
  have "file_ok (edit e f) \<and> view (edit e f) = edit_groups e (view f)"
    by (cases e) (simp_all add: edit_refines[OF assms] Unset_refines[OF assms] u RemoveGroup_refines[OF assms]
        RenameGroup_refines[OF assms] AddComment_refines[OF assms] PrependComment_refines[OF assms]
        mergeFile_refines[OF assms] Dup_refines[OF assms])
  then show "file_ok (edit e f)" "view (edit e f) = edit_groups e (view f)" by simp_all
qed

lemma edits_refine_groups:
  "file_ok f \<Longrightarrow> file_ok (fold edit es f) \<and> view (fold edit es f) = fold edit_groups es (view f)"
proof (induction es arbitrary: f)
  case (Cons e es)
  then show ?case using edit_refines_groups[OF Cons.prems, of e] by simp
qed simp

lemma edits_new:
  "file_ok (fold edit es NewUnitFile)" "view (fold edit es NewUnitFile) = fold edit_groups es []"
  using edits_refine_groups[OF file_ok_New(1), of es] file_ok_New(2) by simp_all

text \<open>
  C34. Editing a unit file refines editing a list of groups: after every sequence of edits of a new file, the
  map from names leads to exactly the groups of the file, no two groups have the same name, and the groups
  are what the same edits make of the empty list.
\<close>

theorem edits_refine:
  "file_ok (fold edit es NewUnitFile) \<and> distinct (ListGroups (fold edit es NewUnitFile)) \<and>
   view (fold edit es NewUnitFile) = fold edit_groups es []"
proof -
  have "ListGroups f = map ug_name (view f)" for f by (simp add: ListGroups_def view_def)
  then show ?thesis using edits_new[of es] file_ok_names[OF edits_new(1)[of es]] by simp
qed

section \<open>Command lines in files\<close>

lemma IsSpace_byte: "IsSpace (byte c) \<longleftrightarrow> 9 \<le> byte c \<and> byte c \<le> 13 \<or> byte c \<in> {32, 133, 160}"
  using nat_of_char_less_256[of c] by (auto simp: IsSpace_def simp del: nat_of_char_less_256)

lemma encodeRune_hd:
  assumes "validRune r" "128 \<le> r"
  shows "192 \<le> byte (hd (encodeRune r))"
  using assms by (auto simp: encodeRune_def validRune_def MaxRune_def)

lemma escapeWord_starts:
  assumes "argument w"
  shows "\<not> IsSpace (byte (hd (escapeWord w)))"
proof (cases "wordNeedEscape w")
  case True
  then show ?thesis by (simp add: escapeWord_def appendEscapeWord_def IsSpace_def)
next
  case False
  from assms obtain r rs where w: "w = utf8 (r # rs)" "\<forall>r \<in> set (r # rs). validRune r \<and> r \<noteq> 0"
    by (auto simp: argument_def neq_Nil_conv)
  then have "runes w = r # rs" using runes_utf8 by simp
  with False have r: "\<not> charNeedEscape r" "validRune r" using w(2) by (simp_all add: wordNeedEscape_def)
  then have e: "encodeRune r \<noteq> []" by (auto simp: encodeRune_def)
  have hd: "hd (escapeWord w) = hd (encodeRune r)" using False e by (simp add: escapeWord_def w(1) utf8_def)
  show ?thesis
  proof (cases "r < 128")
    case True
    then have "byte (hd (encodeRune r)) = r" by (simp add: encodeRune_ASCII)
    then show ?thesis unfolding hd using r(1) True by (auto simp: charNeedEscape_iff IsSpace_def)
  next
    case False
    then show ?thesis
      unfolding hd using encodeRune_hd[OF r(2)] by (auto simp: IsSpace_byte)
  qed
qed

lemma escapeWord_ends: "argument w \<Longrightarrow> last (escapeWord w) \<noteq> CHR 0x5C"
proof (cases "wordNeedEscape w")
  case False
  assume w: "argument w"
  then have "plainByte (last w)" using argument_plain[OF w False] argument_ne[OF w] by simp
  then show ?thesis using False by (auto simp: escapeWord_def plainByte_def)
qed (simp add: escapeWord_def appendEscapeWord_def)

lemma escapeWords_last: "ws \<noteq> [] \<Longrightarrow> \<forall>w \<in> set ws. argument w \<Longrightarrow> last (escapeWords ws) \<noteq> CHR 0x5C"
proof (induction ws)
  case (Cons w ws)
  have ne: "escapeWord v \<noteq> []" if "argument v" for v by (rule escapeWord_hd[OF that]) simp
  show ?case
  proof (cases ws)
    case Nil
    then show ?thesis using Cons.prems escapeWord_ends by (simp add: escapeWords_Cons)
  next
    case vs: (Cons v vs)
    have "escapeWords (w # ws) = escapeWord w @ CHR '' '' # escapeWords ws" "escapeWords ws \<noteq> []"
      using Cons.prems ne[of v] by (simp_all add: vs escapeWords_Cons)
    moreover have "last (escapeWords ws) \<noteq> CHR 0x5C" using Cons.IH Cons.prems vs by simp
    ultimately show ?thesis by simp
  qed
qed simp

lemma value_ok_escapeWords:
  assumes "\<forall>w \<in> set ws. argument w"
  shows "value_ok (escapeWords ws)"
proof (cases ws)
  case Nil
  then show ?thesis using joined_last[of "[]"] by (simp add: value_ok_def escapeWords_def chugValue_def)
next
  case (Cons w vs)
  obtain c cs where c: "escapeWord w = c # cs" by (rule escapeWord_hd[of w]) (use assms Cons in simp_all)
  have "\<not> IsSpace (byte c)" using escapeWord_starts[of w] assms Cons c by simp
  then have "chugValue (escapeWords ws) = escapeWords ws" by (simp add: chugValue_def Cons escapeWords_Cons c)
  moreover have "joined (escapeWords ws)"
    using joined_last[of "escapeWords ws"] escapeWords_no_newline[OF assms] escapeWords_last[OF _ assms] Cons by (simp add: nl_def)
  ultimately show ?thesis by (simp add: value_ok_def)
qed

lemma printable_addKey:
  assumes "printable gs" "n \<in> ug_name ` set gs" "key_ok k" "value_ok v"
  shows "printable (update_named n (addKey k v) gs)"
proof -
  define h where "h = (\<lambda>g. if ug_name g = n then addKey k v g else g)"
  have u: "update_named n (addKey k v) gs = map h gs" using assms(2) by (simp add: update_named_def h_def)
  have add: "addKey k v g = g\<lparr>ug_lines := ug_lines g @ [newUnitLine k v False]\<rparr>" for g
    by (simp add: addKey_def addLine_def)
  have "group_ok (h g)" if "group_ok g" for g
    using that assms(3,4) by (auto simp: h_def group_ok_def add line_ok_def newUnitLine_def)
  moreover have "ends_with_key (h g)" if "ends_with_key g" for g
    using that by (simp add: h_def ends_with_key_def add newUnitLine_def)
  moreover have "map ug_name (map h gs) = map ug_name gs" by (simp add: h_def add)
  moreover have "ug_comments (hd (map h gs)) = ug_comments (hd gs)" if "gs \<noteq> []"
    using that by (simp add: hd_map h_def add)
  ultimately show ?thesis using assms(1) unfolding u printable_def by (simp add: map_butlast[symmetric] del: map_map)
qed

lemma applyLineContinuation_id: "nl \<notin> set v \<Longrightarrow> applyLineContinuation v = v"
  by (auto simp: applyLineContinuation_def dest: set_mono_sublist)

lemma AddCmdline_last:
  assumes "file_ok f" "\<forall>w \<in> set args. argument w"
  shows "LookupLastArgs (AddCmdline n k args f) n k = Some (Some args)"
proof -
  have "AddCmdline n k args f = Add n k (escapeWords args) f" by (simp add: AddCmdline_def)
  then have "LookupLast (AddCmdline n k args f) n k = Some (escapeWords args)"
    using add_store.lookup_put[OF assms(1)] escapeWords_no_newline[OF assms(2)]
    by (simp add: LookupLast_def applyLineContinuation_id nl_def)
  then show ?thesis using splitString_escapeWords[OF assms(2)] by (simp add: LookupLastArgs_def)
qed

lemma LookupLastArgs_view:
  "file_ok f \<Longrightarrow> file_ok f' \<Longrightarrow> view f' = view f \<Longrightarrow> LookupLastArgs f' n k = LookupLastArgs f n k"
  by (simp add: LookupLastArgs_def LookupLast_def LookupLastRaw_view)

text \<open>
  C35. Splitting a line into words ends for every line, every set of separators and every combination of flags
  other than keeping the separators in front of the next word without joining them.
\<close>

theorem split_ends:
  assumes "\<not> (hasFlag flags SplitDontCoalesceSeparators \<and> hasFlag flags SplitRetainSeparators)"
  shows "\<exists>r. splitString s separators flags = Some r"
  using splitString_ends[OF assms] by (simp add: splitString_def)

theorem split_ends_witness: "\<exists>r. splitString ''a \"b c'' WhitespaceSeparators execFlags = Some r"
  by (rule split_ends) simp

text \<open>The flags that were left out make \<^const>\<open>splitString\<close> run forever on a line that starts with a separator.\<close>

theorem split_loops:
  assumes "hasFlag flags SplitDontCoalesceSeparators" "hasFlag flags SplitRetainSeparators"
  shows "splitStringAppend acc '' a'' WhitespaceSeparators flags = None"
proof -
  have x: "extractFirstWord '' a'' WhitespaceSeparators flags = Inr ([], '' a'', True)"
    using assms by (simp add: extractFirstWord_def finishForceNext_def wsSep_iff)
  have "(s, separators, fs) \<noteq> ('' a'', WhitespaceSeparators, flags)"
    if "splitStringAppend acc s separators fs = Some r" for acc s separators fs r
    using that by (rule splitStringAppend.raw_induct[rotated]) (auto simp: x, blast)
  then show ?thesis by (cases "splitStringAppend acc '' a'' WhitespaceSeparators flags") blast+
qed


definition demo_unit :: UnitFile where
  "demo_unit = fold edit
     [ESet ''Unit'' ''Description'' ''web'', EAddComment ''Unit'' [''a''], EAddCmdline ''Service'' ''ExecStart'' [''sh'', ''-c'', ''a b''],
      EAdd ''Service'' ''Restart'' [CHR ''n'', CHR 0x5C, CHR 0x0A, CHR ''o'']] NewUnitFile"

lemma demo_groups:
  "view demo_unit =
     [\<lparr>ug_name = ''Unit'', ug_comments = [newUnitLine [] ''# a'' True], ug_lines = [newUnitLine ''Description'' ''web'' False]\<rparr>,
      \<lparr>ug_name = ''Service'', ug_comments = [], ug_lines =
         [newUnitLine ''ExecStart'' (escapeWords [''sh'', ''-c'', ''a b'']) False,
          newUnitLine ''Restart'' [CHR ''n'', CHR 0x5C, CHR 0x0A, CHR ''o''] False]\<rparr>]"
  unfolding demo_unit_def edits_new(2)
  by (simp add: update_named_def comment_named_def commentLines_def setKey_def addKey_def addLine_def newUnitGroup_def findLast_def)

lemma ASCII_argument:
  assumes "w \<noteq> []" "\<forall>c \<in> set w. byte c < 128 \<and> byte c \<noteq> 0"
  shows "argument w"
proof -
  have "utf8 (map byte w) = w" using assms(2) by (induction w) (auto simp: utf8_def encodeRune_ASCII)
  moreover have "\<forall>r \<in> set (map byte w). validRune r \<and> r \<noteq> 0" using assms(2) by (auto simp: validRune_def)
  ultimately show ?thesis using assms(1) unfolding argument_def by (intro exI[of _ "map byte w"]) simp
qed

lemma demo_args: "\<forall>w \<in> set [''sh'', ''-c'', ''a b'']. argument w"
  using ASCII_argument by simp

lemma demo_printable: "printable (view demo_unit)"
proof -
  have "joined [CHR ''n'', CHR 0x5C, CHR 0x0A, CHR ''o'']"
    using joined_more[of "[CHR ''n'', CHR 0x5C]" "''o''"] joined_last[of "''o''"] by (simp add: nl_def)
  then have v: "value_ok [CHR ''n'', CHR 0x5C, CHR 0x0A, CHR ''o'']" by (simp add: value_ok_def chugValue_def IsSpace_def)
  have w: "value_ok ''web''" using joined_last[of "''web''"] by (simp add: value_ok_def chugValue_def IsSpace_def nl_def)
  have c: "comment_ok (newUnitLine [] ''# a'' True)" by (simp add: comment_ok_def newUnitLine_def lineIsComment_def nl_def)
  have k: "key_ok ''Description''" "key_ok ''ExecStart''" "key_ok ''Restart''"
    by (simp_all add: key_ok_def keyNameIsValid_def runes_ASCII chompKey_def IsSpace_def nl_def)
  have n: "name_ok ''Unit''" "name_ok ''Service''"
    by (simp_all add: name_ok_def groupNameIsValid_def runes_ASCII IsControl_def nl_def)
  note e = value_ok_escapeWords[OF demo_args]
  show ?thesis
    unfolding demo_groups printable_def group_ok_def line_ok_def
    using v w c k n e by (simp add: ends_with_key_def newUnitLine_def strip_def isEmpty_def)
qed




section \<open>Values that are not read as they were written\<close>

text \<open>An octal escape never gives the value of its digits.\<close>

theorem octal_lost:
  assumes "CHR ''0'' \<le> c" "c \<le> CHR ''7''"
  shows "cUnescapeOne (c # p) acceptNul \<in> {(1, 0, False), (-1, 0, False)}"
proof -
  have "48 \<le> byte c" "byte c \<le> 55" using assms by (simp_all add: less_eq_char_def)
  then have "byte c = 48 \<or> byte c = 49 \<or> byte c = 50 \<or> byte c = 51 \<or> byte c = 52 \<or> byte c = 53 \<or> byte c = 54 \<or> byte c = 55"
    by linarith
  then have "c = CHR ''0'' \<or> c = CHR ''1'' \<or> c = CHR ''2'' \<or> c = CHR ''3'' \<or> c = CHR ''4'' \<or> c = CHR ''5'' \<or>
      c = CHR ''6'' \<or> c = CHR ''7''"
    by (simp add: byte_eq_iff[of c])
  then show ?thesis by (elim disjE) (simp_all add: cUnescapeOne_def unoctchar_def less_eq_char_def)
qed

text \<open>A negative number is multiplied by eleven.\<close>

theorem negative_times_eleven: "convertNumber ''-12'' = Inr (- 132)"
  by code_simp

text \<open>An empty word is not quoted, and a quoted empty word ends the list.\<close>

theorem empty_word_lost:
  "splitString (escapeWords [''a'', [], ''b'']) WhitespaceSeparators execFlags = Some (Inr [''a'', ''b'']) \<and>
   splitString [CHR ''a'', CHR '' '', CHR 0x22, CHR 0x22, CHR '' '', CHR ''b''] WhitespaceSeparators execFlags = Some (Inr [''a''])"
proof -
  let ?x = "\<lambda>s. extractFirstWord s WhitespaceSeparators execFlags"
  let ?q = "[CHR 0x22, CHR 0x22, CHR '' '', CHR ''b'']"
  have "escapeWords [''a'', [], ''b''] = ''a  b''" by code_simp
  moreover have "?x ''a  b'' = Inr (''a'', ''b'', True)" by code_simp
  moreover have "?x ''b'' = Inr (''b'', [], True)" by code_simp
  moreover have "?x [] = Inr ([], [], False)" by code_simp
  moreover have "?x (''a '' @ ?q) = Inr (''a'', ?q, True)" by code_simp
  moreover have "?x ?q = Inr ([], [], False)" by code_simp
  ultimately show ?thesis
    by (simp add: splitString_def splitStringAppend.simps[of _ "''a  b''"] splitStringAppend.simps[of _ "''b''"]
        splitStringAppend.simps[of _ "[]"] splitStringAppend.simps[of _ ?q] splitStringAppend.simps[of _ "CHR ''a'' # CHR '' '' # ?q"])
qed

text \<open>A file of comments is printed as an empty file.\<close>

theorem comments_lost: "map_sum id ToString (Parse (''# a'' @ [nl]) NewUnitFile) = Inr []"
  by code_simp

text \<open>Bytes of a letter at the end of a key are taken for a space.\<close>

theorem key_letter_lost: "chompKey (''vol'' @ utf8 [224]) = ''vol'' @ [CHR 0xC3]"
  by code_simp

end
