(* ===== verification/QuadletLaws.thy ===== *)
theory QuadletLaws
  imports QuadletConvert UnitProps
begin

text \<open>
  What the conversions of Quadlet promise: they end, they leave the groups of the unit file that are not theirs alone, they
  set their own group aside, and the command line of the service is the one that was collected.
\<close>

section \<open>The conversions end\<close>

definition ends :: "quadlet_error + 'a \<Rightarrow> bool" where
  "ends r \<longleftrightarrow> r \<noteq> Inl Diverges"

lemma ends_simps [simp]:
  "ends (Inr x)" "ends (Inl e) \<longleftrightarrow> e \<noteq> Diverges" "ends (guardE b e) \<longleftrightarrow> b \<or> e \<noteq> Diverges"
  by (simp_all add: ends_def guardE_def)

lemma ends_bindE: "ends r \<Longrightarrow> (\<And>x. ends (f x)) \<Longrightarrow> ends (bindE r f)"
  by (cases r) (auto simp: ends_def)

lemma ends_must: "\<exists>b. r = Some b \<Longrightarrow> ends (must r)"
  by (auto simp: must_def requireE_def)

lemma ends_foldE: "(\<And>x s. ends (f x s)) \<Longrightarrow> ends (foldE f xs s)"
  by (induction xs arbitrary: s) (simp_all add: ends_bindE)

lemma fold_option_ends:
  "(\<And>x a. \<exists>b. f x a = Some b) \<Longrightarrow> \<exists>b. fold (\<lambda>x r. Option.bind r (f x)) xs (Some a) = Some b"
proof (induction xs arbitrary: a)
  case (Cons x xs)
  from Cons.prems[of x a] obtain b where "f x a = Some b" by blast
  then show ?case using Cons by simp
qed simp

lemma strvFlags_simps [simp]: "\<not> hasFlag (SplitRetainEscape OR SplitUnquote) SplitDontCoalesceSeparators"
  by (simp add: split_flags)

lemma split_some:
  "\<exists>r. splitStringAppend acc s seps (SplitRetainEscape OR SplitUnquote) = Some r"
  "\<exists>r. splitString s seps execFlags = Some r"
  using splitString_ends[of "SplitRetainEscape OR SplitUnquote"] splitString_ends[of execFlags] by (simp_all add: splitString_def)

lemma fold_split_ends:
  "\<exists>b. fold (\<lambda>x r. Option.bind r (\<lambda>a. case splitString x WhitespaceSeparators execFlags of
     None \<Rightarrow> None | Some (Inl _) \<Rightarrow> Some a | Some (Inr y) \<Rightarrow> Some (h y a))) xs (Some a) = Some b"
proof (rule fold_option_ends)
  fix x a
  show "\<exists>b. (case splitString x WhitespaceSeparators execFlags of
     None \<Rightarrow> None | Some (Inl _) \<Rightarrow> Some a | Some (Inr y) \<Rightarrow> Some (h y a)) = Some b"
    using split_some(2)[of x WhitespaceSeparators] by (auto split: sum.split)
qed

lemma lookups_end:
  "ends (must (LookupAllStrv f n k))" "ends (must (LookupAllArgs f n k))" "ends (must (LookupAllKeyVal f n k))"
  "ends (must (LookupLastArgs f n k))"
proof -
  show "ends (must (LookupAllStrv f n k))"
    unfolding LookupAllStrv_def
  proof (rule ends_must, rule fold_option_ends)
    fix x a
    show "\<exists>b. (case splitStringAppend a x WhitespaceSeparators (SplitRetainEscape OR SplitUnquote) of
        None \<Rightarrow> None | Some (Inl _) \<Rightarrow> Some a | Some (Inr y) \<Rightarrow> Some y) = Some b"
      using split_some(1)[of a x WhitespaceSeparators] by (auto split: sum.split)
  qed
  show "ends (must (LookupAllArgs f n k))"
    unfolding LookupAllArgs_def using fold_split_ends[of "\<lambda>y a. a @ y"] by (rule ends_must)
  show "ends (must (LookupAllKeyVal f n k))"
    unfolding LookupAllKeyVal_def using fold_split_ends[of addAssigns] by (rule ends_must)
  show "ends (must (LookupLastArgs f n k))"
  proof (rule ends_must, cases "LookupLast f n k")
    case (Some v)
    then show "\<exists>b. LookupLastArgs f n k = Some b"
      using split_some(2)[of v WhitespaceSeparators] by (auto simp: LookupLastArgs_def split: sum.split)
  qed (simp add: LookupLastArgs_def)
qed

lemma checkForUnknownKeys_ends: "ends (checkForUnknownKeys f n keys)"
  unfolding checkForUnknownKeys_def by (rule ends_foldE) simp

lemma helpers_end:
  "ends (handleUserRemap env f n isUser manual podman)" "ends (getAbsolutePath env f path)"
  "ends (handlePublishPorts f n podman)" "ends (exposeHostPort port podman)" "ends (checkKillMode service)"
proof -
  show "ends (handleUserRemap env f n isUser manual podman)"
    unfolding handleUserRemap_def Let_def
    by (intro ends_bindE lookups_end) (simp add: ends_bindE)
  show "ends (getAbsolutePath env f path)" by (simp add: getAbsolutePath_def split: sum.split)
  have "ends (publishPort port podman)" for port podman
    unfolding publishPort_def Let_def by (intro ends_bindE) (auto split: list.split intro!: ends_bindE)
  then show "ends (handlePublishPorts f n podman)" unfolding handlePublishPorts_def by (rule ends_foldE)
  show "ends (exposeHostPort port podman)" by (simp add: exposeHostPort_def Let_def ends_bindE)
  show "ends (checkKillMode service)" by (simp add: checkKillMode_def split: option.split)
qed

lemma fileArgs_ends: "ends (fileArgs env f arg files podman)"
  unfolding fileArgs_def by (intro ends_foldE ends_bindE helpers_end) simp

lemma serviceType_ends: "ends (serviceType c (s, p))"
  by (simp add: serviceType_def Let_def ends_bindE)

lemma capabilityArgs_ends: "ends (capabilityArgs env c p)"
  unfolding capabilityArgs_def by (intro ends_bindE lookups_end) simp

lemma lastArgs_ends: "ends (lastArgs env c kv p)"
  unfolding lastArgs_def Let_def by (intro ends_bindE lookups_end fileArgs_ends) simp

lemmas all_ends = lookups_end checkForUnknownKeys_ends helpers_end fileArgs_ends serviceType_ends capabilityArgs_ends lastArgs_ends

lemma ConvertContainer_ends: "ends (ConvertContainer env c isUser)"
  unfolding ConvertContainer_def Let_def
  by (intro ends_bindE all_ends; (simp add: split_beta ends_bindE all_ends ends_foldE)?)

lemma ConvertNetwork_ends: "ends (ConvertNetwork env f name)"
  unfolding ConvertNetwork_def Let_def
  by (intro ends_bindE all_ends; (simp add: ends_bindE all_ends)?)

lemma ConvertVolume_ends: "ends (ConvertVolume env f name)"
  unfolding ConvertVolume_def Let_def
  by (intro ends_bindE all_ends; (simp add: ends_bindE all_ends)?)

lemma ConvertKube_ends: "ends (ConvertKube env f isUser)"
  unfolding ConvertKube_def Let_def
  by (intro ends_bindE all_ends; (simp add: split_beta ends_bindE all_ends)?)

section \<open>The groups of the service\<close>

text \<open>
  After its own group has been set aside a conversion changes only the groups \<^verbatim>\<open>Unit\<close> and \<^verbatim>\<open>Service\<close>.
\<close>

definition kept :: "(string \<Rightarrow> unitGroup option) \<Rightarrow> UnitFile \<Rightarrow> bool" where
  "kept gs s \<longleftrightarrow> file_ok s \<and> (\<forall>n. n \<notin> {UnitGroup, ServiceGroup} \<longrightarrow> named n (view s) = gs n)"

lemma kept_edits:
  assumes "kept gs s" "n \<in> {UnitGroup, ServiceGroup}"
  shows "kept gs (Add n k v s)" "kept gs (Set n k v s)" "kept gs (Setv n kvs s)" "kept gs (AddCmdline n k args s)"
proof -
  have ok: "file_ok s" using assms(1) by (simp add: kept_def)
  have "kept gs s'" if "file_ok s'" "view s' = update_named n h (view s)" "\<And>g. ug_name (h g) = ug_name g" for s' h
    using assms that named_update[OF that(3)] by (auto simp: kept_def)
  from this[OF edit_refines(1,2)[OF ok]] this[OF edit_refines(3,4)[OF ok]] this[OF edit_refines(5,6)[OF ok]]
    this[OF edit_refines(7,8)[OF ok]]
  show "kept gs (Add n k v s)" "kept gs (Set n k v s)" "kept gs (Setv n kvs s)" "kept gs (AddCmdline n k args s)"
    by simp_all
qed

lemmas kept_unit = kept_edits[where n = UnitGroup, simplified]
lemmas kept_service = kept_edits[where n = ServiceGroup, simplified]

lemma kept_steps:
  assumes "kept gs s"
  shows "kept gs (sourcePath f s)" "kept gs (syslogIdentifier f s)" "kept gs (containerService env s)" "kept gs (oneshot s)"
  using assms by (simp_all add: sourcePath_def syslogIdentifier_def containerService_def oneshot_def Let_def kept_unit kept_service)

lemma kept_checkKillMode: "checkKillMode s = Inr s' \<Longrightarrow> kept gs s \<Longrightarrow> kept gs s'"
  by (auto simp: checkKillMode_def kept_service split: option.splits if_splits)

lemma kept_serviceType: "serviceType c (s, p) = Inr (s', p') \<Longrightarrow> kept gs s \<Longrightarrow> kept gs s'"
  by (auto simp: serviceType_def Let_def kept_service err_simps split: if_splits)

lemma kept_fold:
  assumes "\<And>x s p. kept gs s \<Longrightarrow> kept gs (fst (f x (s, p)))" "kept gs s"
  shows "kept gs (fst (fold f xs (s, p)))"
  using assms(2)
proof (induction xs arbitrary: s p)
  case (Cons x xs)
  obtain s' p' where f: "f x (s, p) = (s', p')" by (cases "f x (s, p)")
  then show ?case using assms(1)[OF Cons.prems, of x p] Cons.IH by simp
qed simp

lemma kept_addNetworks: "kept gs s \<Longrightarrow> kept gs (fst (addNetworks f n (s, p)))"
  unfolding addNetworks_def
  by (rule kept_fold) (simp_all add: addNetwork_def Let_def split_beta kept_unit)

lemma kept_mountVolumes: "kept gs s \<Longrightarrow> kept gs (fst (fold mountVolume vs (s, p)))"
  by (rule kept_fold) (simp_all add: mountVolume_def Let_def split_beta kept_unit)

definition aside :: "string \<Rightarrow> string \<Rightarrow> UnitFile \<Rightarrow> string \<Rightarrow> unitGroup option" where
  "aside own other f n =
     (if n = own then None
      else if n = other then map_option (\<lambda>g. g\<lparr>ug_name := other\<rparr>) (named own (view f))
      else named n (view f))"

lemma named_rename:
  assumes "named m gs = None" "n \<noteq> m"
  shows "named k (rename_named n m gs) =
    (if k = n then None else if k = m then map_option (\<lambda>g. g\<lparr>ug_name := m\<rparr>) (named n gs) else named k gs)"
proof -
  have m: "m \<notin> ug_name ` set gs" using assms(1) by (auto simp: named_def find_None_iff)
  have r: "named k (map (\<lambda>x. if ug_name x = n then x\<lparr>ug_name := m\<rparr> else x) gs) =
      (if k = n then None else if k = m then map_option (\<lambda>g. g\<lparr>ug_name := m\<rparr>) (named n gs) else named k gs)"
    using m assms(2) by (induction gs) (auto simp: named_def)
  show ?thesis
  proof (cases "named n gs")
    case None
    then show ?thesis using assms(1) by (auto simp: rename_named_def)
  next
    case (Some g)
    then have "rename_named n m gs = map (\<lambda>x. if ug_name x = n then x\<lparr>ug_name := m\<rparr> else x) gs"
      using m assms(2) by (simp add: rename_named_def)
    then show ?thesis using r by simp
  qed
qed

lemma file_ok_Filename [simp]: "file_ok (f\<lparr>uf_Filename := x\<rparr>) = file_ok f" "view (f\<lparr>uf_Filename := x\<rparr>) = view f"
  by (simp_all add: file_ok_def view_def groupAt_def)

lemma kept_Dup: "file_ok f \<Longrightarrow> kept (\<lambda>n. named n (view f)) ((Dup f)\<lparr>uf_Filename := x\<rparr>)"
  by (simp add: kept_def Dup_refines)

lemma kept_aside:
  assumes "kept (\<lambda>n. named n (view f)) s" "own \<noteq> other" "own \<notin> {UnitGroup, ServiceGroup}" "other \<notin> {UnitGroup, ServiceGroup}"
    and "named other (view f) = None"
  shows "kept (aside own other f) (RenameGroup own other s)"
proof -
  have s: "file_ok s" "named n (view s) = named n (view f)" if "n \<notin> {UnitGroup, ServiceGroup}" for n
    using assms(1) that by (simp_all add: kept_def)
  have o: "named other (view s) = None" using s(2)[OF assms(4)] assms(5) by simp
  show ?thesis
    using RenameGroup_refines[OF s(1)[OF assms(3)], of own other] named_rename[OF o assms(2)] s(2) assms(3,4)
    by (simp add: kept_def aside_def)
qed

section \<open>The command line\<close>

lemma foldE_extends: "(\<And>x p q. f x p = Inr q \<Longrightarrow> prefix p q) \<Longrightarrow> foldE f xs p = Inr q \<Longrightarrow> prefix p q"
  by (rule foldE_invariant[of f xs p q "prefix p"]) (auto intro: prefix_order.trans)

lemma addKeys_extends: "prefix p (addKeys arg kvs p)"
  by (simp add: addKeys_def)

lemma helpers_extend:
  "prefix p (handleLogDriver f n p)" "prefix p (addBool arg b p)" "prefix p (securityArgs f p)" "prefix p (readOnlyArgs f p)"
  "prefix p (userArgs f p)"
  by (auto simp: handleLogDriver_def addBool_def securityArgs_def readOnlyArgs_def userArgs_def Let_def split: option.split)

lemma steps_extend:
  "handleUserRemap env f n isUser manual p = Inr q \<Longrightarrow> prefix p q"
  "publishPort port p = Inr q \<Longrightarrow> prefix p q"
  "exposeHostPort port p = Inr q \<Longrightarrow> prefix p q"
  "capabilityArgs env f p = Inr q \<Longrightarrow> prefix p q"
  "serviceType f (s, p) = Inr (s', q) \<Longrightarrow> prefix p q"
  "fileArgs env f arg files p = Inr q \<Longrightarrow> prefix p q"
proof -
  show "handleUserRemap env f n isUser manual p = Inr q \<Longrightarrow> prefix p q"
    by (auto simp: handleUserRemap_def Let_def err_simps split: if_splits)
  show "publishPort port p = Inr q \<Longrightarrow> prefix p q" by (auto simp: publishPort_def Let_def err_simps)
  show "exposeHostPort port p = Inr q \<Longrightarrow> prefix p q" by (auto simp: exposeHostPort_def Let_def err_simps)
  show "capabilityArgs env f p = Inr q \<Longrightarrow> prefix p q" by (auto simp: capabilityArgs_def err_simps)
  show "serviceType f (s, p) = Inr (s', q) \<Longrightarrow> prefix p q"
    by (auto simp: serviceType_def Let_def err_simps split: if_splits)
  show "fileArgs env f arg files p = Inr q \<Longrightarrow> prefix p q"
    unfolding fileArgs_def by (erule foldE_extends[rotated]) (auto simp: err_simps)
qed

lemma fold_extends:
  assumes "\<And>x s p. prefix p (snd (f x (s, p)))"
  shows "prefix p (snd (fold f xs (s, p)))"
proof (induction xs arbitrary: s p)
  case (Cons x xs)
  obtain s' p' where f: "f x (s, p) = (s', p')" by (cases "f x (s, p)")
  then have "prefix p p'" using assms[of p x s] by simp
  then have "prefix p (snd (fold f xs (s', p')))" by (rule prefix_order.trans) (rule Cons)
  then show ?case by (simp add: f)
qed simp

lemma networks_extend: "prefix p (snd (addNetworks f n (s, p)))"
  unfolding addNetworks_def by (rule fold_extends) (simp add: addNetwork_def Let_def split_beta)

lemma volumes_extend: "prefix p (snd (fold mountVolume vs (s, p)))"
  by (rule fold_extends) (simp add: mountVolume_def Let_def split_beta)

lemma ports_extend: "handlePublishPorts f n p = Inr q \<Longrightarrow> prefix p q"
  unfolding handlePublishPorts_def by (erule foldE_extends[rotated]) (rule steps_extend)

lemma expose_extend: "foldE exposeHostPort ports p = Inr q \<Longrightarrow> prefix p q"
  by (erule foldE_extends[rotated]) (rule steps_extend)

text \<open>The image and the words of the command are behind all options.\<close>

definition imageArgs :: "UnitFile \<Rightarrow> string list" where
  "imageArgs c =
     (let image = valueOf c ContainerGroup ''Image'' in
      if length image > 0 then [image] else [''--rootfs'', valueOf c ContainerGroup ''Rootfs''])"

definition execArgs :: "UnitFile \<Rightarrow> string list" where
  "execArgs c = (case LookupLastArgs c ContainerGroup ''Exec'' of Some (Some args) \<Rightarrow> args | _ \<Rightarrow> [])"

lemma lastArgs_extends:
  assumes "lastArgs env c kv p = Inr q"
  shows "\<exists>mid. q = p @ mid @ imageArgs c @ execArgs c"
proof -
  have k: "prefix p (addAnnotations a (addLabels l (addEnv kv p)))" for a l
    by (simp add: addAnnotations_def addLabels_def addEnv_def addKeys_def)
  from assms obtain labels annotations files p1 secrets podmanArgs ex where
    p1: "fileArgs env c ''--env-file'' files (addAnnotations annotations (addLabels labels (addEnv kv p))) = Inr p1"
    and ex: "LookupLastArgs c ContainerGroup ''Exec'' = Some ex"
    and q: "q = (case LookupBoolean c ContainerGroup ''EnvironmentHost'' of
                   None \<Rightarrow> p1 | Some envHost \<Rightarrow> addBool ''--env-host'' envHost p1) @
          concat (map (\<lambda>s. [''--secret'', s]) secrets) @ podmanArgs @ imageArgs c @
          (case ex of None \<Rightarrow> [] | Some args \<Rightarrow> args)"
    by (auto simp: lastArgs_def Let_def err_simps must_def imageArgs_def)
  have "prefix p p1" using k[of annotations labels] steps_extend(6)[OF p1] by (rule prefix_order.trans)
  then have "prefix p (case LookupBoolean c ContainerGroup ''EnvironmentHost'' of
                   None \<Rightarrow> p1 | Some envHost \<Rightarrow> addBool ''--env-host'' envHost p1)"
    by (auto simp: addBool_def split: option.split)
  then obtain m where "(case LookupBoolean c ContainerGroup ''EnvironmentHost'' of
                   None \<Rightarrow> p1 | Some envHost \<Rightarrow> addBool ''--env-host'' envHost p1) = p @ m"
    by (rule prefixE)
  moreover have "(case ex of None \<Rightarrow> [] | Some args \<Rightarrow> args) = execArgs c" using ex by (simp add: execArgs_def split: option.split)
  ultimately show ?thesis using q by auto
qed

lemma group_names_distinct:
  "ContainerGroup \<noteq> XContainerGroup" "NetworkGroup \<noteq> XNetworkGroup" "VolumeGroup \<noteq> XVolumeGroup" "KubeGroup \<noteq> XKubeGroup"
  "ContainerGroup \<notin> {UnitGroup, ServiceGroup}" "XContainerGroup \<notin> {UnitGroup, ServiceGroup}"
  "NetworkGroup \<notin> {UnitGroup, ServiceGroup}" "XNetworkGroup \<notin> {UnitGroup, ServiceGroup}"
  "VolumeGroup \<notin> {UnitGroup, ServiceGroup}" "XVolumeGroup \<notin> {UnitGroup, ServiceGroup}"
  "KubeGroup \<notin> {UnitGroup, ServiceGroup}" "XKubeGroup \<notin> {UnitGroup, ServiceGroup}"
  by (simp_all add: group_names)

lemma named_HasGroup: "file_ok f \<Longrightarrow> HasGroup f n \<longleftrightarrow> named n (view f) \<noteq> None"
  by (simp add: HasGroup_def named_view)

text \<open>The conversion of a container, step by step.\<close>

lemma ConvertContainer_steps:
  assumes "ConvertContainer env c isUser = Inr s" "file_ok c" "\<not> HasGroup c XContainerGroup"
  shows "\<exists>args s'. s = AddCmdline ServiceGroup ''ExecStart'' args s' \<and> kept (aside ContainerGroup XContainerGroup c) s' \<and>
    (\<exists>mid. args = containerArgs env c @ mid @ imageArgs c @ execArgs c)"
proof -
  let ?gs = "aside ContainerGroup XContainerGroup c"
  let ?s0 = "sourcePath c ((Dup c)\<lparr>uf_Filename := replaceExtension (uf_Filename c) ''.service'' [] []\<rparr>)"
  let ?s1 = "RenameGroup ContainerGroup XContainerGroup ?s0"
  let ?tz = "valueOf c ContainerGroup ''Timezone''"
  let ?a = "handleLogDriver c ContainerGroup (containerArgs env c) @ [''--cgroups=split'']"
  let ?b = "if length ?tz > 0 then ?a @ [''--tz='' @ ?tz] else ?a"
  let ?n = "\<lambda>s. addNetworks c ContainerGroup (Add ServiceGroup ''Delegate'' ''yes'' (containerService env s), ?b)"
  let ?i = "\<lambda>p. case LookupBoolean c ContainerGroup ''RunInit'' of None \<Rightarrow> p | Some runInit \<Rightarrow> addBool ''--init'' runInit p"
  let ?v = "\<lambda>s p. fold mountVolume (LookupAll c ContainerGroup ''Volume'') (syslogIdentifier c s, p)"
  from assms(1)[unfolded ConvertContainer_def Let_def prod.case_eq_if bindE_eq_Inr] obtain s2 kv x p5 p6 p8 p9 args where
    s2: "checkKillMode (Add ServiceGroup ''Environment'' ''PODMAN_SYSTEMD_UNIT=%n'' ?s1) = Inr s2"
    and x: "serviceType c (fst (?n s2), ?i (snd (?n s2))) = Inr x"
    and p5: "capabilityArgs env c (securityArgs c (snd x)) = Inr p5"
    and p6: "handleUserRemap env c ContainerGroup isUser True (userArgs c (readOnlyArgs c p5)) = Inr p6"
    and p8: "foldE exposeHostPort (LookupAll c ContainerGroup ''ExposeHostPort'') (snd (?v (fst x) p6)) = Inr p8"
    and p9: "handlePublishPorts c ContainerGroup p8 = Inr p9"
    and args: "lastArgs env c kv p9 = Inr args"
    and s: "AddCmdline ServiceGroup ''ExecStart'' args (fst (?v (fst x) p6)) = s"
    by (elim exE conjE, unfold sum.inject) (rule that)
  obtain s4 p4 where x': "x = (s4, p4)" by (cases x)
  have none: "named XContainerGroup (view c) = None" using assms(2,3) by (simp add: named_HasGroup)
  have "kept ?gs ?s1"
    by (rule kept_aside[OF kept_steps(1)[OF kept_Dup[OF assms(2)]]]) (rule group_names_distinct none)+
  then have "kept ?gs s2" using kept_checkKillMode[OF s2] by (simp add: kept_service)
  then have "kept ?gs (fst (?n s2))" by (intro kept_addNetworks kept_service kept_steps)
  then have "kept ?gs (fst x)" using kept_serviceType x unfolding x' by auto
  then have k: "kept ?gs (fst (?v (fst x) p6))" by (intro kept_mountVolumes kept_steps)
  note [trans] = prefix_order.trans
  have "prefix (containerArgs env c) ?b" using helpers_extend(1) by (auto intro: prefix_order.trans)
  also have "prefix ?b (snd (?n s2))" by (rule networks_extend)
  also have "prefix (snd (?n s2)) (?i (snd (?n s2)))" using helpers_extend(2) by (auto split: option.split)
  also have "prefix (?i (snd (?n s2))) (snd x)" using steps_extend(5) x unfolding x' by auto
  also have "prefix (snd x) (securityArgs c (snd x))" by (rule helpers_extend)
  also have "prefix (securityArgs c (snd x)) p5" using p5 by (rule steps_extend)
  also have "prefix p5 (readOnlyArgs c p5)" by (rule helpers_extend)
  also have "prefix (readOnlyArgs c p5) (userArgs c (readOnlyArgs c p5))" by (rule helpers_extend)
  also have "prefix (userArgs c (readOnlyArgs c p5)) p6" using p6 by (rule steps_extend)
  also have "prefix p6 (snd (?v (fst x) p6))" by (rule volumes_extend)
  also have "prefix (snd (?v (fst x) p6)) p8" using p8 by (rule expose_extend)
  also have "prefix p8 p9" using p9 by (rule ports_extend)
  finally obtain m where m: "p9 = containerArgs env c @ m" by (rule prefixE)
  obtain mid where "args = p9 @ mid @ imageArgs c @ execArgs c" using lastArgs_extends[OF args] by blast
  then have "args = containerArgs env c @ (m @ mid) @ imageArgs c @ execArgs c" by (simp add: m)
  then show ?thesis using s k by blast
qed

text \<open>The other conversions.\<close>

lemma ConvertNetwork_kept:
  assumes "ConvertNetwork env f name = Inr s" "file_ok f" "named XNetworkGroup (view f) = None"
  shows "kept (aside NetworkGroup XNetworkGroup f) s"
proof -
  let ?s1 = "RenameGroup NetworkGroup XNetworkGroup ((Dup f)\<lparr>uf_Filename := replaceExtension (uf_Filename f) ''.service'' [] ''-network''\<rparr>)"
  from assms(1)[unfolded ConvertNetwork_def Let_def bindE_eq_Inr] obtain args where
    "oneshot (AddCmdline ServiceGroup ''ExecStart'' args (Add UnitGroup ''RequiresMountsFor'' ''%t/containers'' ?s1)) = s"
    by (elim exE conjE, unfold sum.inject) (rule that)
  moreover have "kept (aside NetworkGroup XNetworkGroup f) ?s1"
    by (rule kept_aside[OF kept_Dup[OF assms(2)]]) (rule group_names_distinct assms(3))+
  ultimately show ?thesis using kept_steps(4) kept_service(4) kept_unit(1) by blast
qed

lemma ConvertVolume_kept:
  assumes "ConvertVolume env f name = Inr s" "file_ok f" "named XVolumeGroup (view f) = None"
  shows "kept (aside VolumeGroup XVolumeGroup f) s"
proof -
  let ?s1 = "RenameGroup VolumeGroup XVolumeGroup ((Dup f)\<lparr>uf_Filename := replaceExtension (uf_Filename f) ''.service'' [] ''-volume''\<rparr>)"
  from assms(1)[unfolded ConvertVolume_def Let_def bindE_eq_Inr] obtain args where
    "oneshot (AddCmdline ServiceGroup ''ExecStart'' args (Add UnitGroup ''RequiresMountsFor'' ''%t/containers'' ?s1)) = s"
    by (elim exE conjE, unfold sum.inject) (rule that)
  moreover have "kept (aside VolumeGroup XVolumeGroup f) ?s1"
    by (rule kept_aside[OF kept_Dup[OF assms(2)]]) (rule group_names_distinct assms(3))+
  ultimately show ?thesis using kept_steps(4) kept_service(4) kept_unit(1) by blast
qed

lemma ConvertKube_kept:
  assumes "ConvertKube env f isUser = Inr s" "file_ok f" "named XKubeGroup (view f) = None"
  shows "kept (aside KubeGroup XKubeGroup f) s"
proof -
  let ?gs = "aside KubeGroup XKubeGroup f"
  let ?s1 = "RenameGroup KubeGroup XKubeGroup (sourcePath f ((Dup f)\<lparr>uf_Filename := replaceExtension (uf_Filename f) ''.service'' [] []\<rparr>))"
  let ?s3 = "\<lambda>s2. syslogIdentifier f (Setv ServiceGroup [''Type'', ''notify'', ''NotifyAccess'', ''all'']
     (Add UnitGroup ''RequiresMountsFor'' ''%t/containers'' (Add ServiceGroup ''Environment'' ''PODMAN_SYSTEMD_UNIT=%n'' s2)))"
  from assms(1)[unfolded ConvertKube_def Let_def prod.case_eq_if bindE_eq_Inr] obtain s2 p args args2 where
    s2: "checkKillMode ?s1 = Inr s2"
    and s: "AddCmdline ServiceGroup ''ExecStop'' args2 (AddCmdline ServiceGroup ''ExecStart'' args
       (fst (addNetworks f KubeGroup (?s3 s2, p)))) = s"
    by (elim exE conjE, unfold sum.inject) (rule that)
  have "kept ?gs ?s1"
    by (rule kept_aside[OF kept_steps(1)[OF kept_Dup[OF assms(2)]]]) (rule group_names_distinct assms(3))+
  then have "kept ?gs s2" by (rule kept_checkKillMode[OF s2])
  then show ?thesis unfolding s[symmetric] by (intro kept_service kept_addNetworks kept_steps kept_unit)
qed

lemma ConvertContainer_kept:
  assumes "ConvertContainer env f isUser = Inr s" "file_ok f" "named XContainerGroup (view f) = None"
  shows "kept (aside ContainerGroup XContainerGroup f) s"
proof -
  have "\<not> HasGroup f XContainerGroup" using assms(2,3) by (simp add: named_HasGroup)
  from ConvertContainer_steps[OF assms(1,2) this] show ?thesis using kept_service(4) by blast
qed

lemma kept_lookup:
  assumes "kept (aside own other f) s" "file_ok f" "own \<notin> {UnitGroup, ServiceGroup}" "other \<notin> {UnitGroup, ServiceGroup}" "own \<noteq> other"
  shows "file_ok s" "\<not> HasGroup s own" "LookupLastRaw s other k = LookupLastRaw f own k"
    and "n \<notin> {UnitGroup, ServiceGroup, own, other} \<Longrightarrow> LookupLastRaw s n k = LookupLastRaw f n k"
proof -
  show ok: "file_ok s" using assms(1) by (simp add: kept_def)
  have n: "named m (view s) = aside own other f m" if "m \<notin> {UnitGroup, ServiceGroup}" for m
    using assms(1) that by (simp add: kept_def)
  show "\<not> HasGroup s own" using n[OF assms(3)] by (simp add: named_HasGroup[OF ok] aside_def)
  show "LookupLastRaw s other k = LookupLastRaw f own k"
    using n[OF assms(4)] assms(5) by (cases "named own (view f)") (simp_all add: LookupLastRaw_view ok assms(2) aside_def)
  show "n \<notin> {UnitGroup, ServiceGroup, own, other} \<Longrightarrow> LookupLastRaw s n k = LookupLastRaw f n k"
    using n[of n] by (simp add: LookupLastRaw_view ok assms(2) aside_def)
qed

text \<open>The group of a unit that is read by Quadlet and the name under which it is set aside.\<close>

definition ownGroups :: "string \<Rightarrow> string \<times> string" where
  "ownGroups name =
     (if HasSuffix name ''.container'' then (ContainerGroup, XContainerGroup)
      else if HasSuffix name ''.volume'' then (VolumeGroup, XVolumeGroup)
      else if HasSuffix name ''.kube'' then (KubeGroup, XKubeGroup)
      else (NetworkGroup, XNetworkGroup))"

lemma convertUnit_kept:
  assumes "convertUnit env isUser name f = Some (Inr s)" "file_ok f" "ownGroups name = (own, other)" "\<not> HasGroup f other"
  shows "kept (aside own other f) s" "own \<notin> {UnitGroup, ServiceGroup}" "other \<notin> {UnitGroup, ServiceGroup}" "own \<noteq> other"
proof -
  have o: "named other (view f) = None" using assms(2,4) by (simp add: named_HasGroup)
  show "kept (aside own other f) s"
    using assms(1,3) o ConvertContainer_kept[OF _ assms(2)] ConvertVolume_kept[OF _ assms(2)] ConvertKube_kept[OF _ assms(2)]
      ConvertNetwork_kept[OF _ assms(2)]
    by (auto simp: convertUnit_def ownGroups_def split: if_splits)
  show "own \<notin> {UnitGroup, ServiceGroup}" "other \<notin> {UnitGroup, ServiceGroup}" "own \<noteq> other"
    using assms(3) by (auto simp: ownGroups_def group_names split: if_splits)
qed

end
