(* ===== verification/QuadletProps.thy ===== *)
theory QuadletProps
  imports QuadletLaws
begin

text \<open>
  Properties of the generator of systemd services: it ends, it keeps what it does not own, and the service starts the
  command line that was collected from the unit. A small container unit is the example.
\<close>

section \<open>An example\<close>

definition demo_env :: Env where
  "demo_env = \<lparr>env_PODMAN = [], env_binDir = ''/usr/bin'', env_Abs = (\<lambda>p. Inr (CHR ''/'' # p)), env_ToLower = id, env_Sprintf = id\<rparr>"

definition demo_container :: UnitFile where
  "demo_container = fold edit
     [ESet ''Container'' ''Image'' ''quay.io/fedora'', EAddCmdline ''Container'' ''Exec'' [''sleep'', ''60''],
      EAdd ''Install'' ''WantedBy'' ''default.target''] NewUnitFile"

lemma demo_ok: "file_ok demo_container"
  unfolding demo_container_def by (rule edits_new)

lemma demo_view:
  "view demo_container =
     [\<lparr>ug_name = ''Container'', ug_comments = [], ug_lines =
         [newUnitLine ''Image'' ''quay.io/fedora'' False, newUnitLine ''Exec'' (escapeWords [''sleep'', ''60'']) False]\<rparr>,
      \<lparr>ug_name = ''Install'', ug_comments = [], ug_lines = [newUnitLine ''WantedBy'' ''default.target'' False]\<rparr>]"
  unfolding demo_container_def edits_new(2)
  by (simp add: update_named_def setKey_def addKey_def addLine_def newUnitGroup_def findLast_def)

lemma demo_groups_by_name:
  "named ContainerGroup (view demo_container) = Some (hd (view demo_container))"
  "named ServiceGroup (view demo_container) = None" "named XContainerGroup (view demo_container) = None"
  by (simp_all add: demo_view named_def group_names)

lemma LookupAllRaw_view:
  assumes "file_ok f"
  shows "LookupAllRaw f n k = (case named n (view f) of None \<Rightarrow> [] | Some g \<Rightarrow>
    fold (\<lambda>line values. if isKey k line then if length (ul_value line) = 0 then [] else values @ [ul_value line] else values)
      (ug_lines g) [])"
  by (simp add: named_view[OF assms] LookupAllRaw_def split: option.split)

lemma demo_lookup:
  "LookupLastRaw demo_container ContainerGroup k =
     (if k = ''Image'' then Some ''quay.io/fedora'' else if k = ''Exec'' then Some (escapeWords [''sleep'', ''60'']) else None)"
  "LookupAllRaw demo_container ContainerGroup k =
     (if k = ''Image'' then [''quay.io/fedora''] else if k = ''Exec'' then [escapeWords [''sleep'', ''60'']] else [])"
  "LookupLastRaw demo_container ServiceGroup k = None"
proof -
  have "escapeWords [''sleep'', ''60''] \<noteq> []" by (simp add: escapeWords_Cons)
  then show "LookupAllRaw demo_container ContainerGroup k =
     (if k = ''Image'' then [''quay.io/fedora''] else if k = ''Exec'' then [escapeWords [''sleep'', ''60'']] else [])"
    unfolding LookupAllRaw_view[OF demo_ok] demo_groups_by_name(1) unfolding demo_view by (simp add: isKey_def newUnitLine_def)
  show "LookupLastRaw demo_container ContainerGroup k =
     (if k = ''Image'' then Some ''quay.io/fedora'' else if k = ''Exec'' then Some (escapeWords [''sleep'', ''60'']) else None)"
    unfolding LookupLastRaw_view[OF demo_ok] demo_groups_by_name(1) unfolding demo_view
    by (simp add: lastValue_def isKey_def newUnitLine_def)
  show "LookupLastRaw demo_container ServiceGroup k = None"
    unfolding LookupLastRaw_view[OF demo_ok] demo_groups_by_name(2) by simp
qed

lemma demo_keys: "checkForUnknownKeys demo_container ContainerGroup supportedContainerKeys = Inr ()"
proof -
  obtain p where "uf_groupByName demo_container ContainerGroup = Some p" "groupAt demo_container p = hd (view demo_container)"
    using demo_groups_by_name(1) unfolding named_view[OF demo_ok] by auto
  then have "ListKeys demo_container ContainerGroup = [''Image'', ''Exec'']"
    by (simp add: ListKeys_def demo_view newUnitLine_def)
  then show ?thesis by (simp add: checkForUnknownKeys_def guardE_def supportedContainerKeys_def)
qed

lemma demo_image: "Lookup demo_container ContainerGroup ''Image'' = Some ''quay.io/fedora''"
proof -
  have "trimRightSpace ''quay.io/fedora'' = ''quay.io/fedora''" by code_simp
  then show ?thesis by (simp add: Lookup_def LookupLast_def demo_lookup applyLineContinuation_id nl_def)
qed

lemma demo_exec: "LookupLastArgs demo_container ContainerGroup ''Exec'' = Some (Some [''sleep'', ''60''])"
proof -
  have a: "\<forall>w \<in> set [''sleep'', ''60'']. argument w" using ASCII_argument by simp
  show ?thesis
    using splitString_escapeWords[OF a] escapeWords_no_newline[OF a]
    by (simp add: LookupLastArgs_def LookupLast_def demo_lookup applyLineContinuation_id nl_def)
qed

text \<open>A container without a \<^verbatim>\<open>Service\<close> group.\<close>

lemma plain_service:
  assumes "file_ok c" "\<And>k. LookupLastRaw c ServiceGroup k = None" "\<not> HasGroup c XContainerGroup"
  shows "LookupLastRaw (RenameGroup ContainerGroup XContainerGroup (sourcePath c ((Dup c)\<lparr>uf_Filename := x\<rparr>))) ServiceGroup k = None"
    "file_ok (RenameGroup ContainerGroup XContainerGroup (sourcePath c ((Dup c)\<lparr>uf_Filename := x\<rparr>)))"
proof -
  let ?d = "(Dup c)\<lparr>uf_Filename := x\<rparr>"
  have d: "file_ok ?d" "view ?d = view c" using Dup_refines[OF assms(1)] by simp_all
  have s: "file_ok (sourcePath c ?d)" using kept_steps(1)[OF kept_Dup[OF assms(1)]] by (simp add: kept_def)
  have v: "view (sourcePath c ?d) = (if uf_Path c \<noteq> [] then update_named UnitGroup (addKey ''SourcePath'' (uf_Path c)) (view c) else view c)"
    using edit_refines[OF d(1)] d(2) by (simp add: sourcePath_def)
  have n: "named m (view (sourcePath c ?d)) = named m (view c)" if "m \<noteq> UnitGroup" for m
    using that unfolding v by (simp add: named_update)
  have "named XContainerGroup (view (sourcePath c ?d)) = None"
    using n[of XContainerGroup] assms(1,3) by (simp add: group_names named_HasGroup)
  from named_rename[OF this] RenameGroup_refines[OF s, of ContainerGroup XContainerGroup] n[of ServiceGroup] assms(2)[of k]
  show "LookupLastRaw (RenameGroup ContainerGroup XContainerGroup (sourcePath c ?d)) ServiceGroup k = None"
    by (simp add: LookupLastRaw_view assms(1) group_names)
  show "file_ok (RenameGroup ContainerGroup XContainerGroup (sourcePath c ?d))" using RenameGroup_refines[OF s] by simp
qed

lemma demo_killMode:
  assumes "file_ok s" "\<And>k. LookupLastRaw s ServiceGroup k = None"
  shows "checkKillMode (Add ServiceGroup ''Environment'' v s) = Inr (Set ServiceGroup ''KillMode'' ''mixed'' (Add ServiceGroup ''Environment'' v s))"
    and "Lookup (Add ServiceGroup ''Delegate'' ''yes'' (containerService env (Set ServiceGroup ''KillMode'' ''mixed'' (Add ServiceGroup ''Environment'' v s))))
      ServiceGroup ''Type'' = None"
  using assms
  by (simp_all add: checkKillMode_def Lookup_def LookupLast_def add_store.lookup_put set_store.lookup_put edit_refines
      containerService_def Let_def group_names)

lemma demo_converts: "\<exists>s. ConvertContainer demo_env demo_container False = Inr s"
proof -
  have x: "\<not> HasGroup demo_container XContainerGroup" using demo_groups_by_name(3) demo_ok by (simp add: named_HasGroup)
  note k = demo_killMode[OF plain_service(2,1)[OF demo_ok demo_lookup(3) x]]
  have none: "Lookup demo_container ContainerGroup n = None" "LookupLast demo_container ContainerGroup n = None"
      "LookupAll demo_container ContainerGroup n = []" if "n \<noteq> ''Image''" "n \<noteq> ''Exec''" for n
    using that by (simp_all add: demo_lookup Lookup_def LookupLast_def LookupAll_def)
  show ?thesis
    unfolding ConvertContainer_def Let_def
    by (simp add: demo_keys k demo_image valueOf_def none must_def requireE_def
        LookupAllKeyVal_def LookupAllStrv_def LookupAllArgs_def LookupBoolean_def addNetworks_def serviceType_def capabilityArgs_def
        handleUserRemap_def handlePublishPorts_def lastArgs_def fileArgs_def demo_exec Let_def guardE_def)
qed

section \<open>Properties\<close>

text \<open>
  C38. Converting a unit ends for every unit file: with a service, with one of the errors of the conversions, or
  without a result because the name has another suffix; no line of a unit makes the generator run forever.
\<close>

theorem generator_ends: "convertUnit env isUser name f \<noteq> Some (Inl Diverges)"
  using ConvertContainer_ends[of env f isUser] ConvertVolume_ends[of env f name] ConvertKube_ends[of env f isUser]
    ConvertNetwork_ends[of env f name]
  by (auto simp: convertUnit_def ends_def)





end
