(* ===== verification/Spec2Isabelle.thy ===== *)
theory Spec2Isabelle
  imports BoltQuery BoltAcyclic PortProps LockProps GraphProps QuadletProps
begin

text \<open>
  \<^bold>\<open>libpod.\<close> A verification development for the library behind podman. The library keeps containers,
  pods and volumes in a database, gives each of them a lock, maps their ports to the host and
  starts and removes them in the order in which they depend on each other; a generator turns unit files into systemd
  services that run containers. The development
  models these parts as functions on explicit states, with errors as values, and proves what they promise.

  \<^bold>\<open>Foundations.\<close> \<^verbatim>\<open>Libpod_Prelude\<close> has the error combinators (\<^verbatim>\<open>bindE\<close>, \<^verbatim>\<open>requireE\<close>, \<^verbatim>\<open>guardE\<close> and the loop
  \<^verbatim>\<open>foldE\<close>), the collections of rewrite rules and facts on lists and maps. \<^verbatim>\<open>Define\<close> has the errors and the states
  of a container (\<^verbatim>\<open>src/libpod/define\<close>), \<^verbatim>\<open>Types\<close> the records of containers, pods and volumes and their reset
  after a reboot, \<^verbatim>\<open>Ports\<close> the conversion of old port mappings (\<^verbatim>\<open>src/libpod/networking_common.go\<close>). \<^verbatim>\<open>Strconv\<close>,
  \<^verbatim>\<open>GoStrings\<close>, \<^verbatim>\<open>GoUtf8\<close> and \<^verbatim>\<open>NetIP\<close> model what is used of the Go packages \<^verbatim>\<open>strconv\<close>, \<^verbatim>\<open>strings\<close>, \<^verbatim>\<open>unicode\<close> and
  \<^verbatim>\<open>net\<close>; strings are lists of bytes, and a range loop decodes UTF-8.

  \<^bold>\<open>The state database\<close> (\<^verbatim>\<open>src/libpod/boltdb_state.go\<close>, \<^verbatim>\<open>src/libpod/boltdb_state_internal.go\<close>). \<^verbatim>\<open>Bolt\<close> models a bucket of
  the key-value store as a sorted association list, with the locale of a key-value store that buckets interpret.
  \<^verbatim>\<open>BoltSchema\<close> has the buckets of the database as a record, the state with its mutex, and transactions that are
  rolled back on an error; a failure to open the file is part of the state. \<^verbatim>\<open>BoltContainers\<close>,
  \<^verbatim>\<open>BoltPods\<close>, \<^verbatim>\<open>BoltVolumes\<close>, \<^verbatim>\<open>BoltExec\<close>, \<^verbatim>\<open>BoltNetworks\<close> and \<^verbatim>\<open>BoltConfig\<close> have one definition per method.
  Encoding a value gives an abstract encoding that decodes to the value, or bytes that do not decode.
  \<^verbatim>\<open>BoltInv\<close> states the invariant, with maps as the view of the buckets; \<^verbatim>\<open>BoltAddCtr\<close>, \<^verbatim>\<open>BoltRemoveCtr\<close>, \<^verbatim>\<open>BoltPodInv\<close>,
  \<^verbatim>\<open>BoltStateInv\<close>, \<^verbatim>\<open>BoltRename\<close> and \<^verbatim>\<open>BoltRefresh\<close> prove that the operations preserve it, \<^verbatim>\<open>BoltReach\<close> defines the
  reachable states as a step relation over all writing operations and \<^verbatim>\<open>BoltOps\<close> collects what
  is true of each step. \<^verbatim>\<open>BoltProps\<close>, \<^verbatim>\<open>BoltLife\<close> and \<^verbatim>\<open>BoltQuery\<close> hold the properties C1 to C16: the invariant,
  atomicity, when adding and removing succeed and what they change, lookup by prefix, exit codes, removal of
  pods, refresh, and that a failure to open the file blocks the state for good.

  \<^bold>\<open>Ports.\<close> \<^verbatim>\<open>PublishPorts\<close> (\<^verbatim>\<open>src/pkg/specgenutil/util.go\<close>) parses the flags of the command line, \<^verbatim>\<open>PortMap\<close>
  (\<^verbatim>\<open>src/pkg/specgen/generate/ports.go\<close>) validates, sorts and joins the mappings and picks random host ports. Ports are
  16-bit words, so that sums wrap around as in the code. The ports that the system hands out and the orders in
  which Go iterates its maps are parameters. \<^verbatim>\<open>PortProps\<close> holds C17 to C22: the joined ranges forward exactly what was
  requested, all results are valid ranges, conflicts that are reported are real, conflicts that are
  missed, and that the text of a mapping is read back.

  \<^bold>\<open>Locks\<close> (\<^verbatim>\<open>src/libpod/lock\<close>). \<^verbatim>\<open>LockInterface\<close> has the locale of a lock manager with its laws and what a user may
  rely on; \<^verbatim>\<open>LockInMemory\<close>, \<^verbatim>\<open>LockFile\<close> and \<^verbatim>\<open>LockShm\<close> (over the C code in \<^verbatim>\<open>ShmLock\<close>) interpret it. The numbers are 32-bit
  words; the loop over the bits of a bitmap has fuel 33, one more than its bits; the loop
  over lock files may not end and is a partial function. \<^verbatim>\<open>LockProps\<close> holds C23 to C26: the managers in memory and in
  shared memory cannot be told apart, all locks can be handed out, and where 32 bits are not enough.

  \<^bold>\<open>The dependency graph\<close> (\<^verbatim>\<open>src/libpod/container_graph.go\<close>). \<^verbatim>\<open>ContainerGraph\<close> builds the graph and looks for cycles;
  \<^verbatim>\<open>GraphCycles\<close> proves the cycle detection correct, \<^verbatim>\<open>GraphBuild\<close> describes the graph in closed form. \<^verbatim>\<open>GraphWalk\<close> has the
  walks that start and remove containers, over operations on one container that are arguments;
  \<^verbatim>\<open>GraphOrder\<close> proves the order of both walks from one invariant. The recursions have as fuel the number of nodes, and
  one more for the walks, which is proved to be enough. \<^verbatim>\<open>GraphProps\<close> holds C27 to C32.

  \<^bold>\<open>Across components.\<close> \<^verbatim>\<open>BoltAcyclic\<close> proves that the dependencies in a reachable database have no cycle, since a container
  can only depend on itself and on containers that are already there. This theory combines it with the graph (C33): the
  graph of the containers of a pod can always be built.

  \<^bold>\<open>Unit files\<close> (\<^verbatim>\<open>src/pkg/systemd/parser\<close>). \<^verbatim>\<open>UnitSplit\<close> splits lines into words and escapes words; the loop over the
  words may not end and is a partial function, and \<^verbatim>\<open>UnitSplitLaws\<close> proves for which flags it ends and that escaped words are
  split into the same words. \<^verbatim>\<open>UnitFile\<close> has the parser, the printer, the lookups and the edits; the groups are
  behind pointers into a heap, since the list of groups and the map from names share them. \<^verbatim>\<open>UnitFileLaws\<close> relates
  the file to the list of its groups and has the locale of a store of keys, which setting and adding keys interpret;
  \<^verbatim>\<open>UnitFileParse\<close> follows the parser over printed text. \<^verbatim>\<open>UnitProps\<close> holds C34 to C37: edits refine edits of a list,
  splitting ends, files are read back from their text and so are command lines. It also has the values that are
  not read as they were written: octal escapes, negative numbers, empty words and files of comments.

  \<^bold>\<open>Quadlet\<close> (\<^verbatim>\<open>src/pkg/systemd/quadlet\<close>, \<^verbatim>\<open>src/cmd/quadlet/main.go\<close>). \<^verbatim>\<open>Quadlet\<close> has the command line and the helpers,
  \<^verbatim>\<open>QuadletConvert\<close> the four conversions and the choice between them. A record of parameters stands for the environment, the
  working directory, lower case and the formatting of text that the user gave. A split that does not end is an error
  of its own, which \<^verbatim>\<open>QuadletLaws\<close> proves to be impossible; it also follows the groups of the service and the command
  line through a conversion. \<^verbatim>\<open>QuadletProps\<close> holds C38 to C40: the generator ends, keeps the groups that are not its
  own, and the service runs the command line of the unit.

  \<^bold>\<open>Not modelled.\<close> The life cycle of one container (mounting, networking, the OCI runtime and conmon) drives
  processes and the kernel. The SQLite state consists of SQL text that a library interprets. The generator of the OCI
  specification and the Kubernetes types fill third-party data types. The REST API, the bindings, the engines and
  the command line forward to the parts above; the files and links that the generator of services reads and writes,
  the templates of generated units, D-Bus and notification sockets are input and output; virtual machines drive
  hypervisors. Blocking on a lock, time and concurrent processes are outside of the sequential model, apart from the mutex of the database connection.
\<close>

section \<open>The containers of a pod\<close>

text \<open>A container that is read back has the identifier and the dependencies that are stored.\<close>

lemma getContainerConfigFromDB_links:
  assumes "getContainerConfigFromDB i cb = Inr cfg"
  shows "\<exists>old. config_of (bget cb) i = Some old \<and> cfg_ID cfg = cfg_ID old \<and> cfg_depends cfg = cfg_depends old"
proof -
  from assms obtain b old where "bget cb i = Some b" "cb_config b = Some (Enc old)"
    "cfg = (if cfg_OldPortMappings old \<noteq> [] \<and> cfg_PortMappings old = []
      then old\<lparr>cfg_PortMappings := ocicniPortsToNetTypesPorts (cfg_OldPortMappings old),
        cfg_OldPortMappings := sortPorts (cfg_OldPortMappings old), cfg_rewrite := True\<rparr> else old)"
    unfolding getContainerConfigFromDB_def by (auto simp only: err_simps)
  then show ?thesis by (simp add: config_of_Some cfg_depends_def)
qed

lemma getContainerFromDB_links:
  assumes "getContainerFromDB rt i cb False = Inr c"
  shows "\<exists>cfg. config_of (bget cb) i = Some cfg \<and> ctr_ID c = cfg_ID cfg \<and> Dependencies c = cfg_depends cfg"
proof -
  from assms obtain cfg where "getContainerConfigFromDB i cb = Inr cfg" "ctr_config c = cfg"
    by (auto simp: getContainerFromDB_def Let_def err_simps)
  with getContainerConfigFromDB_links show ?thesis by (simp add: Dependencies_def)
qed

lemma ctr_map_Some:
  assumes "ctr_map cs i = Some c"
  shows "c \<in> set cs" "ctr_ID c = i"
proof -
  have "fold (\<lambda>c m. m(ctr_ID c \<mapsto> c)) cs m i = Some c \<Longrightarrow> m i = Some c \<or> c \<in> set cs \<and> ctr_ID c = i" for m
    by (induction cs arbitrary: m) (fastforce split: if_splits)+
  with assms show "c \<in> set cs" "ctr_ID c = i" by (auto simp: ctr_map_def)
qed

lemma ForEach_results:
  assumes "ForEach (\<lambda>k _ acc. bindE (f k) (\<lambda>x. Inr (acc @ [x]))) b acc = Inr xs"
  shows "\<exists>ys. xs = acc @ ys \<and> list_all2 (\<lambda>k y. f k = Inr y) (bkeys b) ys"
  using assms
proof (induction b arbitrary: acc)
  case (Cons kv b)
  obtain k v where kv: "kv = (k, v)" by (cases kv)
  from Cons.prems obtain y where y: "f k = Inr y"
    "ForEach (\<lambda>k _ acc. bindE (f k) (\<lambda>x. Inr (acc @ [x]))) b (acc @ [y]) = Inr xs"
    by (auto simp: kv err_simps)
  from Cons.IH[OF y(2)] y(1) show ?case by (auto simp: kv bkeys_def)
qed (simp add: bkeys_def)

lemma PodContainers_members:
  assumes "PodContainers rt s pod = Some (s', pod', Inr cs)" "db_wf (bs_db s)"
  shows "ctr_ids cs = dom (members (pods (bs_db s)) (pod_ID pod))"
    and "\<And>c j. c \<in> set cs \<Longrightarrow> j \<in> set (Dependencies c) \<longleftrightarrow> depends (ctrs (bs_db s)) (ctr_ID c) j"
proof -
  let ?d = "bs_db s"
  from assms(1) obtain cb b ms where
      d: "db_ctrs ?d = Some cb" "pods ?d (pod_ID pod) = Some b" "pb_containers b = Some ms"
    and l: "ForEach (\<lambda>k _ acc. bindE (getContainerFromDB rt k cb False) (\<lambda>x. Inr (acc @ [x]))) ms [] = Inr cs"
    by (auto simp: PodContainers_def podOp_def withDBCon_def getDBCon_def getMembers_def getBucket_defs
        err_simps Let_def View_def split: if_splits option.splits sum.splits prod.splits)
  from ForEach_results[OF l] have l2: "list_all2 (\<lambda>k c. getContainerFromDB rt k cb False = Inr c) (bkeys ms) cs" by simp
  have one: "ctr_ID c = k \<and> (\<forall>j. j \<in> set (Dependencies c) \<longleftrightarrow> depends (ctrs ?d) k j)"
    if r: "getContainerFromDB rt k cb False = Inr c" for k c
  proof -
    obtain cfg where cfg: "config_of (ctrs ?d) k = Some cfg" "ctr_ID c = cfg_ID cfg" "Dependencies c = cfg_depends cfg"
      using getContainerFromDB_links[OF r] d(1) by auto
    then obtain b where b: "ctrs ?d k = Some b" "cb_config b = Some (Enc cfg)" by (auto simp: config_of_Some)
    have "wf_ctrs ?d" using assms(2) by (simp add: db_wf_def)
    from wf_ctrsD[OF this b(1)] b(2) have "cfg_ID cfg = k" by auto
    with cfg show ?thesis by (simp add: depends_def)
  qed
  have "list_all2 (\<lambda>k c. k = ctr_ID c) (bkeys ms) cs" by (rule list_all2_mono[OF l2]) (simp add: one)
  then have "bkeys ms = map ctr_ID cs" by (induction rule: list_all2_induct) simp_all
  then have "ctr_ids cs = set (bkeys ms)" by (simp add: ctr_ids_def)
  then show "ctr_ids cs = dom (members (pods ?d) (pod_ID pod))" using d by (simp add: members_def set_bkeys)
  show "j \<in> set (Dependencies c) \<longleftrightarrow> depends (ctrs ?d) (ctr_ID c) j" if "c \<in> set cs" for c j
  proof -
    from that obtain n where "n < length cs" "c = cs ! n" by (auto simp: in_set_conv_nth)
    with l2 have "getContainerFromDB rt (bkeys ms ! n) cb False = Inr c" by (simp add: list_all2_conv_all_nth)
    from one[OF this] show ?thesis by simp
  qed
qed

lemma PodContainers_edges:
  assumes "PodContainers rt s pod = Some (s', pod', Inr cs)" "db_wf (bs_db s)" "(i, j) \<in> depRel cs"
  shows "i \<in> ctr_ids cs" "depends (ctrs (bs_db s)) i j"
proof -
  from assms(3) obtain c where c: "ctr_map cs i = Some c" "j \<in> set (Dependencies c)"
    by (cases "ctr_map cs i") (auto simp: depRel_def deps_in_def)
  from ctr_map_Some[OF c(1)] show "i \<in> ctr_ids cs" "depends (ctrs (bs_db s)) i j"
    using PodContainers_members(2)[OF assms(1,2), of c j] c(2) by (auto simp: ctr_ids_def)
qed

text \<open>
  C33. The containers of a pod can always be started together. In every reachable state, when
  \<open>PodContainers\<close> reads the containers of a pod, \<open>BuildContainerGraph\<close> succeeds on the result, whatever the
  order of its maps: no dependency is missing, and there is no cycle.
\<close>

theorem pod_graph_builds:
  assumes "reachable s" "PodContainers rt s pod = Some (s', pod', Inr cs)"
    and "enumerates order cs" "enumerates order' cs"
  shows "\<exists>g. BuildContainerGraph order order' cs = Some (Inr g)"
proof -
  let ?d = "bs_db s" and ?p = "pod_ID pod"
  note wf = reachable_acyclic(1)[OF assms(1)]
  then have w: "wf_reg ?d" "wf_deps ?d" "wf_pods ?d" by (simp_all add: db_wf_def)
  note m = PodContainers_members[OF assms(2) wf] and e = PodContainers_edges[OF assms(2) wf]
  have "j \<in> ctr_ids cs" if "(i, j) \<in> depRel cs" for i j
    using e[OF that] w(2) members_iff[OF w(1,3), of _ ?p] by (auto simp: m(1) wf_deps_def)
  then have closed: "\<forall>n \<in> ctr_ids cs. set (deps_in (ctr_map cs) n) \<subseteq> ctr_ids cs" by (auto simp: depRel_def)
  have "depRel cs \<subseteq> (dep_edges ?d)\<^sup>*" using e(2) by (auto simp: dep_edges_def)
  then have "(depRel cs)\<^sup>* \<subseteq> (dep_edges ?d)\<^sup>*" by (metis rtrancl_idemp rtrancl_mono)
  moreover have "acyclic (dep_edges ?d)" by (rule reachable_acyclic(2)[OF assms(1)])
  ultimately have "\<not> has_cycle cs"
    unfolding has_cycle_def by (meson acyclic_impl_antisym_rtrancl antisymD subsetD)
  with closed show ?thesis by (simp add: build_result[OF assms(3,4)])
qed

text \<open>A pod with two containers, of which one depends on the other, as three operations create it.\<close>

definition pod_ctr :: "string \<Rightarrow> string \<Rightarrow> string list \<Rightarrow> Container" where
  "pod_ctr i n deps = demo_ctr\<lparr>ctr_config := zero_ContainerConfig\<lparr>cfg_ID := i, cfg_Name := n, cfg_Pod := ''p1'',
     cfg_Dependencies := deps\<rparr>\<rparr>"

definition pod_ctr_bkt :: "Container \<Rightarrow> string bucket \<Rightarrow> ctr_bkt" where
  "pod_ctr_bkt c users = empty_ctr_bkt\<lparr>cb_config := Some (Enc (ctr_config c)), cb_state := Some (Enc zero_ContainerState),
     cb_podID := Some ''p1'', cb_deps := Some users\<rparr>"

definition pod_db :: "string bucket \<Rightarrow> ctr_bkt bucket \<Rightarrow> boltdb" where
  "pod_db ms cb = fresh_db\<lparr>db_ids := Some (ms @ [(''p1'', ''pod'')]),
     db_names := Some (map (\<lambda>(i, n). (n, i)) ms @ [(''pod'', ''p1'')]), db_allCtrs := Some ms, db_ctrs := Some cb,
     db_pods := Some [(''p1'', demo_pod_bkt\<lparr>pb_containers := Some ms\<rparr>)], db_allPods := Some [(''p1'', ''pod'')]\<rparr>"

lemma pod_ctr_simps:
  "strip_networks (pod_ctr i n deps) = pod_ctr i n deps" "nets_of (pod_ctr i n deps) = []"
  "marshalNetworks (ctr_ID (pod_ctr i n deps)) (cfg_Networks (ctr_config (pod_ctr i n deps))) = Inr []"
  "ctr_valid (pod_ctr i n deps)" "cfg_Pod (ctr_config (pod_ctr i n deps)) = ''p1''" "pod_ID demo_pod = ''p1''"
  "pod_valid demo_pod"
  by (simp_all add: strip_networks_def nets_of_def pod_ctr_def demo_ctr_def zero_ContainerConfig_def demo_pod_def)

lemmas pod_add_defs = addContainer_tx_def pod_ctr_def pod_ctr_bkt_def pod_db_def demo_pod_def demo_pod_bkt_def
  demo_defs Let_def getBucket_defs getPodCtrs_def checkFree_def Put_def CreateBucket_def MaxKeySize_def
  newCtrBucket_def Dependencies_def cfg_depends_def MarshalConfig_def Marshal_def addDependency_def
  AddPod_tx_def empty_pod_bkt_def

lemma pod_add:
  "AddPod_tx demo_pod fresh_db = Inr (pod_db [] [])"
  "addContainer_tx (pod_ctr ''c1'' ''app'' []) (Some demo_pod) [] (pod_db [] []) =
     Inr (pod_db [(''c1'', ''app'')] [(''c1'', pod_ctr_bkt (pod_ctr ''c1'' ''app'' []) [])])"
  "addContainer_tx (pod_ctr ''c2'' ''log'' [''c1'']) (Some demo_pod) [] (pod_db [(''c1'', ''app'')] [(''c1'', pod_ctr_bkt (pod_ctr ''c1'' ''app'' []) [])]) =
     Inr (pod_db [(''c1'', ''app''), (''c2'', ''log'')]
       [(''c1'', pod_ctr_bkt (pod_ctr ''c1'' ''app'' []) [(''c2'', ''log'')]), (''c2'', pod_ctr_bkt (pod_ctr ''c2'' ''log'' [''c1'']) [])])"
  by (simp_all add: pod_add_defs)

definition pod_pair_db :: boltdb where
  "pod_pair_db = pod_db [(''c1'', ''app''), (''c2'', ''log'')]
     [(''c1'', pod_ctr_bkt (pod_ctr ''c1'' ''app'' []) [(''c2'', ''log'')]), (''c2'', pod_ctr_bkt (pod_ctr ''c2'' ''log'' [''c1'']) [])]"

lemma pod_pair_reachable: "reachable (demo_state pod_pair_db)"
proof -
  note run = run_op_defs pureOp_ready[OF demo_ready] Update_fst Update_snd demo_bs_db demo_update demo_ctr_simps(3)
    pod_ctr_simps pod_add[folded pod_pair_db_def]
  let ?d1 = "pod_db [] []" and ?d2 = "pod_db [(''c1'', ''app'')] [(''c1'', pod_ctr_bkt (pod_ctr ''c1'' ''app'' []) [])]"
  have "run_op (OpAddPod demo_pod) (demo_state fresh_db) = Some (demo_state ?d1, Inr ())" by (simp add: run res3_op)
  from step[OF demo_reachable(1) _ this] have r1: "reachable (demo_state ?d1)" by simp
  have "run_op (OpAddContainerToPod demo_pod (pod_ctr ''c1'' ''app'' [])) (demo_state ?d1) = Some (demo_state ?d2, Inr ())"
    by (simp add: run)
  from step[OF r1 _ this] have r2: "reachable (demo_state ?d2)" by simp
  have "run_op (OpAddContainerToPod demo_pod (pod_ctr ''c2'' ''log'' [''c1''])) (demo_state ?d2) =
      Some (demo_state pod_pair_db, Inr ())"
    by (simp add: run)
  from step[OF r2 _ this] show ?thesis by simp
qed

definition open_runtime :: Runtime where
  "open_runtime = \<lparr>rt_RetrieveLock = (\<lambda>i. Inr i), rt_ociRuntimes = [], rt_newConmonOCIRuntime = (\<lambda>_. False),
     rt_getVolumePlugin = (\<lambda>_. Inl ErrInternal), rt_VolumePlugins = [], rt_DefaultNetwork = ''podman''\<rparr>"

lemma pod_ctr_read:
  "bget cb i = Some (pod_ctr_bkt (pod_ctr i n deps) users) \<Longrightarrow>
   \<exists>c. getContainerFromDB open_runtime i cb False = Inr c \<and> ctr_config c = ctr_config (pod_ctr i n deps)"
  by (simp add: getContainerFromDB_def getContainerConfigFromDB_def open_runtime_def pod_ctr_bkt_def pod_ctr_def
      empty_ctr_bkt_def zero_ContainerConfig_def)

lemma pod_pair_read:
  "\<exists>c1 c2. PodContainers open_runtime (demo_state pod_pair_db) demo_pod = Some (demo_state pod_pair_db, demo_pod, Inr [c1, c2]) \<and>
     ctr_ID c1 = ''c1'' \<and> ctr_ID c2 = ''c2'' \<and> Dependencies c2 = [''c1'']"
proof -
  let ?cb = "[(''c1'', pod_ctr_bkt (pod_ctr ''c1'' ''app'' []) [(''c2'', ''log'')]), (''c2'', pod_ctr_bkt (pod_ctr ''c2'' ''log'' [''c1'']) [])]"
  obtain c1 where c1: "getContainerFromDB open_runtime ''c1'' ?cb False = Inr c1" "ctr_config c1 = ctr_config (pod_ctr ''c1'' ''app'' [])"
    using pod_ctr_read[of ?cb "''c1''" "''app''" "[]" "[(''c2'', ''log'')]"] by auto
  obtain c2 where c2: "getContainerFromDB open_runtime ''c2'' ?cb False = Inr c2" "ctr_config c2 = ctr_config (pod_ctr ''c2'' ''log'' [''c1''])"
    using pod_ctr_read[of ?cb "''c2''" "''log''" "[''c1'']" "[]"] by auto
  have db: "db_ctrs pod_pair_db = Some ?cb"
    "db_pods pod_pair_db = Some [(''p1'', demo_pod_bkt\<lparr>pb_containers := Some [(''c1'', ''app''), (''c2'', ''log'')]\<rparr>)]"
    by (simp_all add: pod_pair_db_def pod_db_def)
  have "PodContainers open_runtime (demo_state pod_pair_db) demo_pod = Some (demo_state pod_pair_db, demo_pod, Inr [c1, c2])"
    by (simp add: PodContainers_def podOp_def withDBCon_ready[OF demo_ready] demo_bs_db demo_update demo_ctr_simps(3)
        pod_ctr_simps getMembers_def getBucket_defs db c1(1) c2(1))
  then show ?thesis using c1(2) c2(2) by (simp add: pod_ctr_def Dependencies_def cfg_depends_def zero_ContainerConfig_def)
qed

theorem pod_graph_builds_witness:
  "\<exists>cs g. PodContainers open_runtime (demo_state pod_pair_db) demo_pod = Some (demo_state pod_pair_db, demo_pod, Inr cs) \<and>
     (''c2'', ''c1'') \<in> depRel cs \<and> BuildContainerGraph [''c2'', ''c1''] [''c1'', ''c2''] cs = Some (Inr g)"
proof -
  obtain c1 c2 where r: "PodContainers open_runtime (demo_state pod_pair_db) demo_pod = Some (demo_state pod_pair_db, demo_pod, Inr [c1, c2])"
    and c: "ctr_ID c1 = ''c1''" "ctr_ID c2 = ''c2''" "Dependencies c2 = [''c1'']"
    using pod_pair_read by blast
  have "(''c2'', ''c1'') \<in> depRel [c1, c2]" by (simp add: depRel_def deps_in_def ctr_map_def c)
  moreover have "\<exists>g. BuildContainerGraph [''c2'', ''c1''] [''c1'', ''c2''] [c1, c2] = Some (Inr g)"
    by (rule pod_graph_builds[OF pod_pair_reachable r]) (auto simp: enumerates_def ctr_ids_def c)
  ultimately show ?thesis using r by blast
qed

end
